theory Spec2Isabelle
  imports Complex_Main
begin

section \<open>Errors and loops\<close>

text \<open>
  The Python exceptions the tiling pipeline can raise, as values. A computation that may
  raise returns \<open>error + 'a\<close>, with \<open>Inl\<close> for the exception.
\<close>

datatype error = ValueError | IndexError | TypeError | RuntimeError

text \<open>
  A Python \<open>for x in xs: body\<close> over a state \<open>s\<close>: the body runs for each element in
  order, and the first exception leaves the loop. (The type of the exception is left open:
  where the network is called, the exception comes with the calls made so far.)
\<close>

fun for_each :: "('a \<Rightarrow> 's \<Rightarrow> 'e + 's) \<Rightarrow> 'a list \<Rightarrow> 's \<Rightarrow> 'e + 's" where
  "for_each body [] s = Inr s"
| "for_each body (x # xs) s =
     (case body x s of Inl e \<Rightarrow> Inl e | Inr s' \<Rightarrow> for_each body xs s')"

text \<open>Python's \<open>range(n)\<close> for an integer \<open>n\<close>: empty when \<open>n \<le> 0\<close>.\<close>

definition py_range :: "int \<Rightarrow> int list" where
  "py_range n = map int [0..<nat n]"

section \<open>Coordinate transform (tiling.py, lines 250-304)\<close>

text \<open>\<open>_tile2pixel_indices\<close>: the pixel extents of a tile, as (row start, row end, column start, column end).\<close>

definition tile2pixel_indices :: "int \<Rightarrow> int \<Rightarrow> int \<Rightarrow> int \<Rightarrow> int \<Rightarrow> int \<Rightarrow> int \<times> int \<times> int \<times> int" where
  "tile2pixel_indices tile_row tile_col tile_width tile_height tile_row_overlap tile_col_overlap =
     (let px_row_init = (if tile_row = 0 then 0 else tile_row * (tile_height - tile_row_overlap));
          px_row_end = px_row_init + tile_height;
          px_col_init = (if tile_col = 0 then 0 else tile_col * (tile_width - tile_col_overlap));
          px_col_end = px_col_init + tile_width
      in (px_row_init, px_row_end, px_col_init, px_col_end))"

text \<open>\<open>_pixel2latent_indices\<close>: Python's floor division \<open>//\<close> by 8 is \<open>div\<close> on \<open>int\<close>.\<close>

definition pixel2latent_indices :: "int \<Rightarrow> int \<Rightarrow> int \<Rightarrow> int \<Rightarrow> int \<times> int \<times> int \<times> int" where
  "pixel2latent_indices px_row_init px_row_end px_col_init px_col_end =
     (px_row_init div 8, px_row_end div 8, px_col_init div 8, px_col_end div 8)"

text \<open>\<open>_tile2latent_indices\<close>: the inclusive latent region of a tile.\<close>

definition tile2latent_indices :: "int \<Rightarrow> int \<Rightarrow> int \<Rightarrow> int \<Rightarrow> int \<Rightarrow> int \<Rightarrow> int \<times> int \<times> int \<times> int" where
  "tile2latent_indices tile_row tile_col tile_width tile_height tile_row_overlap tile_col_overlap =
     (case tile2pixel_indices tile_row tile_col tile_width tile_height tile_row_overlap tile_col_overlap of
        (px_row_init, px_row_end, px_col_init, px_col_end) \<Rightarrow>
          pixel2latent_indices px_row_init px_row_end px_col_init px_col_end)"

text \<open>
  The inverse the round-trip property of the specification speaks of (it is not a function of
  the source): the tile indices read back from the pixel start offsets, by dividing each
  offset by the stride of its axis.
\<close>

definition pixel2tile_indices :: "int \<Rightarrow> int \<Rightarrow> int \<Rightarrow> int \<Rightarrow> int \<Rightarrow> int \<Rightarrow> int \<times> int" where
  "pixel2tile_indices px_row_init px_col_init tile_width tile_height tile_row_overlap tile_col_overlap =
     (px_row_init div (tile_height - tile_row_overlap), px_col_init div (tile_width - tile_col_overlap))"

subsection \<open>Segments\<close>

text \<open>
  \<open>ligo.segments.segment\<close> is an external library type, used by the source for the two
  axes of a region. As the library documents it: the constructor orders its two bounds;
  \<open>a - b\<close> returns \<open>a\<close> when the two do not intersect, raises \<open>ValueError\<close> when the
  difference is not exactly one segment (\<open>a\<close> lies within \<open>b\<close>, or \<open>b\<close> lies strictly
  inside \<open>a\<close>), and otherwise returns the part of \<open>a\<close> on the side that \<open>b\<close> leaves.
\<close>

type_synonym segment = "int \<times> int"

definition segment :: "int \<Rightarrow> int \<Rightarrow> segment" where
  "segment a b = (if a \<le> b then (a, b) else (b, a))"

definition segment_sub :: "segment \<Rightarrow> segment \<Rightarrow> error + segment" where
  "segment_sub self other =
     (if snd self \<le> fst other \<or> fst self \<ge> snd other then Inr self
      else if (fst other \<le> fst self \<and> snd other \<ge> snd self)
              \<or> (fst self < fst other \<and> snd self > snd other) then Inl ValueError
      else if fst self < fst other then Inr (fst self, fst other)
      else Inr (snd other, snd self))"

text \<open>
  The body of the double loop of \<open>_tile2latent_exclusive_indices\<close> (lines 299-302): the state
  is the pair (row segment, column segment).
\<close>

definition clip_segments :: "int \<Rightarrow> int \<Rightarrow> int \<Rightarrow> int \<Rightarrow> int \<Rightarrow> int \<Rightarrow> int \<Rightarrow> int
    \<Rightarrow> segment \<times> segment \<Rightarrow> error + segment \<times> segment" where
  "clip_segments tile_row tile_col tile_width tile_height tile_row_overlap tile_col_overlap row column s =
     (if row \<noteq> tile_row \<and> column \<noteq> tile_col then
        (case tile2latent_indices row column tile_width tile_height tile_row_overlap tile_col_overlap of
           (clip_row_init, clip_row_end, clip_col_init, clip_col_end) \<Rightarrow>
             (case segment_sub (fst s) (segment clip_row_init clip_row_end) of
                Inl e \<Rightarrow> Inl e
              | Inr row_segment \<Rightarrow>
                  (case segment_sub (snd s) (segment clip_col_init clip_col_end) of
                     Inl e \<Rightarrow> Inl e
                   | Inr col_segment \<Rightarrow> Inr (row_segment, col_segment))))
      else Inr s)"

text \<open>\<open>_tile2latent_exclusive_indices\<close> (lines 284-304).\<close>

definition tile2latent_exclusive_indices :: "int \<Rightarrow> int \<Rightarrow> int \<Rightarrow> int \<Rightarrow> int \<Rightarrow> int \<Rightarrow> int \<Rightarrow> int
    \<Rightarrow> error + int \<times> int \<times> int \<times> int" where
  "tile2latent_exclusive_indices tile_row tile_col tile_width tile_height tile_row_overlap tile_col_overlap rows columns =
     (case tile2latent_indices tile_row tile_col tile_width tile_height tile_row_overlap tile_col_overlap of
        (row_init, row_end, col_init, col_end) \<Rightarrow>
          (case for_each
                  (\<lambda>row. for_each
                     (\<lambda>column. clip_segments tile_row tile_col tile_width tile_height
                        tile_row_overlap tile_col_overlap row column)
                     (py_range columns))
                  (py_range rows)
                  (segment row_init row_end, segment col_init col_end) of
             Inl e \<Rightarrow> Inl e
           | Inr (row_segment, col_segment) \<Rightarrow>
               Inr (fst row_segment, snd row_segment, fst col_segment, snd col_segment)))"

text \<open>
  The exclusive region as the specification words it: every other tile of the grid, in
  row-major order, is subtracted from both axes.
\<close>

definition subtract_all :: "segment \<Rightarrow> segment list \<Rightarrow> error + segment" where
  "subtract_all s others = for_each (\<lambda>other self. segment_sub self other) others s"

definition row_segment_of :: "int \<Rightarrow> int \<Rightarrow> int \<Rightarrow> int \<Rightarrow> int \<Rightarrow> int \<Rightarrow> segment" where
  "row_segment_of row column tile_width tile_height tile_row_overlap tile_col_overlap =
     (case tile2latent_indices row column tile_width tile_height tile_row_overlap tile_col_overlap of
        (row_init, row_end, col_init, col_end) \<Rightarrow> segment row_init row_end)"

definition col_segment_of :: "int \<Rightarrow> int \<Rightarrow> int \<Rightarrow> int \<Rightarrow> int \<Rightarrow> int \<Rightarrow> segment" where
  "col_segment_of row column tile_width tile_height tile_row_overlap tile_col_overlap =
     (case tile2latent_indices row column tile_width tile_height tile_row_overlap tile_col_overlap of
        (row_init, row_end, col_init, col_end) \<Rightarrow> segment col_init col_end)"

definition join_axes :: "error + segment \<Rightarrow> error + segment \<Rightarrow> error + int \<times> int \<times> int \<times> int" where
  "join_axes rs cs =
     (case rs of
        Inl e \<Rightarrow> Inl e
      | Inr row_segment \<Rightarrow>
          (case cs of
             Inl e \<Rightarrow> Inl e
           | Inr col_segment \<Rightarrow>
               Inr (fst row_segment, snd row_segment, fst col_segment, snd col_segment)))"

definition exclusive_every_other_tile :: "int \<Rightarrow> int \<Rightarrow> int \<Rightarrow> int \<Rightarrow> int \<Rightarrow> int \<Rightarrow> int \<Rightarrow> int
    \<Rightarrow> error + int \<times> int \<times> int \<times> int" where
  "exclusive_every_other_tile tile_row tile_col tile_width tile_height tile_row_overlap tile_col_overlap rows columns =
     join_axes
       (subtract_all (row_segment_of tile_row tile_col tile_width tile_height tile_row_overlap tile_col_overlap)
          [row_segment_of r c tile_width tile_height tile_row_overlap tile_col_overlap.
             r \<leftarrow> py_range rows, c \<leftarrow> py_range columns, (r, c) \<noteq> (tile_row, tile_col)])
       (subtract_all (col_segment_of tile_row tile_col tile_width tile_height tile_row_overlap tile_col_overlap)
          [col_segment_of r c tile_width tile_height tile_row_overlap tile_col_overlap.
             r \<leftarrow> py_range rows, c \<leftarrow> py_range columns, (r, c) \<noteq> (tile_row, tile_col)])"

text \<open>
  The same with each axis clipped only by the tiles that lie elsewhere on that axis: the row
  interval by the tiles of other grid rows, the column interval by the tiles of other grid
  columns.
\<close>

definition exclusive_other_rows_columns :: "int \<Rightarrow> int \<Rightarrow> int \<Rightarrow> int \<Rightarrow> int \<Rightarrow> int \<Rightarrow> int \<Rightarrow> int
    \<Rightarrow> error + int \<times> int \<times> int \<times> int" where
  "exclusive_other_rows_columns tile_row tile_col tile_width tile_height tile_row_overlap tile_col_overlap rows columns =
     join_axes
       (subtract_all (row_segment_of tile_row tile_col tile_width tile_height tile_row_overlap tile_col_overlap)
          [row_segment_of r c tile_width tile_height tile_row_overlap tile_col_overlap.
             r \<leftarrow> py_range rows, c \<leftarrow> py_range columns, r \<noteq> tile_row])
       (subtract_all (col_segment_of tile_row tile_col tile_width tile_height tile_row_overlap tile_col_overlap)
          [col_segment_of r c tile_width tile_height tile_row_overlap tile_col_overlap.
             r \<leftarrow> py_range rows, c \<leftarrow> py_range columns, c \<noteq> tile_col])"

text \<open>The test by which a subtraction leaves a segment as it is.\<close>

definition clear_of :: "segment \<Rightarrow> segment \<Rightarrow> bool" where
  "clear_of s other = (snd s \<le> fst other \<or> fst s \<ge> snd other)"

section \<open>Tensors\<close>

text \<open>
  A four-dimensional torch tensor [batch, channels, height, width]: its shape and its
  elements by index. Floating-point numbers are idealised as real numbers throughout.
\<close>

type_synonym shape4 = "nat \<times> nat \<times> nat \<times> nat"

record 'a tensor =
  shape :: shape4
  elems :: "nat \<times> nat \<times> nat \<times> nat \<Rightarrow> 'a"

definition batch :: "'a tensor \<Rightarrow> nat" where
  "batch t = fst (shape t)"

definition in_shape :: "shape4 \<Rightarrow> nat \<times> nat \<times> nat \<times> nat \<Rightarrow> bool" where
  "in_shape sh idx =
     (case sh of (B, C, H, W) \<Rightarrow> (case idx of (b, c, y, x) \<Rightarrow> b < B \<and> c < C \<and> y < H \<and> x < W))"

text \<open>\<open>torch.zeros(shape)\<close>.\<close>

definition zeros :: "shape4 \<Rightarrow> real tensor" where
  "zeros sh = \<lparr>shape = sh, elems = (\<lambda>idx. 0)\<rparr>"

text \<open>
  The bounds of the Python slice \<open>a:b\<close> on an axis of length \<open>n\<close>: a negative bound counts
  from the end, both are clamped to the axis, and an end before the start gives the empty
  slice.
\<close>

definition slice_bound :: "nat \<Rightarrow> int \<Rightarrow> nat" where
  "slice_bound n a = (if a < 0 then nat (max (a + int n) 0) else min (nat a) n)"

definition slice_bounds :: "nat \<Rightarrow> int \<Rightarrow> int \<Rightarrow> nat \<times> nat" where
  "slice_bounds n a b = (slice_bound n a, max (slice_bound n a) (slice_bound n b))"

text \<open>
  Broadcasting, as torch does it for tensors of equal rank: two sizes of an axis are
  compatible when they are equal or one of them is 1; a tensor expands to a target shape
  when each of its sizes is the target's or 1. An axis of size 1 is read at index 0.
\<close>

definition broadcast_dim :: "nat \<Rightarrow> nat \<Rightarrow> nat option" where
  "broadcast_dim a b = (if a = b then Some a else if a = 1 then Some b else if b = 1 then Some a else None)"

definition broadcast_shape :: "shape4 \<Rightarrow> shape4 \<Rightarrow> shape4 option" where
  "broadcast_shape s t =
     (case s of (B, C, H, W) \<Rightarrow> (case t of (B', C', H', W') \<Rightarrow>
        (case broadcast_dim B B' of None \<Rightarrow> None | Some b \<Rightarrow>
        (case broadcast_dim C C' of None \<Rightarrow> None | Some c \<Rightarrow>
        (case broadcast_dim H H' of None \<Rightarrow> None | Some h \<Rightarrow>
        (case broadcast_dim W W' of None \<Rightarrow> None | Some w \<Rightarrow> Some (b, c, h, w)))))))"

definition expands_to :: "shape4 \<Rightarrow> shape4 \<Rightarrow> bool" where
  "expands_to s t =
     (case s of (B, C, H, W) \<Rightarrow> (case t of (B', C', H', W') \<Rightarrow>
        (B = B' \<or> B = 1) \<and> (C = C' \<or> C = 1) \<and> (H = H' \<or> H = 1) \<and> (W = W' \<or> W = 1)))"

definition bidx :: "nat \<Rightarrow> nat \<Rightarrow> nat" where
  "bidx d i = (if d = 1 then 0 else i)"

definition bread :: "'a tensor \<Rightarrow> nat \<times> nat \<times> nat \<times> nat \<Rightarrow> 'a" where
  "bread t idx =
     (case shape t of (B, C, H, W) \<Rightarrow> (case idx of (b, c, y, x) \<Rightarrow>
        elems t (bidx B b, bidx C c, bidx H y, bidx W x)))"

text \<open>An element-wise binary operation of two tensors (\<open>a * b\<close>, \<open>a + b\<close>, \<open>a - b\<close>).\<close>

definition binop :: "('a \<Rightarrow> 'a \<Rightarrow> 'a) \<Rightarrow> 'a tensor \<Rightarrow> 'a tensor \<Rightarrow> error + 'a tensor" where
  "binop f a b =
     (case broadcast_shape (shape a) (shape b) of
        None \<Rightarrow> Inl RuntimeError
      | Some sh \<Rightarrow> Inr \<lparr>shape = sh, elems = (\<lambda>idx. f (bread a idx) (bread b idx))\<rparr>)"

text \<open>A tensor and a Python number (\<open>g * a\<close>, \<open>a / s\<close>, \<open>a * s\<close>).\<close>

definition scalar_op :: "('a \<Rightarrow> 'a) \<Rightarrow> 'a tensor \<Rightarrow> 'a tensor" where
  "scalar_op f a = \<lparr>shape = shape a, elems = (\<lambda>idx. f (elems a idx))\<rparr>"

text \<open>\<open>t[:, :, r0:r1, c0:c1]\<close>: a slice never raises.\<close>

definition getitem :: "'a tensor \<Rightarrow> int \<Rightarrow> int \<Rightarrow> int \<Rightarrow> int \<Rightarrow> 'a tensor" where
  "getitem t r0 r1 c0 c1 =
     (case shape t of (B, C, H, W) \<Rightarrow>
        (case slice_bounds H r0 r1 of (ya, yb) \<Rightarrow>
        (case slice_bounds W c0 c1 of (xa, xb) \<Rightarrow>
           \<lparr>shape = (B, C, yb - ya, xb - xa),
            elems = (\<lambda>idx. case idx of (b, c, y, x) \<Rightarrow> elems t (b, c, ya + y, xa + x))\<rparr>)))"

text \<open>
  \<open>t[:, :, r0:r1, c0:c1] = v\<close> and \<open>t[:, :, r0:r1, c0:c1] += v\<close>: \<open>v\<close> has to expand to the
  shape of the slice, else torch raises \<open>RuntimeError\<close>. The operation \<open>f old new\<close> is
  \<open>new\<close> for the assignment and \<open>old + new\<close> for the in-place addition.
\<close>

definition update_region :: "('a \<Rightarrow> 'a \<Rightarrow> 'a) \<Rightarrow> 'a tensor \<Rightarrow> int \<Rightarrow> int \<Rightarrow> int \<Rightarrow> int \<Rightarrow> 'a tensor
    \<Rightarrow> error + 'a tensor" where
  "update_region f t r0 r1 c0 c1 v =
     (case shape t of (B, C, H, W) \<Rightarrow>
        (case slice_bounds H r0 r1 of (ya, yb) \<Rightarrow>
        (case slice_bounds W c0 c1 of (xa, xb) \<Rightarrow>
           (if expands_to (shape v) (B, C, yb - ya, xb - xa) then
              Inr (t\<lparr>elems := (\<lambda>idx. case idx of (b, c, y, x) \<Rightarrow>
                     if ya \<le> y \<and> y < yb \<and> xa \<le> x \<and> x < xb
                     then f (elems t idx) (bread v (b, c, y - ya, x - xa))
                     else elems t idx)\<rparr>)
            else Inl RuntimeError))))"

definition setitem :: "'a tensor \<Rightarrow> int \<Rightarrow> int \<Rightarrow> int \<Rightarrow> int \<Rightarrow> 'a tensor \<Rightarrow> error + 'a tensor" where
  "setitem = update_region (\<lambda>old new. new)"

definition iadd_region :: "real tensor \<Rightarrow> int \<Rightarrow> int \<Rightarrow> int \<Rightarrow> int \<Rightarrow> real tensor \<Rightarrow> error + real tensor" where
  "iadd_region = update_region (\<lambda>old new. old + new)"

text \<open>\<open>torch.cat([t] * 2)\<close>: the tensor twice, along the batch axis.\<close>

definition cat_twice :: "'a tensor \<Rightarrow> 'a tensor" where
  "cat_twice t =
     (case shape t of (B, C, H, W) \<Rightarrow>
        \<lparr>shape = (B + B, C, H, W),
         elems = (\<lambda>idx. case idx of (b, c, y, x) \<Rightarrow>
                    if b < B then elems t (b, c, y, x) else elems t (b - B, c, y, x))\<rparr>)"

text \<open>
  \<open>u, v = t.chunk(2)\<close>: torch cuts the batch axis of size \<open>n\<close> into pieces of size
  \<open>ceil(n / 2)\<close>; that is two pieces when \<open>n \<ge> 2\<close> (and two empty ones when \<open>n = 0\<close>), and
  one piece when \<open>n = 1\<close>, for which the unpacking into two names raises \<open>ValueError\<close>.
\<close>

definition chunk2 :: "'a tensor \<Rightarrow> error + 'a tensor \<times> 'a tensor" where
  "chunk2 t =
     (case shape t of (B, C, H, W) \<Rightarrow>
        (if B = 1 then Inl ValueError
         else (let k = (B + 1) div 2 in
           Inr (\<lparr>shape = (k, C, H, W), elems = elems t\<rparr>,
                \<lparr>shape = (B - k, C, H, W),
                 elems = (\<lambda>idx. case idx of (b, c, y, x) \<Rightarrow> elems t (k + b, c, y, x))\<rparr>))))"

text \<open>Python's \<open>xs[i]\<close> for an index from a \<open>range\<close>: \<open>IndexError\<close> past the end.\<close>

definition py_index :: "'a list \<Rightarrow> nat \<Rightarrow> error + 'a" where
  "py_index xs i = (if i < length xs then Inr (xs ! i) else Inl IndexError)"

section \<open>Blend weight generator (tiling.py, lines 231-246)\<close>

text \<open>
  The two profiles of \<open>_gaussian_weights\<close>, with \<open>var = 0.01\<close>. The midpoint of the
  horizontal profile is \<open>(latent_width - 1) / 2\<close>, that of the vertical profile is
  \<open>latent_height / 2\<close>, as in the source.
\<close>

definition var :: real where
  "var = 1 / 100"

definition x_probs :: "int \<Rightarrow> real list" where
  "x_probs tile_width =
     (let latent_width = tile_width div 8;
          midpoint = (real_of_int latent_width - 1) / 2
      in map (\<lambda>x. exp (- (real_of_int x - midpoint) * (real_of_int x - midpoint)
                         / (real_of_int latent_width * real_of_int latent_width) / (2 * var))
                   / sqrt (2 * pi * var))
           (py_range latent_width))"

definition y_probs :: "int \<Rightarrow> real list" where
  "y_probs tile_height =
     (let latent_height = tile_height div 8;
          midpoint = real_of_int latent_height / 2
      in map (\<lambda>y. exp (- (real_of_int y - midpoint) * (real_of_int y - midpoint)
                         / (real_of_int latent_height * real_of_int latent_height) / (2 * var))
                   / sqrt (2 * pi * var))
           (py_range latent_height))"

text \<open>\<open>np.outer(y_probs, x_probs)\<close>: the entry at row \<open>y\<close>, column \<open>x\<close> is \<open>y_probs[y] * x_probs[x]\<close>.\<close>

definition outer :: "real list \<Rightarrow> real list \<Rightarrow> real list list" where
  "outer ys xs = map (\<lambda>y. map (\<lambda>x. y * x) xs) ys"

definition weights :: "int \<Rightarrow> int \<Rightarrow> real list list" where
  "weights tile_width tile_height = outer (y_probs tile_height) (x_probs tile_width)"

text \<open>\<open>torch.tile(torch.tensor(weights), (nbatches, in_channels, 1, 1))\<close>.\<close>

definition gaussian_weights :: "nat \<Rightarrow> int \<Rightarrow> int \<Rightarrow> nat \<Rightarrow> real tensor" where
  "gaussian_weights in_channels tile_width tile_height nbatches =
     \<lparr>shape = (nbatches, in_channels, nat (tile_height div 8), nat (tile_width div 8)),
      elems = (\<lambda>idx. case idx of (b, c, y, x) \<Rightarrow> weights tile_width tile_height ! y ! x)\<rparr>"

section \<open>The pipeline and its collaborators\<close>

text \<open>
  What \<open>StableDiffusionTilingPipeline.__call__\<close> uses of its collaborators, as parameters:
  the number of latent channels of the denoising network; \<open>torch.randn\<close> from a generator
  seeded with \<open>manual_seed\<close>, as a function of the seed and the shape; the text encoder
  (with its tokenizer) and the concatenation of two embeddings; the denoising network; the
  scheduler (whether it is an \<open>LMSDiscreteScheduler\<close>, its \<open>sigmas\<close>, its state after
  \<open>set_timesteps\<close>, its \<open>timesteps\<close>, whether \<open>step\<close> accepts \<open>eta\<close>, and \<open>step\<close>
  itself, which returns the new state and the previous sample); and \<open>decode_latents\<close> of
  \<open>StableDiffusionExtrasMixin\<close>, which is not among the source files.
\<close>

datatype event = Text_encoder_call string | Unet_call nat nat nat

datatype 'ts step_arg = Step_index nat | Step_time 'ts

record ('emb, 'ts, 'st, 'img) pipeline =
  in_channels :: nat
  randn :: "int \<Rightarrow> shape4 \<Rightarrow> nat \<times> nat \<times> nat \<times> nat \<Rightarrow> real"
  text_encoder :: "string \<Rightarrow> 'emb"
  cat_embeddings :: "'emb \<Rightarrow> 'emb \<Rightarrow> 'emb"
  unet :: "real tensor \<Rightarrow> 'ts \<Rightarrow> 'emb \<Rightarrow> real tensor"
  is_lms :: bool
  sigmas :: "nat \<Rightarrow> real"
  set_timesteps :: "int \<Rightarrow> 'st"
  timesteps :: "'st \<Rightarrow> 'ts list"
  accepts_eta :: bool
  scheduler_step :: "'st \<Rightarrow> real option tensor \<Rightarrow> 'ts step_arg \<Rightarrow> real tensor \<Rightarrow> real option
                       \<Rightarrow> 'st \<times> real tensor"
  decode_latents :: "real tensor \<Rightarrow> bool \<Rightarrow> 'img list"

text \<open>\<open>torch.randn(shape, generator=torch.Generator("cuda").manual_seed(seed))\<close>.\<close>

definition draw :: "('emb, 'ts, 'st, 'img) pipeline \<Rightarrow> int \<Rightarrow> shape4 \<Rightarrow> real tensor" where
  "draw p seed sh = \<lparr>shape = sh, elems = randn p seed sh\<rparr>"

section \<open>Input validation (tiling.py, lines 67-81)\<close>

text \<open>
  The prompt is a string or a list of rows of strings, and so is the seeding mode. A string
  as prompt is refused; an empty list of rows fails at \<open>prompt[0]\<close>. The result is the grid
  size, the grid of modes and the list of reroll regions.
\<close>

definition validate :: "string + string list list \<Rightarrow> string + string list list
    \<Rightarrow> (int \<times> int \<times> int \<times> int \<times> int) list option
    \<Rightarrow> error + nat \<times> nat \<times> string list list \<times> (int \<times> int \<times> int \<times> int \<times> int) list" where
  "validate prompt seed_tiles_mode seed_reroll_regions =
     (case prompt of
        Inl text \<Rightarrow> Inl ValueError
      | Inr rows \<Rightarrow>
          (case rows of
             [] \<Rightarrow> Inl IndexError
           | first_row # other_rows \<Rightarrow>
               (if list_ex (\<lambda>row. length row \<noteq> length first_row) rows then Inl ValueError
                else (let modes = (case seed_tiles_mode of
                                     Inl mode \<Rightarrow> map (\<lambda>row. map (\<lambda>col. mode) row) rows
                                   | Inr grid \<Rightarrow> grid)
                      in if list_ex (\<lambda>mode. mode \<notin> set [''full'', ''exclusive'']) (concat modes)
                         then Inl ValueError
                         else Inr (length rows, length first_row, modes,
                                   (case seed_reroll_regions of None \<Rightarrow> [] | Some regions \<Rightarrow> regions))))))"

section \<open>Seed and noise initializer (tiling.py, lines 91-117)\<close>

text \<open>
  \<open>torch.Generator("cuda").manual_seed(seed)\<close> (lines 95, 108 and 115), with a CUDA device
  present: torch raises \<open>RuntimeError\<close> when the seed is \<open>None\<close> ("manual_seed expected a
  long") and when it lies outside \<open>-2^63 .. 2^64 - 1\<close> ("Overflow when unpacking long").
  The generator is known by its seed.
\<close>

definition valid_seed :: "int \<Rightarrow> bool" where
  "valid_seed s = (- (2 ^ 63) \<le> s \<and> s \<le> 2 ^ 64 - 1)"

definition manual_seed :: "int option \<Rightarrow> error + int" where
  "manual_seed seed =
     (case seed of
        None \<Rightarrow> Inl RuntimeError
      | Some s \<Rightarrow> (if valid_seed s then Inr s else Inl RuntimeError))"

text \<open>
  The canvas-wide draw (lines 92-96). \<open>torch.randn\<close> raises \<open>RuntimeError\<close> for a negative
  size. The batch size is the constant 1 of line 81.
\<close>

definition batch_size :: nat where
  "batch_size = 1"

definition latents_shape :: "('emb, 'ts, 'st, 'img) pipeline \<Rightarrow> int \<Rightarrow> int \<Rightarrow> int \<Rightarrow> int \<Rightarrow> nat \<Rightarrow> nat
    \<Rightarrow> nat \<times> nat \<times> int \<times> int" where
  "latents_shape p tile_width tile_height tile_row_overlap tile_col_overlap grid_rows grid_cols =
     (let height = tile_height + (int grid_rows - 1) * (tile_height - tile_row_overlap);
          width = tile_width + (int grid_cols - 1) * (tile_width - tile_col_overlap)
      in (batch_size, in_channels p, height div 8, width div 8))"

definition initial_latents :: "('emb, 'ts, 'st, 'img) pipeline \<Rightarrow> int option \<Rightarrow> int \<Rightarrow> int \<Rightarrow> int \<Rightarrow> int
    \<Rightarrow> nat \<Rightarrow> nat \<Rightarrow> error + real tensor" where
  "initial_latents p seed tile_width tile_height tile_row_overlap tile_col_overlap grid_rows grid_cols =
     (case latents_shape p tile_width tile_height tile_row_overlap tile_col_overlap grid_rows grid_cols of
        (b, c, h, w) \<Rightarrow>
          (case manual_seed seed of
             Inl e \<Rightarrow> Inl e
           | Inr generator \<Rightarrow>
               (if h < 0 \<or> w < 0 then Inl RuntimeError
                else Inr (draw p generator (b, c, nat h, nat w)))))"

text \<open>
  Lines 108-110 and 115-117: fresh noise of the shape of the region, from a generator seeded
  for it, written over the region. (\<open>latents_shape[0]\<close> and \<open>latents_shape[1]\<close> are the batch
  size and the channels of \<open>latents\<close>.)
\<close>

definition reseed_region :: "('emb, 'ts, 'st, 'img) pipeline \<Rightarrow> real tensor \<Rightarrow> int \<Rightarrow> int \<Rightarrow> int \<Rightarrow> int \<Rightarrow> int
    \<Rightarrow> error + real tensor" where
  "reseed_region p latents row_init row_end col_init col_end seed =
     (case manual_seed (Some seed) of
        Inl e \<Rightarrow> Inl e
      | Inr generator \<Rightarrow>
          (if row_end - row_init < 0 \<or> col_end - col_init < 0 then Inl RuntimeError
           else setitem latents row_init row_end col_init col_end
                  (draw p generator (fst (shape latents), fst (snd (shape latents)),
                                     nat (row_end - row_init), nat (col_end - col_init)))))"

text \<open>The body of the double loop over the tiles (lines 102-110).\<close>

definition seed_tile :: "('emb, 'ts, 'st, 'img) pipeline \<Rightarrow> int option list list \<Rightarrow> string list list
    \<Rightarrow> int \<Rightarrow> int \<Rightarrow> int \<Rightarrow> int \<Rightarrow> nat \<Rightarrow> nat \<Rightarrow> nat \<Rightarrow> nat \<Rightarrow> real tensor \<Rightarrow> error + real tensor" where
  "seed_tile p seed_tiles seed_tiles_mode tile_width tile_height tile_row_overlap tile_col_overlap
       grid_rows grid_cols row col latents =
     (case py_index seed_tiles row of
        Inl e \<Rightarrow> Inl e
      | Inr seeds_row \<Rightarrow>
          (case py_index seeds_row col of
             Inl e \<Rightarrow> Inl e
           | Inr None \<Rightarrow> Inr latents
           | Inr (Some tile_seed) \<Rightarrow>
               (case py_index seed_tiles_mode row of
                  Inl e \<Rightarrow> Inl e
                | Inr modes_row \<Rightarrow>
                    (case py_index modes_row col of
                       Inl e \<Rightarrow> Inl e
                     | Inr mode \<Rightarrow>
                         (case (if mode = ''full''
                                then Inr (tile2latent_indices (int row) (int col) tile_width tile_height
                                            tile_row_overlap tile_col_overlap)
                                else tile2latent_exclusive_indices (int row) (int col) tile_width tile_height
                                       tile_row_overlap tile_col_overlap (int grid_rows) (int grid_cols)) of
                            Inl e \<Rightarrow> Inl e
                          | Inr (row_init, row_end, col_init, col_end) \<Rightarrow>
                              reseed_region p latents row_init row_end col_init col_end tile_seed)))))"

definition apply_seed_tiles :: "('emb, 'ts, 'st, 'img) pipeline \<Rightarrow> int option list list option \<Rightarrow> string list list
    \<Rightarrow> int \<Rightarrow> int \<Rightarrow> int \<Rightarrow> int \<Rightarrow> nat \<Rightarrow> nat \<Rightarrow> real tensor \<Rightarrow> error + real tensor" where
  "apply_seed_tiles p seed_tiles seed_tiles_mode tile_width tile_height tile_row_overlap tile_col_overlap
       grid_rows grid_cols latents =
     (case seed_tiles of
        None \<Rightarrow> Inr latents
      | Some seeds \<Rightarrow>
          for_each
            (\<lambda>row. for_each
               (\<lambda>col. seed_tile p seeds seed_tiles_mode tile_width tile_height tile_row_overlap
                         tile_col_overlap grid_rows grid_cols row col)
               [0..<grid_cols])
            [0..<grid_rows] latents)"

text \<open>The reroll regions (lines 113-117), in listed order.\<close>

definition reroll_region :: "('emb, 'ts, 'st, 'img) pipeline \<Rightarrow> int \<times> int \<times> int \<times> int \<times> int \<Rightarrow> real tensor
    \<Rightarrow> error + real tensor" where
  "reroll_region p region latents =
     (case region of (px_row_init, px_row_end, px_col_init, px_col_end, seed_reroll) \<Rightarrow>
        (case pixel2latent_indices px_row_init px_row_end px_col_init px_col_end of
           (row_init, row_end, col_init, col_end) \<Rightarrow>
             reseed_region p latents row_init row_end col_init col_end seed_reroll))"

definition apply_reroll_regions :: "('emb, 'ts, 'st, 'img) pipeline \<Rightarrow> (int \<times> int \<times> int \<times> int \<times> int) list
    \<Rightarrow> real tensor \<Rightarrow> error + real tensor" where
  "apply_reroll_regions p regions latents = for_each (reroll_region p) regions latents"

text \<open>Lines 91-117 together: the initial canvas latent.\<close>

definition init_latents :: "('emb, 'ts, 'st, 'img) pipeline \<Rightarrow> int option \<Rightarrow> int \<Rightarrow> int \<Rightarrow> int \<Rightarrow> int
    \<Rightarrow> int option list list option \<Rightarrow> string list list \<Rightarrow> (int \<times> int \<times> int \<times> int \<times> int) list
    \<Rightarrow> nat \<Rightarrow> nat \<Rightarrow> error + real tensor" where
  "init_latents p seed tile_width tile_height tile_row_overlap tile_col_overlap
       seed_tiles seed_tiles_mode seed_reroll_regions grid_rows grid_cols =
     (case initial_latents p seed tile_width tile_height tile_row_overlap tile_col_overlap grid_rows grid_cols of
        Inl e \<Rightarrow> Inl e
      | Inr latents \<Rightarrow>
          (case apply_seed_tiles p seed_tiles seed_tiles_mode tile_width tile_height tile_row_overlap
                  tile_col_overlap grid_rows grid_cols latents of
             Inl e \<Rightarrow> Inl e
           | Inr seeded \<Rightarrow> apply_reroll_regions p seed_reroll_regions seeded))"

text \<open>
  The latent rectangle of a reroll region on a canvas, as the assignment of line 117 slices
  it, and whether it covers a position.
\<close>

definition latent_rect :: "shape4 \<Rightarrow> int \<times> int \<times> int \<times> int \<times> int \<Rightarrow> (nat \<times> nat) \<times> (nat \<times> nat)" where
  "latent_rect sh region =
     (case sh of (B, C, H, W) \<Rightarrow>
        (case region of (px_row_init, px_row_end, px_col_init, px_col_end, seed_reroll) \<Rightarrow>
           (slice_bounds H (px_row_init div 8) (px_row_end div 8),
            slice_bounds W (px_col_init div 8) (px_col_end div 8))))"

definition covers :: "(nat \<times> nat) \<times> (nat \<times> nat) \<Rightarrow> nat \<Rightarrow> nat \<Rightarrow> bool" where
  "covers rect y x = (fst (fst rect) \<le> y \<and> y < snd (fst rect) \<and> fst (snd rect) \<le> x \<and> x < snd (snd rect))"

text \<open>The noise drawn for a reroll region on a canvas of the given shape.\<close>

definition reroll_draw :: "('emb, 'ts, 'st, 'img) pipeline \<Rightarrow> shape4 \<Rightarrow> int \<times> int \<times> int \<times> int \<times> int \<Rightarrow> real tensor" where
  "reroll_draw p sh region =
     (case region of (px_row_init, px_row_end, px_col_init, px_col_end, seed_reroll) \<Rightarrow>
        draw p seed_reroll (fst sh, fst (snd sh),
                            nat (px_row_end div 8 - px_row_init div 8),
                            nat (px_col_end div 8 - px_col_init div 8)))"

text \<open>
  The region that the directive of a tile is written to (lines 103-107): the inclusive
  region of the tile in the mode \<open>full\<close>, and the exclusive one otherwise.
\<close>

definition seed_region :: "string \<Rightarrow> int \<Rightarrow> int \<Rightarrow> int \<Rightarrow> int \<Rightarrow> nat \<Rightarrow> nat \<Rightarrow> nat \<Rightarrow> nat
    \<Rightarrow> error + int \<times> int \<times> int \<times> int" where
  "seed_region mode tile_width tile_height tile_row_overlap tile_col_overlap grid_rows grid_cols row col =
     (if mode = ''full''
      then Inr (tile2latent_indices (int row) (int col) tile_width tile_height
                  tile_row_overlap tile_col_overlap)
      else tile2latent_exclusive_indices (int row) (int col) tile_width tile_height
             tile_row_overlap tile_col_overlap (int grid_rows) (int grid_cols))"

text \<open>
  Whether the tile (row, col) has a seed and the region its directive is written to, sliced
  on a canvas of the given shape, covers the latent position (y, x).
\<close>

definition directive_covers :: "int option list list \<Rightarrow> string list list \<Rightarrow> int \<Rightarrow> int \<Rightarrow> int \<Rightarrow> int
    \<Rightarrow> nat \<Rightarrow> nat \<Rightarrow> shape4 \<Rightarrow> nat \<Rightarrow> nat \<Rightarrow> nat \<Rightarrow> nat \<Rightarrow> bool" where
  "directive_covers seeds seed_tiles_mode tile_width tile_height tile_row_overlap tile_col_overlap
       grid_rows grid_cols sh row col y x =
     (case seeds ! row ! col of
        None \<Rightarrow> False
      | Some tile_seed \<Rightarrow>
          (case seed_region (seed_tiles_mode ! row ! col) tile_width tile_height tile_row_overlap
                  tile_col_overlap grid_rows grid_cols row col of
             Inl e \<Rightarrow> False
           | Inr (row_init, row_end, col_init, col_end) \<Rightarrow>
               covers (slice_bounds (fst (snd (snd sh))) row_init row_end,
                       slice_bounds (snd (snd (snd sh))) col_init col_end) y x))"

section \<open>Tiled denoising orchestrator (tiling.py, lines 156-224)\<close>

text \<open>
  The guidance scale of a tile (line 204): the entry of the per-tile grid when the grid is
  given and the entry is not \<open>None\<close>, else the scale of the pipeline.
\<close>

definition tile_guidance :: "real \<Rightarrow> real option list list option \<Rightarrow> nat \<Rightarrow> nat \<Rightarrow> error + real" where
  "tile_guidance guidance_scale guidance_scale_tiles row col =
     (case guidance_scale_tiles of
        None \<Rightarrow> Inr guidance_scale
      | Some grid \<Rightarrow>
          (case py_index grid row of
             Inl e \<Rightarrow> Inl e
           | Inr grid_row \<Rightarrow>
               (case py_index grid_row col of
                  Inl e \<Rightarrow> Inl e
                | Inr None \<Rightarrow> Inr guidance_scale
                | Inr (Some g) \<Rightarrow> Inr g)))"

text \<open>Line 205: \<open>noise_pred_uncond + guidance * (noise_pred_text - noise_pred_uncond)\<close>.\<close>

definition combine_guidance :: "real tensor \<Rightarrow> real tensor \<Rightarrow> real \<Rightarrow> error + real tensor" where
  "combine_guidance noise_pred_uncond noise_pred_text guidance =
     (case binop (\<lambda>a b. a - b) noise_pred_text noise_pred_uncond of
        Inl e \<Rightarrow> Inl e
      | Inr difference \<Rightarrow>
          binop (\<lambda>a b. a + b) noise_pred_uncond (scalar_op (\<lambda>v. guidance * v) difference))"

text \<open>Lines 194-198: the input of the denoising network for a tile.\<close>

definition model_input :: "('emb, 'ts, 'st, 'img) pipeline \<Rightarrow> bool \<Rightarrow> nat \<Rightarrow> real tensor \<Rightarrow> real tensor" where
  "model_input p do_classifier_free_guidance i tile_latents =
     (let latent_model_input =
            (if do_classifier_free_guidance then cat_twice tile_latents else tile_latents)
      in if is_lms p
         then scalar_op (\<lambda>v. v / sqrt ((sigmas p i)\<^sup>2 + 1)) latent_model_input
         else latent_model_input)"

text \<open>
  The body of the loop over the tiles of one timestep (lines 191-206). The state is the row
  of predictions so far with the calls made so far; an exception comes with the calls made
  before it. The prediction is appended to the row inside the branch of the guidance, as in
  the source.
\<close>

definition infer_tile :: "('emb, 'ts, 'st, 'img) pipeline \<Rightarrow> real tensor \<Rightarrow> 'emb list list \<Rightarrow> bool \<Rightarrow> real
    \<Rightarrow> real option list list option \<Rightarrow> int \<Rightarrow> int \<Rightarrow> int \<Rightarrow> int \<Rightarrow> nat \<Rightarrow> 'ts \<Rightarrow> nat \<Rightarrow> nat
    \<Rightarrow> real tensor list \<times> event list \<Rightarrow> error \<times> event list + real tensor list \<times> event list" where
  "infer_tile p latents text_embeddings do_classifier_free_guidance guidance_scale guidance_scale_tiles
       tile_width tile_height tile_row_overlap tile_col_overlap i t row col s =
     (case s of (noise_preds_row, calls) \<Rightarrow>
     (case tile2latent_indices (int row) (int col) tile_width tile_height tile_row_overlap tile_col_overlap of
        (px_row_init, px_row_end, px_col_init, px_col_end) \<Rightarrow>
          (let tile_latents = getitem latents px_row_init px_row_end px_col_init px_col_end;
               latent_model_input = model_input p do_classifier_free_guidance i tile_latents
           in case py_index text_embeddings row of
                Inl e \<Rightarrow> Inl (e, calls)
              | Inr embeddings_row \<Rightarrow>
                  (case py_index embeddings_row col of
                     Inl e \<Rightarrow> Inl (e, calls)
                   | Inr embedding \<Rightarrow>
                       (let noise_pred = unet p latent_model_input t embedding;
                            calls' = calls @ [Unet_call i row col]
                        in if do_classifier_free_guidance then
                             (case chunk2 noise_pred of
                                Inl e \<Rightarrow> Inl (e, calls')
                              | Inr (noise_pred_uncond, noise_pred_text) \<Rightarrow>
                                  (case tile_guidance guidance_scale guidance_scale_tiles row col of
                                     Inl e \<Rightarrow> Inl (e, calls')
                                   | Inr guidance \<Rightarrow>
                                       (case combine_guidance noise_pred_uncond noise_pred_text guidance of
                                          Inl e \<Rightarrow> Inl (e, calls')
                                        | Inr noise_pred_tile \<Rightarrow>
                                            Inr (noise_preds_row @ [noise_pred_tile], calls'))))
                           else Inr (noise_preds_row, calls'))))))"

text \<open>Lines 187-207: the predictions of all tiles, row by row.\<close>

definition infer_row :: "('emb, 'ts, 'st, 'img) pipeline \<Rightarrow> real tensor \<Rightarrow> 'emb list list \<Rightarrow> bool \<Rightarrow> real
    \<Rightarrow> real option list list option \<Rightarrow> int \<Rightarrow> int \<Rightarrow> int \<Rightarrow> int \<Rightarrow> nat \<Rightarrow> nat \<Rightarrow> 'ts \<Rightarrow> nat
    \<Rightarrow> real tensor list list \<times> event list \<Rightarrow> error \<times> event list + real tensor list list \<times> event list" where
  "infer_row p latents text_embeddings do_classifier_free_guidance guidance_scale guidance_scale_tiles
       tile_width tile_height tile_row_overlap tile_col_overlap grid_cols i t row s =
     (case s of (noise_preds, calls) \<Rightarrow>
        (case for_each
                (\<lambda>col. infer_tile p latents text_embeddings do_classifier_free_guidance guidance_scale
                          guidance_scale_tiles tile_width tile_height tile_row_overlap tile_col_overlap
                          i t row col)
                [0..<grid_cols] ([], calls) of
           Inl e \<Rightarrow> Inl e
         | Inr (noise_preds_row, calls') \<Rightarrow> Inr (noise_preds @ [noise_preds_row], calls')))"

definition infer_tiles :: "('emb, 'ts, 'st, 'img) pipeline \<Rightarrow> real tensor \<Rightarrow> 'emb list list \<Rightarrow> bool \<Rightarrow> real
    \<Rightarrow> real option list list option \<Rightarrow> int \<Rightarrow> int \<Rightarrow> int \<Rightarrow> int \<Rightarrow> nat \<Rightarrow> nat \<Rightarrow> nat \<Rightarrow> 'ts
    \<Rightarrow> event list \<Rightarrow> error \<times> event list + real tensor list list \<times> event list" where
  "infer_tiles p latents text_embeddings do_classifier_free_guidance guidance_scale guidance_scale_tiles
       tile_width tile_height tile_row_overlap tile_col_overlap grid_rows grid_cols i t calls =
     for_each
       (\<lambda>row. infer_row p latents text_embeddings do_classifier_free_guidance guidance_scale
                 guidance_scale_tiles tile_width tile_height tile_row_overlap tile_col_overlap
                 grid_cols i t row)
       [0..<grid_rows] ([], calls)"

text \<open>
  Lines 209-216: the two accumulators, zeroed, and the contribution of each tile. The state
  is the pair (prediction sum, weight sum).
\<close>

definition stitch_tile :: "real tensor list list \<Rightarrow> real tensor \<Rightarrow> int \<Rightarrow> int \<Rightarrow> int \<Rightarrow> int \<Rightarrow> nat \<Rightarrow> nat
    \<Rightarrow> real tensor \<times> real tensor \<Rightarrow> error + real tensor \<times> real tensor" where
  "stitch_tile noise_preds tile_weights tile_width tile_height tile_row_overlap tile_col_overlap row col s =
     (case s of (noise_pred, contributors) \<Rightarrow>
     (case tile2latent_indices (int row) (int col) tile_width tile_height tile_row_overlap tile_col_overlap of
        (px_row_init, px_row_end, px_col_init, px_col_end) \<Rightarrow>
          (case py_index noise_preds row of
             Inl e \<Rightarrow> Inl e
           | Inr noise_preds_row \<Rightarrow>
               (case py_index noise_preds_row col of
                  Inl e \<Rightarrow> Inl e
                | Inr noise_pred_tile \<Rightarrow>
                    (case binop (\<lambda>a b. a * b) noise_pred_tile tile_weights of
                       Inl e \<Rightarrow> Inl e
                     | Inr weighted \<Rightarrow>
                         (case iadd_region noise_pred px_row_init px_row_end px_col_init px_col_end weighted of
                            Inl e \<Rightarrow> Inl e
                          | Inr noise_pred' \<Rightarrow>
                              (case iadd_region contributors px_row_init px_row_end px_col_init px_col_end
                                      tile_weights of
                                 Inl e \<Rightarrow> Inl e
                               | Inr contributors' \<Rightarrow> Inr (noise_pred', contributors'))))))))"

definition stitch :: "real tensor list list \<Rightarrow> real tensor \<Rightarrow> int \<Rightarrow> int \<Rightarrow> int \<Rightarrow> int \<Rightarrow> nat \<Rightarrow> nat \<Rightarrow> real tensor
    \<Rightarrow> error + real tensor \<times> real tensor" where
  "stitch noise_preds tile_weights tile_width tile_height tile_row_overlap tile_col_overlap
       grid_rows grid_cols latents =
     for_each
       (\<lambda>row. for_each
          (\<lambda>col. stitch_tile noise_preds tile_weights tile_width tile_height tile_row_overlap
                    tile_col_overlap row col)
          [0..<grid_cols])
       [0..<grid_rows] (zeros (shape latents), zeros (shape latents))"

text \<open>
  Line 218, \<open>noise_pred /= contributors\<close>. A division by zero does not raise in torch: it
  leaves an infinity or a NaN, which is \<open>None\<close> here.
\<close>

definition normalize :: "real tensor \<Rightarrow> real tensor \<Rightarrow> real option tensor" where
  "normalize noise_pred contributors =
     \<lparr>shape = shape noise_pred,
      elems = (\<lambda>idx. if elems contributors idx = 0 then None
                      else Some (elems noise_pred idx / elems contributors idx))\<rparr>"

text \<open>
  One timestep (lines 185-224): the state is the scheduler's state, the canvas latent and
  the calls made so far.
\<close>

definition denoise_step :: "('emb, 'ts, 'st, 'img) pipeline \<Rightarrow> 'emb list list \<Rightarrow> bool \<Rightarrow> real
    \<Rightarrow> real option list list option \<Rightarrow> real tensor \<Rightarrow> real \<Rightarrow> int \<Rightarrow> int \<Rightarrow> int \<Rightarrow> int \<Rightarrow> nat \<Rightarrow> nat
    \<Rightarrow> nat \<times> 'ts \<Rightarrow> 'st \<times> real tensor \<times> event list
    \<Rightarrow> error \<times> event list + 'st \<times> real tensor \<times> event list" where
  "denoise_step p text_embeddings do_classifier_free_guidance guidance_scale guidance_scale_tiles
       tile_weights eta tile_width tile_height tile_row_overlap tile_col_overlap grid_rows grid_cols it s =
     (case it of (i, t) \<Rightarrow> (case s of (scheduler_state, latents, calls) \<Rightarrow>
        (case infer_tiles p latents text_embeddings do_classifier_free_guidance guidance_scale
                guidance_scale_tiles tile_width tile_height tile_row_overlap tile_col_overlap
                grid_rows grid_cols i t calls of
           Inl e \<Rightarrow> Inl e
         | Inr (noise_preds, calls') \<Rightarrow>
             (case stitch noise_preds tile_weights tile_width tile_height tile_row_overlap
                     tile_col_overlap grid_rows grid_cols latents of
                Inl e \<Rightarrow> Inl (e, calls')
              | Inr (noise_pred, contributors) \<Rightarrow>
                  (case scheduler_step p scheduler_state (normalize noise_pred contributors)
                          (if is_lms p then Step_index i else Step_time t) latents
                          (if accepts_eta p then Some eta else None) of
                     (scheduler_state', prev_sample) \<Rightarrow> Inr (scheduler_state', prev_sample, calls'))))))"

text \<open>Python's \<open>enumerate\<close>.\<close>

definition enumerate_list :: "'a list \<Rightarrow> (nat \<times> 'a) list" where
  "enumerate_list xs = zip [0..<length xs] xs"

section \<open>Pipeline facade (tiling.py, lines 49-229)\<close>

text \<open>
  \<open>__call__\<close>: validation, the initial canvas latent, the scaling for an
  \<open>LMSDiscreteScheduler\<close>, the text embeddings of the tiles (with the unconditional
  embedding when the guidance scale is greater than 1), the blend mask, the timesteps, and
  the decoding. The result is the decoded images with the calls made to the text encoder
  and the denoising network, or an exception with the calls made before it.
\<close>

definition call :: "('emb, 'ts, 'st, 'img) pipeline \<Rightarrow> string + string list list \<Rightarrow> int \<Rightarrow> real \<Rightarrow> real
    \<Rightarrow> int option \<Rightarrow> int \<Rightarrow> int \<Rightarrow> int \<Rightarrow> int \<Rightarrow> real option list list option
    \<Rightarrow> int option list list option \<Rightarrow> string + string list list
    \<Rightarrow> (int \<times> int \<times> int \<times> int \<times> int) list option \<Rightarrow> bool
    \<Rightarrow> error \<times> event list + 'img list \<times> event list" where
  "call p prompt num_inference_steps guidance_scale eta seed tile_height tile_width
       tile_row_overlap tile_col_overlap guidance_scale_tiles seed_tiles seed_tiles_mode
       seed_reroll_regions cpu_vae =
     (case validate prompt seed_tiles_mode seed_reroll_regions of
        Inl e \<Rightarrow> Inl (e, [])
      | Inr (grid_rows, grid_cols, modes, regions) \<Rightarrow>
          (case init_latents p seed tile_width tile_height tile_row_overlap tile_col_overlap
                  seed_tiles modes regions grid_rows grid_cols of
             Inl e \<Rightarrow> Inl (e, [])
           | Inr noise \<Rightarrow>
               (let scheduler_state = set_timesteps p num_inference_steps;
                    latents = (if is_lms p then scalar_op (\<lambda>v. v * sigmas p 0) noise else noise);
                    rows = (case prompt of Inl text \<Rightarrow> [] | Inr rows \<Rightarrow> rows);
                    conditional = map (map (text_encoder p)) rows;
                    calls = map Text_encoder_call (concat rows);
                    do_classifier_free_guidance = (guidance_scale > 1);
                    text_embeddings =
                      (if do_classifier_free_guidance
                       then map (map (cat_embeddings p (text_encoder p []))) conditional
                       else conditional);
                    calls' =
                      (if do_classifier_free_guidance
                       then calls @ replicate (grid_rows * grid_cols) (Text_encoder_call [])
                       else calls);
                    tile_weights = gaussian_weights (in_channels p) tile_width tile_height batch_size
                in case for_each
                          (denoise_step p text_embeddings do_classifier_free_guidance guidance_scale
                             guidance_scale_tiles tile_weights eta tile_width tile_height
                             tile_row_overlap tile_col_overlap grid_rows grid_cols)
                          (enumerate_list (timesteps p scheduler_state))
                          (scheduler_state, latents, calls') of
                     Inl e \<Rightarrow> Inl e
                   | Inr (scheduler_state', latents', calls'') \<Rightarrow>
                       Inr (decode_latents p latents' cpu_vae, calls''))))"

section \<open>A pipeline to run the model on\<close>

text \<open>
  Collaborators with which the definitions above can be evaluated: one latent channel,
  noise that is the seed at every position, a text encoder that returns the prompt, a
  denoising network that returns its input, a scheduler that is not an
  \<open>LMSDiscreteScheduler\<close>, has the timesteps \<open>n - 1, ..., 0\<close> and keeps the latent, and a
  decoder that returns one image per batch entry.
\<close>

definition demo_pipeline :: "(string, nat, nat, unit) pipeline" where
  "demo_pipeline =
     \<lparr>in_channels = 1,
      randn = (\<lambda>seed sh idx. real_of_int seed),
      text_encoder = (\<lambda>text. text),
      cat_embeddings = (\<lambda>uncond text. uncond @ text),
      unet = (\<lambda>latent_model_input t embedding. latent_model_input),
      is_lms = False,
      sigmas = (\<lambda>i. 1),
      set_timesteps = (\<lambda>n. nat n),
      timesteps = (\<lambda>scheduler_state. rev [0..<scheduler_state]),
      accepts_eta = True,
      scheduler_step = (\<lambda>scheduler_state noise_pred arg latents eta. (scheduler_state, latents)),
      decode_latents = (\<lambda>latents cpu_vae. replicate (batch latents) ())\<rparr>"

text \<open>
  The same collaborators with a denoising network that predicts 0 on the first batch entry
  of its input (the unconditional half under guidance) and 1 on the second (the conditional
  half).
\<close>

definition contrast_pipeline :: "(string, nat, nat, unit) pipeline" where
  "contrast_pipeline =
     demo_pipeline\<lparr>unet := (\<lambda>latent_model_input t embedding.
        \<lparr>shape = shape latent_model_input, elems = (\<lambda>(b, c, y, x). real b)\<rparr>)\<rparr>"

text \<open>
  The scale of a tile as the specification words it: the tile's own entry of the per-tile
  guidance grid when the grid is supplied and the entry is not \<open>None\<close>, and otherwise the
  scale of the pipeline.
\<close>

definition tile_scale :: "real \<Rightarrow> real option list list option \<Rightarrow> nat \<Rightarrow> nat \<Rightarrow> real" where
  "tile_scale guidance_scale guidance_scale_tiles row col =
     (case guidance_scale_tiles of
        None \<Rightarrow> guidance_scale
      | Some grid \<Rightarrow> (case grid ! row ! col of None \<Rightarrow> guidance_scale | Some g \<Rightarrow> g))"

text \<open>The weight sum of a stitched step at a position, and the normalized prediction there.\<close>

definition weight_sum_at :: "error + real tensor \<times> real tensor \<Rightarrow> nat \<times> nat \<times> nat \<times> nat \<Rightarrow> error + real" where
  "weight_sum_at stitched idx =
     (case stitched of Inl e \<Rightarrow> Inl e | Inr (noise_pred, contributors) \<Rightarrow> Inr (elems contributors idx))"

definition normalized_at :: "error + real tensor \<times> real tensor \<Rightarrow> nat \<times> nat \<times> nat \<times> nat \<Rightarrow> error + real option" where
  "normalized_at stitched idx =
     (case stitched of
        Inl e \<Rightarrow> Inl e
      | Inr (noise_pred, contributors) \<Rightarrow> Inr (elems (normalize noise_pred contributors) idx))"

text \<open>
  A reroll region that reaches past the bottom or the right edge of a canvas of \<open>n\<close> latent
  rows (columns) and spans at least two latent rows (columns) there: the slice that line 117
  assigns to is then shorter than the noise drawn for it.
\<close>

definition reaches_past :: "int \<Rightarrow> int \<Rightarrow> int \<Rightarrow> bool" where
  "reaches_past n a b = (0 \<le> a \<and> a + 2 \<le> b \<and> n < b)"

definition past_canvas :: "nat \<times> nat \<times> int \<times> int \<Rightarrow> int \<times> int \<times> int \<times> int \<times> int \<Rightarrow> bool" where
  "past_canvas sh region =
     (case sh of (b, c, h, w) \<Rightarrow>
        (case region of (px_row_init, px_row_end, px_col_init, px_col_end, seed_reroll) \<Rightarrow>
           reaches_past h (px_row_init div 8) (px_row_end div 8)
           \<or> reaches_past w (px_col_init div 8) (px_col_end div 8)))"


section \<open>Properties of the coordinate transform\<close>

text \<open>
  Claim C9. Where the overlap is strictly smaller than the tile size on each axis, the pixel
  start offsets returned by \<open>_tile2pixel_indices\<close> give back the tile indices (dividing by
  the stride of the axis), so the pixel extents determine (row, col) uniquely.
\<close>

theorem tile2pixel_roundtrip:
  assumes "tile_row_overlap < tile_height" and "tile_col_overlap < tile_width"
  shows "(case tile2pixel_indices row col tile_width tile_height tile_row_overlap tile_col_overlap of
           (px_row_init, px_row_end, px_col_init, px_col_end) \<Rightarrow>
             pixel2tile_indices px_row_init px_col_init tile_width tile_height tile_row_overlap tile_col_overlap)
         = (row, col)
       \<and> (tile2pixel_indices row' col' tile_width tile_height tile_row_overlap tile_col_overlap
            = tile2pixel_indices row col tile_width tile_height tile_row_overlap tile_col_overlap
          \<longrightarrow> row' = row \<and> col' = col)"
  using assms by (auto simp: tile2pixel_indices_def pixel2tile_indices_def Let_def)

text \<open>The round trip at the tile (2, 3) of 512-pixel tiles with overlap 256.\<close>

theorem tile2pixel_roundtrip_witness:
  "(256::int) < 512
    \<and> tile2pixel_indices 2 3 512 512 256 256 = (512, 1024, 768, 1280)
    \<and> pixel2tile_indices 512 768 512 512 256 256 = (2, 3)"
proof -
  have h: "(256::int) < 512" by simp
  have e: "tile2pixel_indices 2 3 512 512 256 256 = (512, 1024, 768, 1280)"
    by (simp add: tile2pixel_indices_def)
  from tile2pixel_roundtrip [OF h h, of 2 3 2 3] e h show ?thesis by simp
qed

subsection \<open>Loops and segment subtraction\<close>

lemma for_each_append:
  "for_each f (xs @ ys) s = (case for_each f xs s of Inl e \<Rightarrow> Inl e | Inr s' \<Rightarrow> for_each f ys s')"
  by (induction xs arbitrary: s) (auto split: sum.splits)

lemma for_each_nested:
  "for_each (\<lambda>x. for_each (g x) (h x)) xs s
     = for_each (\<lambda>p. g (fst p) (snd p)) (concat (map (\<lambda>x. map (Pair x) (h x)) xs)) s"
proof (induction xs arbitrary: s)
  case Nil
  show ?case by simp
next
  case (Cons x xs)
  have inner: "for_each (\<lambda>p. g (fst p) (snd p)) (map (Pair x) ys) t = for_each (g x) ys t" for ys t
    by (induction ys arbitrary: t) (auto split: sum.splits)
  show ?case
    by (simp add: for_each_append inner Cons.IH split: sum.splits)
qed

lemma for_each_guard:
  "for_each (\<lambda>x s. if p x then f x s else Inr s) xs s = for_each f (filter p xs) s"
  by (induction xs arbitrary: s) (auto split: sum.splits)

lemma segment_sub_error: "segment_sub a b = Inl e \<Longrightarrow> e = ValueError"
  by (auto simp: segment_sub_def split: if_splits)

lemma subtract_all_error: "subtract_all s xs = Inl e \<Longrightarrow> e = ValueError"
  unfolding subtract_all_def
  by (induction xs arbitrary: s) (auto split: sum.splits dest: segment_sub_error)

lemma subtract_all_Nil: "subtract_all s [] = Inr s"
  by (simp add: subtract_all_def)

lemma subtract_all_Cons:
  "subtract_all s (x # xs) = (case segment_sub s x of Inl e \<Rightarrow> Inl e | Inr s' \<Rightarrow> subtract_all s' xs)"
  unfolding subtract_all_def by simp

lemma subtract_all_append:
  "subtract_all s (xs @ ys) = (case subtract_all s xs of Inl e \<Rightarrow> Inl e | Inr s' \<Rightarrow> subtract_all s' ys)"
  unfolding subtract_all_def by (rule for_each_append)

lemma segment_sub_clear: "clear_of s x \<Longrightarrow> segment_sub s x = Inr s"
  by (simp add: clear_of_def segment_sub_def)

lemma segment_sub_makes_clear: "segment_sub s x = Inr s' \<Longrightarrow> clear_of s' x"
  by (auto simp: clear_of_def segment_sub_def split: if_splits)

lemma segment_sub_keeps_clear: "segment_sub s x = Inr s' \<Longrightarrow> clear_of s y \<Longrightarrow> clear_of s' y"
  by (auto simp: clear_of_def segment_sub_def split: if_splits)

lemma subtract_all_clear: "\<forall>x\<in>set xs. clear_of s x \<Longrightarrow> subtract_all s xs = Inr s"
  by (induction xs) (auto simp: subtract_all_Nil subtract_all_Cons segment_sub_clear)

lemma subtract_all_keeps_clear:
  "subtract_all s xs = Inr s' \<Longrightarrow> clear_of s y \<Longrightarrow> clear_of s' y"
  by (induction xs arbitrary: s)
     (auto simp: subtract_all_Nil subtract_all_Cons split: sum.splits dest: segment_sub_keeps_clear)

lemma subtract_all_makes_clear:
  "subtract_all s xs = Inr s' \<Longrightarrow> x \<in> set xs \<Longrightarrow> clear_of s' x"
proof (induction xs arbitrary: s)
  case Nil
  then show ?case by simp
next
  case (Cons a xs)
  from Cons.prems(1) obtain t where t: "segment_sub s a = Inr t" "subtract_all t xs = Inr s'"
    by (auto simp: subtract_all_Cons split: sum.splits)
  show ?case
  proof (cases "x \<in> set xs")
    case True
    with Cons.IH t show ?thesis by blast
  next
    case False
    with Cons.prems(2) have "x = a" by simp
    with t show ?thesis
      using segment_sub_makes_clear subtract_all_keeps_clear by blast
  qed
qed

lemma subtract_all_absorb:
  assumes "set ys \<subseteq> set xs"
  shows "subtract_all s (xs @ ys) = subtract_all s xs"
proof (cases "subtract_all s xs")
  case (Inl e)
  then show ?thesis by (simp add: subtract_all_append)
next
  case (Inr s')
  with assms have "\<forall>y\<in>set ys. clear_of s' y"
    using subtract_all_makes_clear by blast
  then show ?thesis
    by (simp add: subtract_all_append Inr subtract_all_clear)
qed

lemma subtract_all_replicate:
  "subtract_all s (replicate n x @ rest)
     = (if n = 0 then subtract_all s rest
        else (case segment_sub s x of Inl e \<Rightarrow> Inl e | Inr s' \<Rightarrow> subtract_all s' rest))"
proof (cases n)
  case 0
  then show ?thesis by simp
next
  case (Suc m)
  have "subtract_all s (replicate (Suc m) x @ rest) = subtract_all s ([x] @ replicate m x @ rest)"
    by simp
  also have "\<dots> = subtract_all s (([x] @ replicate m x) @ rest)"
    by simp
  also have "\<dots> = (case subtract_all s ([x] @ replicate m x) of Inl e \<Rightarrow> Inl e | Inr s' \<Rightarrow> subtract_all s' rest)"
    by (rule subtract_all_append)
  also have "subtract_all s ([x] @ replicate m x) = subtract_all s [x]"
    by (rule subtract_all_absorb) auto
  finally show ?thesis
    using Suc by (simp add: subtract_all_Cons subtract_all_Nil split: sum.splits)
qed

lemma subtract_all_repeats:
  assumes "\<forall>x\<in>set xs. (n x = 0) = (m x = 0)"
  shows "subtract_all s (concat (map (\<lambda>x. replicate (n x) (f x)) xs))
       = subtract_all s (concat (map (\<lambda>x. replicate (m x) (f x)) xs))"
  using assms
proof (induction xs arbitrary: s)
  case Nil
  show ?case by simp
next
  case (Cons x xs)
  then show ?case
    by (auto simp: subtract_all_replicate split: sum.splits)
qed

lemma subtract_all_blocks:
  "subtract_all s (concat (map (\<lambda>x. if p x then block else []) xs))
     = (if \<exists>x\<in>set xs. p x then subtract_all s block else Inr s)"
proof (induction xs)
  case Nil
  show ?case by (simp add: subtract_all_Nil)
next
  case (Cons x xs)
  show ?case
  proof (cases "p x")
    case True
    have "set (concat (map (\<lambda>x. if p x then block else []) xs)) \<subseteq> set block"
      by auto
    with True show ?thesis
      by (simp add: subtract_all_absorb)
  next
    case False
    with Cons.IH show ?thesis by simp
  qed
qed


lemma for_each_axes:
  "(case for_each
           (\<lambda>p s. case segment_sub (fst s) (f p) of
                     Inl e \<Rightarrow> Inl e
                   | Inr a \<Rightarrow> (case segment_sub (snd s) (g p) of Inl e \<Rightarrow> Inl e | Inr b \<Rightarrow> Inr (a, b)))
           ps (a0, b0) of
      Inl e \<Rightarrow> Inl e
    | Inr (a, b) \<Rightarrow> Inr (fst a, snd a, fst b, snd b))
   = join_axes (subtract_all a0 (map f ps)) (subtract_all b0 (map g ps))"
proof (induction ps arbitrary: a0 b0)
  case Nil
  show ?case by (simp add: join_axes_def subtract_all_Nil)
next
  case (Cons p ps)
  show ?case
  proof (cases "segment_sub a0 (f p)")
    case (Inl e)
    then show ?thesis by (simp add: join_axes_def subtract_all_Cons)
  next
    case a: (Inr a)
    show ?thesis
    proof (cases "segment_sub b0 (g p)")
      case (Inl e)
      then have e: "e = ValueError" by (rule segment_sub_error)
      show ?thesis
      proof (cases "subtract_all a (map f ps)")
        case (Inl e')
        then have "e' = ValueError" by (rule subtract_all_error)
        with Inl a \<open>segment_sub b0 (g p) = Inl e\<close> e show ?thesis
          by (simp add: join_axes_def subtract_all_Cons)
      next
        case (Inr a')
        with a \<open>segment_sub b0 (g p) = Inl e\<close> show ?thesis
          by (simp add: join_axes_def subtract_all_Cons)
      qed
    next
      case (Inr b)
      with a Cons.IH [of a b] show ?thesis
        by (simp add: subtract_all_Cons)
    qed
  qed
qed

lemma row_segment_of_column:
  "row_segment_of r c tw th ro co = row_segment_of r 0 tw th ro co"
  by (simp add: row_segment_of_def tile2latent_indices_def tile2pixel_indices_def
      pixel2latent_indices_def Let_def)

lemma col_segment_of_row:
  "col_segment_of r c tw th ro co = col_segment_of 0 c tw th ro co"
  by (simp add: col_segment_of_def tile2latent_indices_def tile2pixel_indices_def
      pixel2latent_indices_def Let_def)

lemma concat_guard_const:
  "concat (map (\<lambda>c. if q c then [v] else []) cs) = replicate (length (filter q cs)) v"
  by (induction cs) auto

lemma filter_pairs:
  "filter (\<lambda>p. a (fst p) \<and> b (snd p)) (concat (map (\<lambda>x. map (Pair x) cs) rs))
     = concat (map (\<lambda>x. if a x then map (Pair x) (filter b cs) else []) rs)"
  by (induction rs) (auto simp: filter_map comp_def)

lemma clip_segments_alt:
  "clip_segments tr tc tw th ro co row column =
     (\<lambda>s. if row \<noteq> tr \<and> column \<noteq> tc then
        (case segment_sub (fst s) (row_segment_of row column tw th ro co) of
           Inl e \<Rightarrow> Inl e
         | Inr a \<Rightarrow> (case segment_sub (snd s) (col_segment_of row column tw th ro co) of
                      Inl e \<Rightarrow> Inl e | Inr b \<Rightarrow> Inr (a, b)))
      else Inr s)"
  unfolding clip_segments_def row_segment_of_def col_segment_of_def
  by (rule ext) (auto split: prod.splits sum.splits)

lemma map_concat_guard:
  "map f (concat (map (\<lambda>x. if a x then h x else []) rs))
     = concat (map (\<lambda>x. if a x then map f (h x) else []) rs)"
  by (induction rs) auto

lemma exclusive_as_axes:
  "tile2latent_exclusive_indices tr tc tw th ro co rows columns =
     join_axes
       (subtract_all (row_segment_of tr tc tw th ro co)
          (concat (map (\<lambda>r. if r \<noteq> tr
                             then replicate (length (filter (\<lambda>c. c \<noteq> tc) (py_range columns))) (row_segment_of r 0 tw th ro co)
                             else []) (py_range rows))))
       (subtract_all (col_segment_of tr tc tw th ro co)
          (concat (map (\<lambda>r. if r \<noteq> tr
                             then map (\<lambda>c. col_segment_of 0 c tw th ro co) (filter (\<lambda>c. c \<noteq> tc) (py_range columns))
                             else []) (py_range rows))))"
proof -
  define ps where "ps = filter (\<lambda>p. fst p \<noteq> tr \<and> snd p \<noteq> tc)
      (concat (map (\<lambda>x. map (Pair x) (py_range columns)) (py_range rows)))"
  define f where "f = (\<lambda>p :: int \<times> int. row_segment_of (fst p) (snd p) tw th ro co)"
  define g where "g = (\<lambda>p :: int \<times> int. col_segment_of (fst p) (snd p) tw th ro co)"
  have loops: "for_each (\<lambda>row. for_each (\<lambda>column. clip_segments tr tc tw th ro co row column) (py_range columns))
                 (py_range rows) s
             = for_each (\<lambda>p s. case segment_sub (fst s) (f p) of
                          Inl e \<Rightarrow> Inl e
                        | Inr a \<Rightarrow> (case segment_sub (snd s) (g p) of Inl e \<Rightarrow> Inl e | Inr b \<Rightarrow> Inr (a, b)))
                 ps s" for s
    unfolding ps_def f_def g_def
    apply (subst for_each_nested)
    apply (subst for_each_guard [symmetric])
    apply (subst clip_segments_alt)
    apply (rule refl)
    done
  have ps: "ps = concat (map (\<lambda>x. if x \<noteq> tr then map (Pair x) (filter (\<lambda>c. c \<noteq> tc) (py_range columns)) else [])
                 (py_range rows))"
    unfolding ps_def by (rule filter_pairs)
  have mf: "map f ps = concat (map (\<lambda>r. if r \<noteq> tr
                             then replicate (length (filter (\<lambda>c. c \<noteq> tc) (py_range columns))) (row_segment_of r 0 tw th ro co)
                             else []) (py_range rows))"
  proof -
    have "f (x, c) = row_segment_of x 0 tw th ro co" for x c
      unfolding f_def fst_conv snd_conv by (rule row_segment_of_column)
    then have "map f (map (Pair x) cs) = replicate (length cs) (row_segment_of x 0 tw th ro co)" for x cs
      by (induction cs) simp_all
    then show ?thesis
      unfolding ps map_concat_guard by (simp only:)
  qed
  have mg: "map g ps = concat (map (\<lambda>r. if r \<noteq> tr
                             then map (\<lambda>c. col_segment_of 0 c tw th ro co) (filter (\<lambda>c. c \<noteq> tc) (py_range columns))
                             else []) (py_range rows))"
  proof -
    have "g (x, c) = col_segment_of 0 c tw th ro co" for x c
      unfolding g_def fst_conv snd_conv by (rule col_segment_of_row)
    then have "map g (map (Pair x) cs) = map (\<lambda>c. col_segment_of 0 c tw th ro co) cs" for x cs
      by (induction cs) simp_all
    then show ?thesis
      unfolding ps map_concat_guard by (simp only:)
  qed
  obtain ri re ci ce where q: "tile2latent_indices tr tc tw th ro co = (ri, re, ci, ce)"
    by (cases "tile2latent_indices tr tc tw th ro co") auto
  then have start: "segment ri re = row_segment_of tr tc tw th ro co"
      "segment ci ce = col_segment_of tr tc tw th ro co"
    by (simp_all add: row_segment_of_def col_segment_of_def)
  have "tile2latent_exclusive_indices tr tc tw th ro co rows columns =
      (case for_each (\<lambda>p s. case segment_sub (fst s) (f p) of
                          Inl e \<Rightarrow> Inl e
                        | Inr a \<Rightarrow> (case segment_sub (snd s) (g p) of Inl e \<Rightarrow> Inl e | Inr b \<Rightarrow> Inr (a, b)))
                 ps (row_segment_of tr tc tw th ro co, col_segment_of tr tc tw th ro co) of
         Inl e \<Rightarrow> Inl e
       | Inr (a, b) \<Rightarrow> Inr (fst a, snd a, fst b, snd b))"
    unfolding tile2latent_exclusive_indices_def loops q by (simp add: start)
  also have "\<dots> = join_axes (subtract_all (row_segment_of tr tc tw th ro co) (map f ps))
                            (subtract_all (col_segment_of tr tc tw th ro co) (map g ps))"
    by (rule for_each_axes)
  finally show ?thesis
    unfolding mf mg .
qed


lemma py_range_two:
  assumes "2 \<le> n"
  shows "\<exists>x\<in>set (py_range n). x \<noteq> t"
proof -
  from assms have m: "0 \<in> set (py_range n)" "1 \<in> set (py_range n)"
    by (auto simp: py_range_def image_iff intro: bexI [of _ 0] bexI [of _ 1])
  show ?thesis
  proof (cases "t = 0")
    case True
    with m(2) show ?thesis by (intro bexI [of _ 1]) simp_all
  next
    case False
    with m(1) show ?thesis by (intro bexI [of _ 0]) simp_all
  qed
qed

lemma comprehension_rows:
  "[row_segment_of r c tw th ro co. r \<leftarrow> rs, c \<leftarrow> cs, r \<noteq> tr]
     = concat (map (\<lambda>r. replicate (if r \<noteq> tr then length cs else 0) (row_segment_of r 0 tw th ro co)) rs)"
proof -
  have "concat (map (\<lambda>c. if r \<noteq> tr then [row_segment_of r c tw th ro co] else []) cs)
      = replicate (if r \<noteq> tr then length cs else 0) (row_segment_of r 0 tw th ro co)" for r
  proof (induction cs)
    case Nil
    show ?case by simp
  next
    case (Cons a cs)
    have "row_segment_of r a tw th ro co = row_segment_of r 0 tw th ro co"
      by (rule row_segment_of_column)
    with Cons show ?case by simp
  qed
  then show ?thesis by simp
qed

lemma comprehension_columns:
  "[col_segment_of r c tw th ro co. r \<leftarrow> rs, c \<leftarrow> cs, c \<noteq> tc]
     = concat (map (\<lambda>r. if True then map (\<lambda>c. col_segment_of 0 c tw th ro co) (filter (\<lambda>c. c \<noteq> tc) cs) else []) rs)"
proof -
  have "concat (map (\<lambda>c. if c \<noteq> tc then [col_segment_of r c tw th ro co] else []) cs)
      = map (\<lambda>c. col_segment_of 0 c tw th ro co) (filter (\<lambda>c. c \<noteq> tc) cs)" for r
  proof (induction cs)
    case Nil
    show ?case by simp
  next
    case (Cons a cs)
    have "col_segment_of r a tw th ro co = col_segment_of 0 a tw th ro co"
      by (rule col_segment_of_row)
    with Cons show ?case by simp
  qed
  then show ?thesis by simp
qed

text \<open>
  Claim C1, as the code has it. For every tile of a grid with at least two rows and at least
  two columns, the exclusive latent region that \<open>_tile2latent_exclusive_indices\<close> returns
  is the tile's inclusive latent region with the row interval clipped by the row interval of
  every tile in another grid row, and the column interval clipped by the column interval of
  every tile in another grid column, in row-major order; it is \<open>ValueError\<close> exactly when
  one of these subtractions does not leave a single segment. A tile of the same grid row is
  never subtracted from the row interval, nor a tile of the same grid column from the column
  interval.
\<close>

theorem exclusive_region_other_rows_columns:
  assumes "2 \<le> rows" and "2 \<le> columns"
  shows "tile2latent_exclusive_indices tile_row tile_col tile_width tile_height tile_row_overlap tile_col_overlap rows columns
       = exclusive_other_rows_columns tile_row tile_col tile_width tile_height tile_row_overlap tile_col_overlap rows columns"
proof -
  let ?k = "length (filter (\<lambda>c. c \<noteq> tile_col) (py_range columns))"
  let ?rho = "\<lambda>r. row_segment_of r 0 tile_width tile_height tile_row_overlap tile_col_overlap"
  let ?block = "map (\<lambda>c. col_segment_of 0 c tile_width tile_height tile_row_overlap tile_col_overlap)
                  (filter (\<lambda>c. c \<noteq> tile_col) (py_range columns))"
  from assms(2) have k: "?k \<noteq> 0"
    using py_range_two [of columns tile_col] by (auto simp: filter_empty_conv)
  from assms(2) have len: "length (py_range columns) \<noteq> 0"
    by (simp add: py_range_def)
  have guard: "(\<lambda>r. if r \<noteq> tile_row then replicate ?k (?rho r) else [])
      = (\<lambda>r. replicate (if r \<noteq> tile_row then ?k else 0) (?rho r))"
    by (rule ext) simp
  have rows_eq: "subtract_all s (concat (map (\<lambda>r. if r \<noteq> tile_row then replicate ?k (?rho r) else []) (py_range rows)))
      = subtract_all s [row_segment_of r c tile_width tile_height tile_row_overlap tile_col_overlap.
             r \<leftarrow> py_range rows, c \<leftarrow> py_range columns, r \<noteq> tile_row]" for s
    unfolding comprehension_rows guard
    by (rule subtract_all_repeats) (use k len in simp)
  have cols_eq: "subtract_all s (concat (map (\<lambda>r. if r \<noteq> tile_row then ?block else []) (py_range rows)))
      = subtract_all s [col_segment_of r c tile_width tile_height tile_row_overlap tile_col_overlap.
             r \<leftarrow> py_range rows, c \<leftarrow> py_range columns, c \<noteq> tile_col]" for s
    unfolding comprehension_columns subtract_all_blocks
    using py_range_two [OF assms(1), of tile_row] by auto
  show ?thesis
    unfolding exclusive_as_axes exclusive_other_rows_columns_def rows_eq cols_eq ..
qed

text \<open>The theorem at the tile (0, 0) of a 2 x 2 grid of 512-pixel tiles with overlap 256.\<close>

theorem exclusive_region_other_rows_columns_witness:
  "(2::int) \<le> 2 \<and> tile2latent_exclusive_indices 0 0 512 512 256 256 2 2 = Inr (0, 32, 0, 32)
    \<and> exclusive_other_rows_columns 0 0 512 512 256 256 2 2 = Inr (0, 32, 0, 32)"
proof -
  have h: "(2::int) \<le> 2" by simp
  have e: "exclusive_other_rows_columns 0 0 512 512 256 256 2 2 = Inr (0, 32, 0, 32)"
    by code_simp
  from exclusive_region_other_rows_columns [OF h h, of 0 0 512 512 256 256] e h
  show ?thesis by simp
qed

text \<open>
  Subtracting every other tile from both axes, as claim C1 words it, is not what the code
  computes: for the tile (0, 0) of the same 2 x 2 grid the code returns the region
  (0, 32, 0, 32), while subtracting the tile (0, 1), whose row interval is the tile's own,
  from the row interval leaves no segment.
\<close>

theorem exclusive_every_other_tile_counterexample:
  "tile2latent_exclusive_indices 0 0 512 512 256 256 2 2 = Inr (0, 32, 0, 32)
    \<and> exclusive_every_other_tile 0 0 512 512 256 256 2 2 = Inl ValueError"
  by code_simp

section \<open>Properties of the blend weights\<close>

lemma py_range_nth: "i < nat n \<Longrightarrow> py_range n ! i = int i"
  by (simp add: py_range_def)

lemma length_py_range: "length (py_range n) = nat n"
  by (simp add: py_range_def)

lemma length_x_probs: "length (x_probs tw) = nat (tw div 8)"
  by (simp add: x_probs_def Let_def length_py_range)

lemma length_y_probs: "length (y_probs th) = nat (th div 8)"
  by (simp add: y_probs_def Let_def length_py_range)

lemma x_probs_pos: "x < nat (tw div 8) \<Longrightarrow> 0 < x_probs tw ! x"
  by (simp add: x_probs_def Let_def length_py_range var_def)

lemma y_probs_pos: "y < nat (th div 8) \<Longrightarrow> 0 < y_probs th ! y"
  by (simp add: y_probs_def Let_def length_py_range var_def)

lemma weights_nth:
  "y < nat (th div 8) \<Longrightarrow> x < nat (tw div 8) \<Longrightarrow> weights tw th ! y ! x = y_probs th ! y * x_probs tw ! x"
  by (simp add: weights_def outer_def length_x_probs length_y_probs)

lemma weights_pos:
  "y < nat (th div 8) \<Longrightarrow> x < nat (tw div 8) \<Longrightarrow> 0 < weights tw th ! y ! x"
  by (simp add: weights_nth x_probs_pos y_probs_pos)

text \<open>
  Claim C4 asks for a mask that is symmetric under reflection along both axes. At the default
  tile size (512 x 512 pixels, a 64 x 64 mask) the first and the last row of the mask differ:
  the vertical profile is centred at \<open>latent_height / 2\<close>, not at \<open>(latent_height - 1) / 2\<close>.
  The first and the last column agree.
\<close>

theorem gaussian_weights_rows_differ:
  "elems (gaussian_weights channels 512 512 1) (0, 0, 0, 0)
     \<noteq> elems (gaussian_weights channels 512 512 1) (0, 0, 63, 0)
   \<and> elems (gaussian_weights channels 512 512 1) (0, 0, 0, 0)
     = elems (gaussian_weights channels 512 512 1) (0, 0, 0, 63)"
proof -
  have x0: "x_probs 512 ! 0 = exp (- (0 - 63 / 2) * (0 - 63 / 2) / (64 * 64) / (2 * var)) / sqrt (2 * pi * var)"
    by (simp add: x_probs_def Let_def py_range_nth length_py_range)
  have x63: "x_probs 512 ! 63 = exp (- (63 - 63 / 2) * (63 - 63 / 2) / (64 * 64) / (2 * var)) / sqrt (2 * pi * var)"
    by (simp add: x_probs_def Let_def py_range_nth length_py_range)
  have y0: "y_probs 512 ! 0 = exp (- (0 - 64 / 2) * (0 - 64 / 2) / (64 * 64) / (2 * var)) / sqrt (2 * pi * var)"
    by (simp add: y_probs_def Let_def py_range_nth length_py_range)
  have y63: "y_probs 512 ! 63 = exp (- (63 - 64 / 2) * (63 - 64 / 2) / (64 * 64) / (2 * var)) / sqrt (2 * pi * var)"
    by (simp add: y_probs_def Let_def py_range_nth length_py_range)
  have xs: "x_probs 512 ! 0 = x_probs 512 ! 63"
    unfolding x0 x63 by simp
  have ys: "y_probs 512 ! 0 \<noteq> y_probs 512 ! 63"
    unfolding y0 y63 by (simp add: var_def)
  have xp: "0 < x_probs 512 ! 0"
    by (rule x_probs_pos) simp
  have w00: "weights 512 512 ! 0 ! 0 = y_probs 512 ! 0 * x_probs 512 ! 0"
    by (rule weights_nth) simp_all
  have w630: "weights 512 512 ! 63 ! 0 = y_probs 512 ! 63 * x_probs 512 ! 0"
    by (rule weights_nth) simp_all
  have w063: "weights 512 512 ! 0 ! 63 = y_probs 512 ! 0 * x_probs 512 ! 63"
    by (rule weights_nth) simp_all
  show ?thesis
    using xs ys xp by (simp add: gaussian_weights_def w00 w630 w063)
qed

section \<open>Properties of the seed and noise initializer\<close>

lemma bidx_less: "i < d \<Longrightarrow> bidx d i = i"
  by (auto simp: bidx_def)

lemma bread_in_shape: "in_shape (shape t) idx \<Longrightarrow> bread t idx = elems t idx"
  by (auto simp: in_shape_def bread_def bidx_less split: prod.splits)

lemma update_region_shape: "update_region f t r0 r1 c0 c1 v = Inr t' \<Longrightarrow> shape t' = shape t"
  by (auto simp: update_region_def split: prod.splits if_splits)

lemma update_region_elems:
  assumes "update_region f t r0 r1 c0 c1 v = Inr t'" and "shape t = (B, C, H, W)"
  shows "elems t' (b, c, y, x) =
     (if covers (slice_bounds H r0 r1, slice_bounds W c0 c1) y x
      then f (elems t (b, c, y, x)) (bread v (b, c, y - fst (slice_bounds H r0 r1), x - fst (slice_bounds W c0 c1)))
      else elems t (b, c, y, x))"
  using assms by (auto simp: update_region_def covers_def split: prod.splits if_splits)

lemma manual_seed_valid: "valid_seed s \<Longrightarrow> manual_seed (Some s) = Inr s"
  by (simp add: manual_seed_def)

lemma manual_seed_Inr: "manual_seed seed = Inr g \<Longrightarrow> seed = Some g"
  by (auto simp: manual_seed_def split: option.splits if_splits)

lemma reseed_region_update:
  assumes "reseed_region p t r0 r1 c0 c1 s = Inr t'"
  shows "update_region (\<lambda>old new. new) t r0 r1 c0 c1
           (draw p s (fst (shape t), fst (snd (shape t)), nat (r1 - r0), nat (c1 - c0))) = Inr t'"
proof -
  from assms obtain g where g: "manual_seed (Some s) = Inr g"
    by (auto simp: reseed_region_def split: sum.splits)
  then have "g = s" by (auto dest: manual_seed_Inr)
  with assms g show ?thesis
    by (auto simp: reseed_region_def setitem_def split: if_splits)
qed

lemma reseed_region_shape: "reseed_region p t r0 r1 c0 c1 s = Inr t' \<Longrightarrow> shape t' = shape t"
  by (rule update_region_shape [OF reseed_region_update])

lemma reseed_region_elems:
  assumes "reseed_region p t r0 r1 c0 c1 s = Inr t'" and "shape t = (B, C, H, W)"
  shows "elems t' (b, c, y, x) =
     (if covers (slice_bounds H r0 r1, slice_bounds W c0 c1) y x
      then bread (draw p s (B, C, nat (r1 - r0), nat (c1 - c0)))
             (b, c, y - fst (slice_bounds H r0 r1), x - fst (slice_bounds W c0 c1))
      else elems t (b, c, y, x))"
  using update_region_elems [OF reseed_region_update [OF assms(1)] assms(2), of b c y x]
  by (simp add: assms(2))

lemma slice_bounds_inside:
  "0 \<le> a \<Longrightarrow> a \<le> b \<Longrightarrow> b \<le> int n \<Longrightarrow> slice_bounds n a b = (nat a, nat b)"
  by (auto simp: slice_bounds_def slice_bound_def)

lemma reseed_region_inside:
  assumes "shape t = (B, C, H, W)" and "valid_seed s"
    and "0 \<le> r0" "r0 \<le> r1" "r1 \<le> int H" "0 \<le> c0" "c0 \<le> c1" "c1 \<le> int W"
  shows "\<exists>t'. reseed_region p t r0 r1 c0 c1 s = Inr t'"
proof -
  have "expands_to (B, C, nat (r1 - r0), nat (c1 - c0)) (B, C, nat r1 - nat r0, nat c1 - nat c0)"
    using assms by (simp add: expands_to_def nat_diff_distrib)
  then show ?thesis
    using assms
    by (simp add: reseed_region_def manual_seed_valid setitem_def draw_def update_region_def
        slice_bounds_inside)
qed

lemma upt_one_two: "[0..<1] = [0]" "[0..<2] = [0, 1]"
  by (simp_all add: upt_rec)

lemma for_each_invariant:
  assumes "for_each body xs s = Inr s'" and "I s"
    and "\<And>x s t. x \<in> set xs \<Longrightarrow> I s \<Longrightarrow> body x s = Inr t \<Longrightarrow> I t"
  shows "I s'"
  using assms
proof (induction xs arbitrary: s)
  case Nil
  then show ?case by simp
next
  case (Cons x xs)
  from Cons.prems(1) obtain t where t: "body x s = Inr t" "for_each body xs t = Inr s'"
    by (auto split: sum.splits)
  have "I t" using Cons.prems(3) [of x s t] Cons.prems(2) t(1) by simp
  moreover have "\<And>y s t. y \<in> set xs \<Longrightarrow> I s \<Longrightarrow> body y s = Inr t \<Longrightarrow> I t"
    using Cons.prems(3) by (meson list.set_intros(2))
  ultimately show ?case
    using Cons.IH [OF t(2)] by blast
qed

text \<open>The tiles of a grid in the order of the double loop: row by row, each row by columns.\<close>

lemma upt_split: "i < n \<Longrightarrow> [0..<n] = [0..<i] @ i # [Suc i..<n]"
proof -
  assume "i < n"
  then have "[0..<n] = [0..<i + (n - i)]" by simp
  also have "\<dots> = [0..<i] @ [i..<i + (n - i)]"
    by (rule upt_add_eq_append) simp
  also have "[i..<i + (n - i)] = i # [Suc i..<n]"
    using \<open>i < n\<close> by (simp add: upt_conv_Cons)
  finally show ?thesis .
qed

lemma row_major_split:
  assumes "row < grid_rows" and "col < grid_cols"
  shows "\<exists>before after.
      concat (map (\<lambda>r. map (Pair r) [0..<grid_cols]) [0..<grid_rows]) = before @ (row, col) # after
    \<and> (\<forall>q\<in>set after. fst q < grid_rows \<and> snd q < grid_cols
          \<and> (row < fst q \<or> (fst q = row \<and> col < snd q)))"
proof -
  let ?f = "\<lambda>r. map (Pair r) [0..<grid_cols]"
  let ?before = "concat (map ?f [0..<row]) @ map (Pair row) [0..<col]"
  let ?after = "map (Pair row) [Suc col..<grid_cols] @ concat (map ?f [Suc row..<grid_rows])"
  have "concat (map ?f [0..<grid_rows]) = concat (map ?f ([0..<row] @ row # [Suc row..<grid_rows]))"
    using upt_split [OF assms(1)] by simp
  also have "\<dots> = concat (map ?f [0..<row]) @ ?f row @ concat (map ?f [Suc row..<grid_rows])"
    by simp
  also have "?f row = map (Pair row) [0..<col] @ (row, col) # map (Pair row) [Suc col..<grid_cols]"
    by (subst upt_split [OF assms(2)]) simp
  finally have "concat (map ?f [0..<grid_rows]) = ?before @ (row, col) # ?after"
    by simp
  moreover have "\<forall>q\<in>set ?after. fst q < grid_rows \<and> snd q < grid_cols
          \<and> (row < fst q \<or> (fst q = row \<and> col < snd q))"
    using assms by auto
  ultimately show ?thesis by blast
qed


lemma seed_tile_cases:
  assumes "seed_tile p seeds modes tw th ro co grid_rows grid_cols row col t = Inr t'"
  shows "(seeds ! row ! col = None \<and> t' = t)
       \<or> (\<exists>s r0 r1 c0 c1. seeds ! row ! col = Some s
            \<and> seed_region (modes ! row ! col) tw th ro co grid_rows grid_cols row col = Inr (r0, r1, c0, c1)
            \<and> reseed_region p t r0 r1 c0 c1 s = Inr t')"
  using assms unfolding seed_tile_def seed_region_def py_index_def
  by (auto split: sum.splits option.splits if_splits prod.splits)

lemma seed_tile_shape:
  "seed_tile p seeds modes tw th ro co grid_rows grid_cols row col t = Inr t'
     \<Longrightarrow> shape t' = shape t"
  by (auto dest!: seed_tile_cases dest: reseed_region_shape)

lemma seed_tile_elsewhere:
  assumes "seed_tile p seeds modes tw th ro co grid_rows grid_cols row col t = Inr t'"
    and "\<not> directive_covers seeds modes tw th ro co grid_rows grid_cols (shape t) row col y x"
  shows "elems t' (b, c, y, x) = elems t (b, c, y, x)"
proof -
  obtain B C H W where sh: "shape t = (B, C, H, W)"
    by (cases "shape t") auto
  from seed_tile_cases [OF assms(1)] show ?thesis
  proof
    assume "seeds ! row ! col = None \<and> t' = t"
    then show ?thesis by simp
  next
    assume "\<exists>s r0 r1 c0 c1. seeds ! row ! col = Some s
            \<and> seed_region (modes ! row ! col) tw th ro co grid_rows grid_cols row col = Inr (r0, r1, c0, c1)
            \<and> reseed_region p t r0 r1 c0 c1 s = Inr t'"
    then obtain s r0 r1 c0 c1 where
      s: "seeds ! row ! col = Some s"
      and r: "seed_region (modes ! row ! col) tw th ro co grid_rows grid_cols row col = Inr (r0, r1, c0, c1)"
      and w: "reseed_region p t r0 r1 c0 c1 s = Inr t'"
      by blast
    from assms(2) have "\<not> covers (slice_bounds H r0 r1, slice_bounds W c0 c1) y x"
      by (simp add: directive_covers_def s r sh)
    with reseed_region_elems [OF w sh, of b c y x] show ?thesis
      by simp
  qed
qed

lemma seed_tile_here:
  assumes "seed_tile p seeds modes tw th ro co grid_rows grid_cols row col t = Inr t'"
    and "seeds ! row ! col = Some s"
    and "seed_region (modes ! row ! col) tw th ro co grid_rows grid_cols row col = Inr (r0, r1, c0, c1)"
    and "shape t = (B, C, H, W)"
    and "covers (slice_bounds H r0 r1, slice_bounds W c0 c1) y x"
  shows "elems t' (b, c, y, x)
       = bread (draw p s (B, C, nat (r1 - r0), nat (c1 - c0)))
           (b, c, y - fst (slice_bounds H r0 r1), x - fst (slice_bounds W c0 c1))"
proof -
  from seed_tile_cases [OF assms(1)] assms(2,3)
  have "reseed_region p t r0 r1 c0 c1 s = Inr t'"
    by auto
  from reseed_region_elems [OF this assms(4), of b c y x] assms(5) show ?thesis
    by simp
qed

lemma seed_tiles_last_write:
  assumes run: "apply_seed_tiles p (Some seeds) modes tw th ro co grid_rows grid_cols latents0 = Inr latents"
    and tile: "row < grid_rows" "col < grid_cols"
    and seed: "seeds ! row ! col = Some s"
    and region: "seed_region (modes ! row ! col) tw th ro co grid_rows grid_cols row col = Inr (r0, r1, c0, c1)"
    and sh: "shape latents0 = (B, C, H, W)"
    and cov: "covers (slice_bounds H r0 r1, slice_bounds W c0 c1) y x"
    and later: "\<forall>r k. r < grid_rows \<and> k < grid_cols \<and> (row < r \<or> (r = row \<and> col < k))
        \<longrightarrow> \<not> directive_covers seeds modes tw th ro co grid_rows grid_cols (B, C, H, W) r k y x"
  shows "elems latents (b, c, y, x)
       = bread (draw p s (B, C, nat (r1 - r0), nat (c1 - c0)))
           (b, c, y - fst (slice_bounds H r0 r1), x - fst (slice_bounds W c0 c1))"
proof -
  define body where "body = (\<lambda>q. seed_tile p seeds modes tw th ro co grid_rows grid_cols (fst q) (snd q))"
  from row_major_split [OF tile] obtain before after where
    split: "concat (map (\<lambda>r. map (Pair r) [0..<grid_cols]) [0..<grid_rows]) = before @ (row, col) # after"
    and after: "\<forall>q\<in>set after. fst q < grid_rows \<and> snd q < grid_cols
          \<and> (row < fst q \<or> (fst q = row \<and> col < snd q))"
    by blast
  from run have "for_each body (before @ (row, col) # after) latents0 = Inr latents"
    unfolding apply_seed_tiles_def option.case body_def split [symmetric]
    by (subst (asm) for_each_nested) simp
  then obtain t1 t2 where
    t1: "for_each body before latents0 = Inr t1"
    and t2: "body (row, col) t1 = Inr t2"
    and t3: "for_each body after t2 = Inr latents"
    by (auto simp: for_each_append split: sum.splits)
  have keep: "shape t' = shape t" if "body q t = Inr t'" for q t t'
    using that unfolding body_def by (rule seed_tile_shape)
  have sh1: "shape t1 = (B, C, H, W)"
    using for_each_invariant [where I = "\<lambda>t. shape t = (B, C, H, W)", OF t1 sh] keep by simp
  have sh2: "shape t2 = (B, C, H, W)"
    using keep [OF t2] sh1 by simp
  have here: "elems t2 (b, c, y, x)
       = bread (draw p s (B, C, nat (r1 - r0), nat (c1 - c0)))
           (b, c, y - fst (slice_bounds H r0 r1), x - fst (slice_bounds W c0 c1))"
    using t2 unfolding body_def fst_conv snd_conv
    by (rule seed_tile_here [OF _ seed region sh1 cov])
  have "shape latents = (B, C, H, W) \<and> elems latents (b, c, y, x) = elems t2 (b, c, y, x)"
  proof (rule for_each_invariant
      [where I = "\<lambda>t. shape t = (B, C, H, W) \<and> elems t (b, c, y, x) = elems t2 (b, c, y, x)", OF t3])
    show "shape t2 = (B, C, H, W) \<and> elems t2 (b, c, y, x) = elems t2 (b, c, y, x)"
      using sh2 by simp
  next
    fix q t t'
    assume q: "q \<in> set after"
      and inv: "shape t = (B, C, H, W) \<and> elems t (b, c, y, x) = elems t2 (b, c, y, x)"
      and step: "body q t = Inr t'"
    from after q later
    have "\<not> directive_covers seeds modes tw th ro co grid_rows grid_cols (B, C, H, W) (fst q) (snd q) y x"
      by blast
    with inv have "\<not> directive_covers seeds modes tw th ro co grid_rows grid_cols (shape t) (fst q) (snd q) y x"
      by simp
    from seed_tile_elsewhere [OF step [unfolded body_def] this, of b c] keep [OF step] inv
    show "shape t' = (B, C, H, W) \<and> elems t' (b, c, y, x) = elems t2 (b, c, y, x)"
      by simp
  qed
  with here show ?thesis by simp
qed


lemma full_mode_one_by_two:
  assumes "0 < tile_col_overlap" and "tile_col_overlap < tile_width" and "0 \<le> tile_height"
    and "valid_seed seed" and "valid_seed seedA" and "valid_seed seedB"
  shows "\<exists>latents.
      init_latents p (Some seed) tile_width tile_height tile_row_overlap tile_col_overlap
        (Some [[Some seedA, Some seedB]]) [[''full'', ''full'']] [] 1 2 = Inr latents
    \<and> (\<forall>b c y x.
          b < batch_size \<and> c < in_channels p \<and> y < nat (tile_height div 8)
          \<and> nat ((tile_width - tile_col_overlap) div 8) \<le> x \<and> x < nat (tile_width div 8)
          \<longrightarrow> elems latents (b, c, y, x)
               = elems (draw p seedB (batch_size, in_channels p, nat (tile_height div 8),
                          nat ((tile_width - tile_col_overlap + tile_width) div 8
                               - (tile_width - tile_col_overlap) div 8)))
                   (b, c, y, x - nat ((tile_width - tile_col_overlap) div 8)))"
proof -
  define H where "H = nat (tile_height div 8)"
  define ca where "ca = (tile_width - tile_col_overlap) div 8"
  define cb where "cb = (tile_width - tile_col_overlap + tile_width) div 8"
  define ct where "ct = tile_width div 8"
  define W where "W = nat cb"
  define C where "C = in_channels p"
  define L0 where "L0 = draw p seed (batch_size, C, H, W)"
  have hpos: "0 \<le> tile_height div 8" using assms(3) by simp
  have ca0: "0 \<le> ca" unfolding ca_def using assms by simp
  have cab: "ca \<le> cb" unfolding ca_def cb_def using assms by (intro zdiv_mono1) simp_all
  have ctb: "ct \<le> cb" unfolding ct_def cb_def using assms by (intro zdiv_mono1) simp_all
  have ct0: "0 \<le> ct" unfolding ct_def using assms by simp
  have cb0: "0 \<le> cb" using ca0 cab by simp
  have init: "initial_latents p (Some seed) tile_width tile_height tile_row_overlap tile_col_overlap 1 2 = Inr L0"
    using hpos cb0 manual_seed_valid [OF assms(4)]
    by (simp add: initial_latents_def latents_shape_def L0_def H_def W_def cb_def C_def
        add.commute add.left_commute)
  have sh0: "shape L0 = (batch_size, C, H, W)"
    by (simp add: L0_def draw_def)
  have t00: "tile2latent_indices (int 0) (int 0) tile_width tile_height tile_row_overlap tile_col_overlap
      = (0, tile_height div 8, 0, ct)"
    by (simp add: tile2latent_indices_def tile2pixel_indices_def pixel2latent_indices_def ct_def)
  have t01: "tile2latent_indices (int 0) (int 1) tile_width tile_height tile_row_overlap tile_col_overlap
      = (0, tile_height div 8, ca, cb)"
    by (simp add: tile2latent_indices_def tile2pixel_indices_def pixel2latent_indices_def ca_def cb_def)
  obtain L1 where L1: "reseed_region p L0 0 (tile_height div 8) 0 ct seedA = Inr L1"
    using reseed_region_inside [OF sh0 assms(5), of 0 "tile_height div 8" 0 ct p] hpos ct0 ctb
    by (auto simp: H_def W_def)
  have sh1: "shape L1 = (batch_size, C, H, W)"
    using reseed_region_shape [OF L1] sh0 by simp
  obtain L2 where L2: "reseed_region p L1 0 (tile_height div 8) ca cb seedB = Inr L2"
    using reseed_region_inside [OF sh1 assms(6), of 0 "tile_height div 8" ca cb p] hpos ca0 cab cb0
    by (auto simp: H_def W_def)
  have s0: "seed_tile p [[Some seedA, Some seedB]] [[''full'', ''full'']] tile_width tile_height
      tile_row_overlap tile_col_overlap 1 2 0 0 L0 = Inr L1"
    using t00 L1 by (simp add: seed_tile_def py_index_def)
  have s1: "seed_tile p [[Some seedA, Some seedB]] [[''full'', ''full'']] tile_width tile_height
      tile_row_overlap tile_col_overlap 1 2 0 1 L1 = Inr L2"
    using t01 L2 by (simp add: seed_tile_def py_index_def)
  have run: "init_latents p (Some seed) tile_width tile_height tile_row_overlap tile_col_overlap
        (Some [[Some seedA, Some seedB]]) [[''full'', ''full'']] [] 1 2 = Inr L2"
    by (simp add: init_latents_def init apply_seed_tiles_def upt_one_two s0 s1 apply_reroll_regions_def
        del: One_nat_def)
  have rows: "slice_bounds H 0 (tile_height div 8) = (0, H)"
    using slice_bounds_inside [of 0 "tile_height div 8" H] hpos by (simp add: H_def)
  have cols: "slice_bounds W ca cb = (nat ca, W)"
    using slice_bounds_inside [of ca cb W] ca0 cab cb0 by (simp add: W_def)
  have "elems L2 (b, c, y, x)
      = elems (draw p seedB (batch_size, C, H, nat (cb - ca))) (b, c, y, x - nat ca)"
    if "b < batch_size" "c < C" "y < H" "nat ca \<le> x" "x < nat ct" for b c y x
  proof -
    from that ctb have xW: "x < W" by (simp add: W_def)
    with that have cov: "covers (slice_bounds H 0 (tile_height div 8), slice_bounds W ca cb) y x"
      by (simp add: rows cols covers_def)
    have "in_shape (shape (draw p seedB (batch_size, C, nat (tile_height div 8 - 0), nat (cb - ca))))
            (b, c, y - 0, x - nat ca)"
      using that xW cab ca0 by (auto simp: in_shape_def draw_def H_def W_def)
    then have "bread (draw p seedB (batch_size, C, nat (tile_height div 8 - 0), nat (cb - ca)))
            (b, c, y - 0, x - nat ca)
         = elems (draw p seedB (batch_size, C, nat (tile_height div 8 - 0), nat (cb - ca)))
            (b, c, y - 0, x - nat ca)"
      by (rule bread_in_shape)
    with reseed_region_elems [OF L2 sh1, of b c y x] cov show ?thesis
      by (simp add: rows [unfolded H_def] cols H_def)
  qed
  with run show ?thesis
    unfolding H_def ca_def cb_def ct_def C_def by blast
qed

lemma apply_seed_tiles_shape:
  assumes "apply_seed_tiles p seed_tiles modes tw th ro co grid_rows grid_cols latents = Inr latents'"
  shows "shape latents' = shape latents"
proof (cases seed_tiles)
  case None
  with assms show ?thesis by (simp add: apply_seed_tiles_def)
next
  case (Some seeds)
  with assms have run: "for_each
            (\<lambda>row. for_each
               (\<lambda>col. seed_tile p seeds modes tw th ro co grid_rows grid_cols row col)
               [0..<grid_cols])
            [0..<grid_rows] latents = Inr latents'"
    by (simp add: apply_seed_tiles_def)
  have inner: "shape t = shape latents"
    if "for_each (\<lambda>col. seed_tile p seeds modes tw th ro co grid_rows grid_cols row col) [0..<grid_cols] s
        = Inr t" "shape s = shape latents" for row s t
    by (rule for_each_invariant [where I = "\<lambda>s. shape s = shape latents", OF that])
       (simp add: seed_tile_shape)
  show ?thesis
    by (rule for_each_invariant [where I = "\<lambda>s. shape s = shape latents", OF run])
       (simp_all add: inner)
qed

text \<open>
  Claim C7. The per-tile seed directives are applied row by row, each row by columns, and
  a later directive overwrites an earlier one. First, on every grid: when the initial canvas
  latent is built from a grid of seed directives (and no reroll region), a position covered
  by the region of the directive of a tile, and by the region of no directive of a tile that
  comes later in row-major order, holds the noise drawn for that tile from its seed, at the
  position's offset in the region. Second, on a 1 x 2 grid with a positive column overlap
  and seeds that \<open>manual_seed\<close> accepts, seeding the tile (0, 0) in full mode with \<open>seedA\<close>
  and the tile (0, 1) in full mode with \<open>seedB\<close> succeeds, and afterwards every position of
  the overlap of the two tiles holds the noise drawn for the tile (0, 1) from \<open>seedB\<close>, at
  the position's offset in that tile: an expression in which \<open>seedA\<close> does not occur.
\<close>

theorem seed_directives_last_write_wins:
  "(init_latents p seed0 tile_width tile_height tile_row_overlap tile_col_overlap
        (Some seeds) seed_tiles_mode [] grid_rows grid_cols = Inr latents
      \<and> shape latents = (B, C, H, W)
      \<and> row < grid_rows \<and> col < grid_cols
      \<and> seeds ! row ! col = Some tile_seed
      \<and> seed_region (seed_tiles_mode ! row ! col) tile_width tile_height tile_row_overlap tile_col_overlap
            grid_rows grid_cols row col = Inr (row_init, row_end, col_init, col_end)
      \<and> covers (slice_bounds H row_init row_end, slice_bounds W col_init col_end) y x
      \<and> (\<forall>r k. r < grid_rows \<and> k < grid_cols \<and> (row < r \<or> (r = row \<and> col < k))
            \<longrightarrow> \<not> directive_covers seeds seed_tiles_mode tile_width tile_height tile_row_overlap
                    tile_col_overlap grid_rows grid_cols (B, C, H, W) r k y x)
    \<longrightarrow> elems latents (b, c, y, x)
          = bread (draw p tile_seed (B, C, nat (row_end - row_init), nat (col_end - col_init)))
              (b, c, y - fst (slice_bounds H row_init row_end), x - fst (slice_bounds W col_init col_end)))
   \<and> (0 < tile_col_overlap \<and> tile_col_overlap < tile_width \<and> 0 \<le> tile_height
        \<and> valid_seed seed \<and> valid_seed seedA \<and> valid_seed seedB
    \<longrightarrow> (\<exists>seeded.
          init_latents p (Some seed) tile_width tile_height tile_row_overlap tile_col_overlap
            (Some [[Some seedA, Some seedB]]) [[''full'', ''full'']] [] 1 2 = Inr seeded
        \<and> (\<forall>b c y x.
              b < batch_size \<and> c < in_channels p \<and> y < nat (tile_height div 8)
              \<and> nat ((tile_width - tile_col_overlap) div 8) \<le> x \<and> x < nat (tile_width div 8)
              \<longrightarrow> elems seeded (b, c, y, x)
                   = elems (draw p seedB (batch_size, in_channels p, nat (tile_height div 8),
                              nat ((tile_width - tile_col_overlap + tile_width) div 8
                                   - (tile_width - tile_col_overlap) div 8)))
                       (b, c, y, x - nat ((tile_width - tile_col_overlap) div 8)))))"
proof (intro conjI impI)
  assume a: "init_latents p seed0 tile_width tile_height tile_row_overlap tile_col_overlap
        (Some seeds) seed_tiles_mode [] grid_rows grid_cols = Inr latents
      \<and> shape latents = (B, C, H, W)
      \<and> row < grid_rows \<and> col < grid_cols
      \<and> seeds ! row ! col = Some tile_seed
      \<and> seed_region (seed_tiles_mode ! row ! col) tile_width tile_height tile_row_overlap tile_col_overlap
            grid_rows grid_cols row col = Inr (row_init, row_end, col_init, col_end)
      \<and> covers (slice_bounds H row_init row_end, slice_bounds W col_init col_end) y x
      \<and> (\<forall>r k. r < grid_rows \<and> k < grid_cols \<and> (row < r \<or> (r = row \<and> col < k))
            \<longrightarrow> \<not> directive_covers seeds seed_tiles_mode tile_width tile_height tile_row_overlap
                    tile_col_overlap grid_rows grid_cols (B, C, H, W) r k y x)"
  show "elems latents (b, c, y, x)
          = bread (draw p tile_seed (B, C, nat (row_end - row_init), nat (col_end - col_init)))
              (b, c, y - fst (slice_bounds H row_init row_end), x - fst (slice_bounds W col_init col_end))"
  proof -
    from a obtain latents0 where
      run: "apply_seed_tiles p (Some seeds) seed_tiles_mode tile_width tile_height tile_row_overlap
              tile_col_overlap grid_rows grid_cols latents0 = Inr latents"
      by (auto simp: init_latents_def apply_reroll_regions_def split: sum.splits)
    have sh: "shape latents0 = (B, C, H, W)"
      using apply_seed_tiles_shape [OF run] a by simp
    show ?thesis
      by (rule seed_tiles_last_write [where row = row and col = col, OF run _ _ _ _ sh])
         (use a in blast)+
  qed
next
  assume "0 < tile_col_overlap \<and> tile_col_overlap < tile_width \<and> 0 \<le> tile_height
        \<and> valid_seed seed \<and> valid_seed seedA \<and> valid_seed seedB"
  then show "\<exists>seeded.
          init_latents p (Some seed) tile_width tile_height tile_row_overlap tile_col_overlap
            (Some [[Some seedA, Some seedB]]) [[''full'', ''full'']] [] 1 2 = Inr seeded
        \<and> (\<forall>b c y x.
              b < batch_size \<and> c < in_channels p \<and> y < nat (tile_height div 8)
              \<and> nat ((tile_width - tile_col_overlap) div 8) \<le> x \<and> x < nat (tile_width div 8)
              \<longrightarrow> elems seeded (b, c, y, x)
                   = elems (draw p seedB (batch_size, in_channels p, nat (tile_height div 8),
                              nat ((tile_width - tile_col_overlap + tile_width) div 8
                                   - (tile_width - tile_col_overlap) div 8)))
                       (b, c, y, x - nat ((tile_width - tile_col_overlap) div 8)))"
    using full_mode_one_by_two [of tile_col_overlap tile_width tile_height seed seedA seedB p tile_row_overlap]
    by blast
qed


lemmas eval_defs =
  init_latents_def initial_latents_def manual_seed_def valid_seed_def latents_shape_def
  apply_seed_tiles_def seed_tile_def
  py_index_def tile2latent_indices_def tile2pixel_indices_def pixel2latent_indices_def
  reseed_region_def setitem_def update_region_def draw_def slice_bounds_def slice_bound_def
  expands_to_def demo_pipeline_def batch_size_def apply_reroll_regions_def reroll_region_def

text \<open>
  The theorem on the pipeline whose noise is the seed. On a 2 x 2 grid of 16-pixel tiles
  with overlap 8, where the tile (0, 1) is seeded with 1 and the tile (1, 0) with 2, the
  latent position (1, 1) lies in both regions and holds 2, the seed of the tile that comes
  later row by row (column by column, the tile (0, 1) would come later and leave 1). On
  a 1 x 2 grid of 512-pixel tiles with overlap 256, the overlap position (0, 40) holds 2,
  the seed of the tile (0, 1).
\<close>

theorem seed_directives_last_write_wins_witness:
  "(\<exists>latents.
      init_latents demo_pipeline (Some 0) 16 16 8 8 (Some [[None, Some 1], [Some 2, None]])
        [[''full'', ''full''], [''full'', ''full'']] [] 2 2 = Inr latents
    \<and> elems latents (0, 0, 1, 1) = 2)
   \<and> (\<exists>latents.
         init_latents demo_pipeline (Some 0) 512 512 256 256
           (Some [[Some 1, Some 2]]) [[''full'', ''full'']] [] 1 2 = Inr latents
       \<and> elems latents (0, 0, 0, 40) = 2)"
proof
  let ?seeds = "[[None, Some 1], [Some 2, None]]"
  let ?modes = "[[''full'', ''full''], [''full'', ''full'']]"
  have "\<exists>latents.
      init_latents demo_pipeline (Some 0) 16 16 8 8 (Some ?seeds) ?modes [] 2 2 = Inr latents
    \<and> shape latents = (1, 1, 3, 3)"
    by (simp add: eval_defs upt_one_two del: One_nat_def)
  then obtain latents where
    run: "init_latents demo_pipeline (Some 0) 16 16 8 8 (Some ?seeds) ?modes [] 2 2 = Inr latents"
    and sh: "shape latents = (1, 1, 3, 3)"
    by blast
  have region: "seed_region (?modes ! 1 ! 0) 16 16 8 8 2 2 1 0 = Inr (1, 3, 0, 2)"
    by (simp add: seed_region_def tile2latent_indices_def tile2pixel_indices_def
        pixel2latent_indices_def)
  have rows: "slice_bounds 3 1 3 = (1, 3)" and cols: "slice_bounds 3 0 2 = (0, 2)"
    by (simp_all add: slice_bounds_def slice_bound_def)
  have cov: "covers (slice_bounds 3 1 3, slice_bounds 3 0 2) 1 1"
    unfolding rows cols by (simp add: covers_def)
  have last: "\<not> directive_covers ?seeds ?modes 16 16 8 8 2 2 (1, 1, 3, 3) 1 1 1 1"
    by (simp add: directive_covers_def)
  have later: "\<forall>r k. r < 2 \<and> k < 2 \<and> ((1::nat) < r \<or> (r = 1 \<and> (0::nat) < k))
      \<longrightarrow> \<not> directive_covers ?seeds ?modes 16 16 8 8 2 2 (1, 1, 3, 3) r k 1 1"
  proof (intro allI impI)
    fix r k :: nat
    assume "r < 2 \<and> k < 2 \<and> (1 < r \<or> (r = 1 \<and> 0 < k))"
    then have "r = 1" "k = 1" by auto
    with last show "\<not> directive_covers ?seeds ?modes 16 16 8 8 2 2 (1, 1, 3, 3) r k 1 1"
      by simp
  qed
  have "elems latents (0, 0, 1, 1)
      = bread (draw demo_pipeline 2 (1, 1, nat (3 - 1), nat (2 - 0)))
          (0, 0, 1 - fst (slice_bounds 3 1 3), 1 - fst (slice_bounds 3 0 2))"
    using seed_directives_last_write_wins [THEN conjunct1, rule_format,
        of demo_pipeline "Some 0" 16 16 8 8 ?seeds ?modes 2 2 latents
           1 1 3 3 1 0 2 1 3 0 2 1 1 0 0]
      run sh region cov later
    by simp
  then have "elems latents (0, 0, 1, 1) = 2"
    unfolding rows cols by (simp add: bread_def draw_def demo_pipeline_def)
  with run show "\<exists>latents.
      init_latents demo_pipeline (Some 0) 16 16 8 8 (Some ?seeds) ?modes [] 2 2 = Inr latents
    \<and> elems latents (0, 0, 1, 1) = 2"
    by blast
next
  have h: "(0::int) < 256 \<and> (256::int) < 512 \<and> (0::int) \<le> 512
      \<and> valid_seed 0 \<and> valid_seed 1 \<and> valid_seed 2"
    by (simp add: valid_seed_def)
  from seed_directives_last_write_wins [THEN conjunct2, rule_format, OF h, of demo_pipeline 256]
  obtain latents where
    run: "init_latents demo_pipeline (Some 0) 512 512 256 256
           (Some [[Some 1, Some 2]]) [[''full'', ''full'']] [] 1 2 = Inr latents"
    and ov: "\<And>b c y x. b < batch_size \<and> c < in_channels demo_pipeline \<and> y < nat (512 div 8)
          \<and> nat ((512 - 256) div 8) \<le> x \<and> x < nat (512 div 8)
          \<Longrightarrow> elems latents (b, c, y, x)
               = elems (draw demo_pipeline 2 (batch_size, in_channels demo_pipeline, nat (512 div 8),
                          nat ((512 - 256 + 512) div 8 - (512 - 256) div 8)))
                   (b, c, y, x - nat ((512 - 256) div 8))"
    by blast
  have "elems latents (0, 0, 0, 40) = 2"
    by (subst ov) (simp_all add: batch_size_def demo_pipeline_def draw_def)
  with run show "\<exists>latents.
         init_latents demo_pipeline (Some 0) 512 512 256 256
           (Some [[Some 1, Some 2]]) [[''full'', ''full'']] [] 1 2 = Inr latents
       \<and> elems latents (0, 0, 0, 40) = 2"
    by blast
qed

lemma reroll_region_shape: "reroll_region p r t = Inr t' \<Longrightarrow> shape t' = shape t"
  by (auto simp: reroll_region_def pixel2latent_indices_def split: prod.splits dest: reseed_region_shape)

lemma reroll_region_elems:
  assumes "reroll_region p r t = Inr t'"
  shows "elems t' (b, c, y, x) =
     (if covers (latent_rect (shape t) r) y x
      then bread (reroll_draw p (shape t) r)
             (b, c, y - fst (fst (latent_rect (shape t) r)), x - fst (snd (latent_rect (shape t) r)))
      else elems t (b, c, y, x))"
proof -
  obtain B C H W where sh: "shape t = (B, C, H, W)"
    by (cases "shape t") auto
  obtain r0 r1 c0 c1 s where r: "r = (r0, r1, c0, c1, s)"
    by (cases r) auto
  from assms have "reseed_region p t (r0 div 8) (r1 div 8) (c0 div 8) (c1 div 8) s = Inr t'"
    by (simp add: reroll_region_def r pixel2latent_indices_def)
  from reseed_region_elems [OF this sh, of b c y x] show ?thesis
    by (simp add: latent_rect_def reroll_draw_def r sh)
qed

lemma apply_reroll_regions_shape:
  "apply_reroll_regions p rs t = Inr t' \<Longrightarrow> shape t' = shape t"
  unfolding apply_reroll_regions_def
  by (induction rs arbitrary: t) (auto split: sum.splits dest: reroll_region_shape)

lemma apply_reroll_regions_elsewhere:
  "apply_reroll_regions p rs t = Inr t' \<Longrightarrow> \<forall>r\<in>set rs. \<not> covers (latent_rect (shape t) r) y x
     \<Longrightarrow> elems t' (b, c, y, x) = elems t (b, c, y, x)"
  unfolding apply_reroll_regions_def
proof (induction rs arbitrary: t)
  case Nil
  then show ?case by simp
next
  case (Cons r rs)
  from Cons.prems(1) obtain t1 where t1: "reroll_region p r t = Inr t1"
      "for_each (reroll_region p) rs t1 = Inr t'"
    by (auto split: sum.splits)
  have sh: "shape t1 = shape t"
    by (rule reroll_region_shape [OF t1(1)])
  have "elems t' (b, c, y, x) = elems t1 (b, c, y, x)"
    using Cons.IH [OF t1(2)] Cons.prems(2) sh by simp
  also have "\<dots> = elems t (b, c, y, x)"
    using reroll_region_elems [OF t1(1), of b c y x] Cons.prems(2) by simp
  finally show ?case .
qed

text \<open>
  Claim C8. The reroll regions are applied after the per-tile seeds, in listed order: when
  the initial canvas latent is built, a position covered by the latent rectangle of a reroll
  region and by none of the regions listed after it holds the noise drawn for that region
  from its seed, at the position's offset in the rectangle, whatever the canvas seed and
  the seeds of the tiles are.
\<close>

theorem reroll_regions_override:
  assumes "init_latents p seed tile_width tile_height tile_row_overlap tile_col_overlap
             seed_tiles seed_tiles_mode (earlier @ region # later) grid_rows grid_cols = Inr latents"
    and "covers (latent_rect (shape latents) region) y x"
    and "\<forall>r\<in>set later. \<not> covers (latent_rect (shape latents) r) y x"
  shows "elems latents (b, c, y, x)
       = bread (reroll_draw p (shape latents) region)
           (b, c, y - fst (fst (latent_rect (shape latents) region)),
                  x - fst (snd (latent_rect (shape latents) region)))"
proof -
  from assms(1) obtain seeded where
    run: "apply_reroll_regions p (earlier @ region # later) seeded = Inr latents"
    by (auto simp: init_latents_def split: sum.splits)
  then obtain t1 t2 where
    t1: "apply_reroll_regions p earlier seeded = Inr t1"
    and t2: "reroll_region p region t1 = Inr t2"
    and t3: "apply_reroll_regions p later t2 = Inr latents"
    unfolding apply_reroll_regions_def
    by (auto simp: for_each_append split: sum.splits)
  have sh2: "shape t2 = shape latents"
    using apply_reroll_regions_shape [OF t3] by simp
  have sh1: "shape t1 = shape latents"
    using reroll_region_shape [OF t2] sh2 by simp
  have "elems latents (b, c, y, x) = elems t2 (b, c, y, x)"
    using apply_reroll_regions_elsewhere [OF t3, of y x b c] assms(3) sh2 by simp
  also have "\<dots> = bread (reroll_draw p (shape t1) region)
             (b, c, y - fst (fst (latent_rect (shape t1) region)), x - fst (snd (latent_rect (shape t1) region)))"
    using reroll_region_elems [OF t2, of b c y x] assms(2) sh1 by simp
  finally show ?thesis
    by (simp add: sh1)
qed

text \<open>
  A 16 x 16 pixel tile seeded in full mode with 1, then the reroll regions (0, 16, 0, 16)
  with seed 5 and (0, 8, 0, 8) with seed 6: the latent position (1, 1) is covered by the
  first region only and holds 5.
\<close>

theorem reroll_regions_override_witness:
  "\<exists>latents.
      init_latents demo_pipeline (Some 0) 16 16 0 0 (Some [[Some 1]]) [[''full'']]
        ([] @ (0, 16, 0, 16, 5) # [(0, 8, 0, 8, 6)]) 1 1 = Inr latents
    \<and> covers (latent_rect (shape latents) (0, 16, 0, 16, 5)) 1 1
    \<and> (\<forall>r\<in>set [(0, 8, 0, 8, 6)]. \<not> covers (latent_rect (shape latents) r) 1 1)
    \<and> elems latents (0, 0, 1, 1) = 5"
proof -
  have "\<exists>latents.
      init_latents demo_pipeline (Some 0) 16 16 0 0 (Some [[Some 1]]) [[''full'']]
        ([] @ (0, 16, 0, 16, 5) # [(0, 8, 0, 8, 6)]) 1 1 = Inr latents
      \<and> shape latents = (1, 1, 2, 2)"
    by (simp add: eval_defs)
  then obtain latents where
    run: "init_latents demo_pipeline (Some 0) 16 16 0 0 (Some [[Some 1]]) [[''full'']]
        ([] @ (0, 16, 0, 16, 5) # [(0, 8, 0, 8, 6)]) 1 1 = Inr latents"
    and sh: "shape latents = (1, 1, 2, 2)"
    by blast
  have r1: "latent_rect (1, 1, 2, 2) (0, 16, 0, 16, 5) = ((0, 2), (0, 2))"
    unfolding latent_rect_def prod.case by (simp add: slice_bounds_def slice_bound_def)
  have r2: "latent_rect (1, 1, 2, 2) (0, 8, 0, 8, 6) = ((0, 1), (0, 1))"
    unfolding latent_rect_def prod.case by (simp add: slice_bounds_def slice_bound_def)
  have c1: "covers (latent_rect (shape latents) (0, 16, 0, 16, 5)) 1 1"
    unfolding sh r1 by (simp add: covers_def)
  have c2: "\<forall>r\<in>set [(0, 8, 0, 8, 6)]. \<not> covers (latent_rect (shape latents) r) 1 1"
    unfolding sh list.set ball_simps r2 by (simp add: covers_def)
  have d: "bread (reroll_draw demo_pipeline (1, 1, 2, 2) (0, 16, 0, 16, 5)) idx = 5" for idx
    by (simp add: reroll_draw_def bread_def draw_def demo_pipeline_def split: prod.splits)
  have "elems latents (0, 0, 1, 1)
       = bread (reroll_draw demo_pipeline (shape latents) (0, 16, 0, 16, 5))
           (0, 0, 1 - fst (fst (latent_rect (shape latents) (0, 16, 0, 16, 5))),
                  1 - fst (snd (latent_rect (shape latents) (0, 16, 0, 16, 5))))"
    by (rule reroll_regions_override [OF run c1 c2])
  then have "elems latents (0, 0, 1, 1) = 5"
    unfolding sh d .
  with run c1 c2 show ?thesis by blast
qed


section \<open>Properties of the tiled denoising orchestrator\<close>

lemma upt_single: "[0..<Suc 0] = [0]"
  by simp

lemma unguided_step_raises:
  "denoise_step p [[embedding]] False guidance_scale guidance_scale_tiles tile_weights eta
     tile_width tile_height tile_row_overlap tile_col_overlap 1 1 (i, t) (scheduler_state, latents, calls)
   = Inl (IndexError, calls @ [Unet_call i 0 0])"
proof -
  have tile: "infer_tile p latents [[embedding]] False guidance_scale guidance_scale_tiles
      tile_width tile_height tile_row_overlap tile_col_overlap i t 0 0 ([], calls)
    = Inr ([], calls @ [Unet_call i 0 0])"
    by (simp add: infer_tile_def py_index_def Let_def split: prod.splits)
  have infer: "infer_tiles p latents [[embedding]] False guidance_scale guidance_scale_tiles
      tile_width tile_height tile_row_overlap tile_col_overlap 1 1 i t calls
    = Inr ([[]], calls @ [Unet_call i 0 0])"
    by (simp add: infer_tiles_def infer_row_def tile)
  have st: "stitch_tile [[]] tile_weights tile_width tile_height tile_row_overlap tile_col_overlap 0 0 s
    = Inl IndexError" for s
    by (simp add: stitch_tile_def py_index_def split: prod.splits)
  have stitch: "stitch [[]] tile_weights tile_width tile_height tile_row_overlap tile_col_overlap 1 1 latents
    = Inl IndexError"
    by (simp add: stitch_def st)
  show ?thesis
    unfolding denoise_step_def prod.case infer sum.case stitch ..
qed

lemma for_each_collect:
  assumes step: "\<And>k acc c acc' c'. body k (acc, c) = Inr (acc', c') \<Longrightarrow> \<exists>x. acc' = acc @ [x] \<and> R k x"
    and run: "for_each body [0..<n] (acc0, c0) = Inr (acc, c)"
  shows "\<exists>xs. acc = acc0 @ xs \<and> length xs = n \<and> (\<forall>k<n. R k (xs ! k))"
  using run
proof (induction n arbitrary: acc c)
  case 0
  then show ?case by simp
next
  case (Suc n)
  from Suc.prems obtain acc1 c1 where
    first: "for_each body [0..<n] (acc0, c0) = Inr (acc1, c1)"
    and last: "body n (acc1, c1) = Inr (acc, c)"
    by (auto simp: for_each_append split: sum.splits)
  from Suc.IH [OF first] obtain xs where
    xs: "acc1 = acc0 @ xs" "length xs = n" "\<forall>k<n. R k (xs ! k)"
    by blast
  from step [OF last] obtain x where x: "acc = acc1 @ [x]" "R n x"
    by blast
  have "\<forall>k<Suc n. R k ((xs @ [x]) ! k)"
    using xs x by (auto simp: nth_append less_Suc_eq)
  with xs x show ?case
    by (intro exI [of _ "xs @ [x]"]) simp
qed


lemma infer_tile_guided:
  assumes "infer_tile p latents text_embeddings True guidance_scale guidance_scale_tiles
             tile_width tile_height tile_row_overlap tile_col_overlap i t row col (preds, calls)
           = Inr (preds', calls')"
    and "tile2latent_indices (int row) (int col) tile_width tile_height tile_row_overlap tile_col_overlap
           = (r0, r1, c0, c1)"
  shows "\<exists>embeddings_row embedding noise_pred_uncond noise_pred_text guidance noise_pred_tile.
      py_index text_embeddings row = Inr embeddings_row
    \<and> py_index embeddings_row col = Inr embedding
    \<and> chunk2 (unet p (model_input p True i (getitem latents r0 r1 c0 c1)) t embedding)
        = Inr (noise_pred_uncond, noise_pred_text)
    \<and> tile_guidance guidance_scale guidance_scale_tiles row col = Inr guidance
    \<and> combine_guidance noise_pred_uncond noise_pred_text guidance = Inr noise_pred_tile
    \<and> preds' = preds @ [noise_pred_tile]"
  using assms
  unfolding infer_tile_def prod.case Let_def
  by (auto split: sum.splits prod.splits)


lemma infer_tiles_entries:
  assumes run: "infer_tiles p latents text_embeddings True guidance_scale guidance_scale_tiles
             tile_width tile_height tile_row_overlap tile_col_overlap grid_rows grid_cols i t calls
           = Inr (noise_preds, calls')"
    and row: "row < grid_rows" and col: "col < grid_cols"
  shows "\<exists>preds cs cs'.
      infer_tile p latents text_embeddings True guidance_scale guidance_scale_tiles
        tile_width tile_height tile_row_overlap tile_col_overlap i t row col (preds, cs)
      = Inr (preds @ [noise_preds ! row ! col], cs')"
proof -
  define T where "T = (\<lambda>r c pred. \<exists>preds cs cs'.
      infer_tile p latents text_embeddings True guidance_scale guidance_scale_tiles
        tile_width tile_height tile_row_overlap tile_col_overlap i t r c (preds, cs)
      = Inr (preds @ [pred], cs'))"
  define R where "R = (\<lambda>r preds_row. length preds_row = grid_cols \<and> (\<forall>c<grid_cols. T r c (preds_row ! c)))"
  have tile: "\<exists>x. acc' = acc @ [x] \<and> T r c x"
    if "infer_tile p latents text_embeddings True guidance_scale guidance_scale_tiles
        tile_width tile_height tile_row_overlap tile_col_overlap i t r c (acc, cs) = Inr (acc', cs')"
    for r c acc cs acc' cs'
  proof -
    obtain r0 r1 c0 c1 where "tile2latent_indices (int r) (int c) tile_width tile_height
        tile_row_overlap tile_col_overlap = (r0, r1, c0, c1)"
      by (cases "tile2latent_indices (int r) (int c) tile_width tile_height tile_row_overlap tile_col_overlap") auto
    from infer_tile_guided [OF that this] obtain x where "acc' = acc @ [x]"
      by blast
    with that show ?thesis
      unfolding T_def by blast
  qed
  have row_step: "\<exists>x. acc' = acc @ [x] \<and> R r x"
    if "infer_row p latents text_embeddings True guidance_scale guidance_scale_tiles
        tile_width tile_height tile_row_overlap tile_col_overlap grid_cols i t r (acc, cs) = Inr (acc', cs')"
    for r acc cs acc' cs'
  proof -
    from that obtain preds_row where
      inner: "for_each (\<lambda>c. infer_tile p latents text_embeddings True guidance_scale guidance_scale_tiles
                 tile_width tile_height tile_row_overlap tile_col_overlap i t r c)
               [0..<grid_cols] ([], cs) = Inr (preds_row, cs')"
      and acc: "acc' = acc @ [preds_row]"
      unfolding infer_row_def prod.case by (auto split: sum.splits)
    from for_each_collect [of _ "T r", OF tile inner]
    have "R r preds_row"
      unfolding R_def by auto
    with acc show ?thesis by blast
  qed
  from run have "for_each (\<lambda>r. infer_row p latents text_embeddings True guidance_scale guidance_scale_tiles
                 tile_width tile_height tile_row_overlap tile_col_overlap grid_cols i t r)
               [0..<grid_rows] ([], calls) = Inr (noise_preds, calls')"
    unfolding infer_tiles_def .
  from for_each_collect [of _ R, OF row_step this] row
  have "R row (noise_preds ! row)"
    by auto
  with col have "T row col (noise_preds ! row ! col)"
    unfolding R_def by blast
  then show ?thesis
    unfolding T_def .
qed

lemma broadcast_shape_same: "broadcast_shape sh sh = Some sh"
  by (cases sh) (simp add: broadcast_shape_def broadcast_dim_def)

lemma binop_same_shape:
  assumes "binop f a b = Inr r" and "shape a = sh" and "shape b = sh"
  shows "shape r = sh" and "in_shape sh idx \<Longrightarrow> elems r idx = f (elems a idx) (elems b idx)"
proof -
  from assms have r: "r = \<lparr>shape = sh, elems = (\<lambda>idx. f (bread a idx) (bread b idx))\<rparr>"
    by (simp add: binop_def broadcast_shape_same)
  show "shape r = sh" by (simp add: r)
  show "elems r idx = f (elems a idx) (elems b idx)" if "in_shape sh idx"
    using that assms(2,3) by (simp add: r bread_in_shape)
qed

lemma combine_guidance_elems:
  assumes "combine_guidance u tx g = Inr pred" and "shape u = sh" and "shape tx = sh"
  shows "shape pred = sh"
    and "in_shape sh idx \<Longrightarrow> elems pred idx = elems u idx + g * (elems tx idx - elems u idx)"
proof -
  from assms(1) obtain d where
    d: "binop (\<lambda>a b. a - b) tx u = Inr d"
    and s: "binop (\<lambda>a b. a + b) u (scalar_op (\<lambda>v. g * v) d) = Inr pred"
    by (auto simp: combine_guidance_def split: sum.splits)
  have shd: "shape d = sh"
    by (rule binop_same_shape(1) [OF d assms(3,2)])
  have shs: "shape (scalar_op (\<lambda>v. g * v) d) = sh"
    by (simp add: scalar_op_def shd)
  show "shape pred = sh"
    by (rule binop_same_shape(1) [OF s assms(2) shs])
  show "elems pred idx = elems u idx + g * (elems tx idx - elems u idx)" if "in_shape sh idx"
    using binop_same_shape(2) [OF s assms(2) shs that] binop_same_shape(2) [OF d assms(3,2) that]
    by (simp add: scalar_op_def)
qed

lemma chunk2_of_pair:
  assumes "chunk2 x = Inr (u, tx)" and "shape x = (2, C, H, W)"
  shows "shape u = (1, C, H, W)" and "shape tx = (1, C, H, W)"
    and "elems u idx = elems x idx"
    and "elems tx (b, c, y, z) = elems x (b + 1, c, y, z)"
  using assms by (auto simp: chunk2_def Let_def)

lemma tile_guidance_scale:
  "tile_guidance guidance_scale guidance_scale_tiles row col = Inr g
     \<Longrightarrow> g = tile_scale guidance_scale guidance_scale_tiles row col"
  by (auto simp: tile_guidance_def tile_scale_def py_index_def split: option.splits sum.splits if_splits)

lemma shape_getitem:
  "shape (getitem t r0 r1 c0 c1)
     = (fst (shape t), fst (snd (shape t)),
        snd (slice_bounds (fst (snd (snd (shape t)))) r0 r1) - fst (slice_bounds (fst (snd (snd (shape t)))) r0 r1),
        snd (slice_bounds (snd (snd (snd (shape t)))) c0 c1) - fst (slice_bounds (snd (snd (snd (shape t)))) c0 c1))"
  by (simp add: getitem_def split: prod.splits)

lemma shape_model_input_guided:
  "shape (model_input p True i t) = (fst (shape t) + fst (shape t), snd (shape t))"
  by (cases "shape t") (simp add: model_input_def Let_def scalar_op_def cat_twice_def)

text \<open>
  Claim C5. With classifier-free guidance, in a timestep whose inference succeeds, the
  prediction kept for the tile (row, col) has the shape of the tile's slice of the canvas
  latent, and each of its elements is \<open>u + scale * (c - u)\<close>, where \<open>u\<close> and \<open>c\<close> are the
  elements at that position of the unconditional half (batch entry 0) and of the conditional
  half (batch entry 1) of the network's output for the duplicated slice, and \<open>scale\<close> is the
  tile's own entry of the per-tile grid when the grid is given and the entry is not
  \<open>None\<close>, and the scale of the pipeline otherwise. No entry of another tile occurs in it.
  The denoising network returns a prediction of the shape of its input, and the canvas
  latent has the batch size of the pipeline.
\<close>

theorem guidance_per_tile:
  assumes run: "infer_tiles p latents text_embeddings True guidance_scale guidance_scale_tiles
             tile_width tile_height tile_row_overlap tile_col_overlap grid_rows grid_cols i t calls
           = Inr (noise_preds, calls')"
    and row: "row < grid_rows" and col: "col < grid_cols"
    and region: "tile2latent_indices (int row) (int col) tile_width tile_height tile_row_overlap tile_col_overlap
           = (row_init, row_end, col_init, col_end)"
    and single: "batch latents = batch_size"
    and contract: "\<forall>x e. shape (unet p x t e) = shape x"
    and out: "noise_pred = unet p (model_input p True i (getitem latents row_init row_end col_init col_end))
                    t (text_embeddings ! row ! col)"
  shows "shape (noise_preds ! row ! col) = shape (getitem latents row_init row_end col_init col_end)
    \<and> (\<forall>b c y x. in_shape (shape (noise_preds ! row ! col)) (b, c, y, x) \<longrightarrow>
          elems (noise_preds ! row ! col) (b, c, y, x)
            = elems noise_pred (b, c, y, x)
              + tile_scale guidance_scale guidance_scale_tiles row col
                * (elems noise_pred (b + 1, c, y, x) - elems noise_pred (b, c, y, x)))"
proof -
  from infer_tiles_entries [OF run row col] obtain preds cs cs' where
    "infer_tile p latents text_embeddings True guidance_scale guidance_scale_tiles
        tile_width tile_height tile_row_overlap tile_col_overlap i t row col (preds, cs)
      = Inr (preds @ [noise_preds ! row ! col], cs')"
    by blast
  from infer_tile_guided [OF this region] obtain embeddings_row embedding u tx g where
    e1: "py_index text_embeddings row = Inr embeddings_row"
    and e2: "py_index embeddings_row col = Inr embedding"
    and ch: "chunk2 (unet p (model_input p True i (getitem latents row_init row_end col_init col_end)) t embedding)
        = Inr (u, tx)"
    and g: "tile_guidance guidance_scale guidance_scale_tiles row col = Inr g"
    and comb: "combine_guidance u tx g = Inr (noise_preds ! row ! col)"
    by auto
  from e1 e2 have "embedding = text_embeddings ! row ! col"
    by (auto simp: py_index_def split: if_splits)
  with ch out have ch': "chunk2 noise_pred = Inr (u, tx)"
    by simp
  obtain B C H W where sl: "shape (getitem latents row_init row_end col_init col_end) = (B, C, H, W)"
    by (cases "shape (getitem latents row_init row_end col_init col_end)") auto
  have "B = fst (shape latents)"
    using sl by (simp add: shape_getitem)
  with single have B: "B = 1"
    by (simp add: batch_def batch_size_def)
  have shx: "shape noise_pred = (2, C, H, W)"
    using contract out sl B by (simp add: shape_model_input_guided)
  note parts = chunk2_of_pair [OF ch' shx]
  have shp: "shape (noise_preds ! row ! col) = (1, C, H, W)"
    by (rule combine_guidance_elems(1) [OF comb parts(1,2)])
  have "elems (noise_preds ! row ! col) (b, c, y, x)
      = elems noise_pred (b, c, y, x)
        + tile_scale guidance_scale guidance_scale_tiles row col
          * (elems noise_pred (b + 1, c, y, x) - elems noise_pred (b, c, y, x))"
    if "in_shape (shape (noise_preds ! row ! col)) (b, c, y, x)" for b c y x
    using combine_guidance_elems(2) [OF comb parts(1,2), of "(b, c, y, x)"] that
      tile_guidance_scale [OF g]
    by (simp add: shp parts(3,4))
  with shp sl B show ?thesis
    by simp
qed

text \<open>
  The theorem on a 1 x 2 grid of 8-pixel tiles, with a network that predicts 0 on the
  unconditional half and 1 on the conditional half of its input, the scale 7.5 of the
  pipeline and the per-tile grid \<open>[[2, None]]\<close>: the prediction kept for the tile (0, 0) is 2
  and the one kept for the tile (0, 1) is 7.5.
\<close>

theorem guidance_per_tile_witness:
  "\<exists>noise_preds calls'.
      infer_tiles contrast_pipeline (draw contrast_pipeline 0 (1, 1, 1, 2)) [[''a'', ''b'']] True (15 / 2)
        (Some [[Some 2, None]]) 8 8 0 0 1 2 0 0 [] = Inr (noise_preds, calls')
    \<and> batch (draw contrast_pipeline 0 (1, 1, 1, 2)) = batch_size
    \<and> (\<forall>x e. shape (unet contrast_pipeline x 0 e) = shape x)
    \<and> shape (noise_preds ! 0 ! 0) = (1, 1, 1, 1)
    \<and> elems (noise_preds ! 0 ! 0) (0, 0, 0, 0) = 2
    \<and> shape (noise_preds ! 0 ! 1) = (1, 1, 1, 1)
    \<and> elems (noise_preds ! 0 ! 1) (0, 0, 0, 0) = 15 / 2"
proof -
  let ?latents = "draw contrast_pipeline 0 (1, 1, 1, 2)"
  let ?grid = "Some [[Some 2, None]]"
  have t0: "tile2latent_indices (int 0) (int 0) 8 8 0 0 = (0, 1, 0, 1)"
    and t1: "tile2latent_indices (int 0) (int 1) 8 8 0 0 = (0, 1, 1, 2)"
    by (simp_all add: tile2latent_indices_def tile2pixel_indices_def pixel2latent_indices_def)
  have s0: "shape (getitem ?latents 0 1 0 1) = (1, 1, 1, 1)"
    and s1: "shape (getitem ?latents 0 1 1 2) = (1, 1, 1, 1)"
    by (simp_all add: getitem_def draw_def slice_bounds_def slice_bound_def)
  have "\<exists>noise_preds calls'.
      infer_tiles contrast_pipeline ?latents [[''a'', ''b'']] True (15 / 2) ?grid 8 8 0 0 1 2 0 0 []
        = Inr (noise_preds, calls')"
    unfolding infer_tiles_def infer_row_def infer_tile_def upt_one_two for_each.simps prod.case
      t0 t1 Let_def
    by (simp add: py_index_def model_input_def contrast_pipeline_def demo_pipeline_def cat_twice_def
        getitem_def draw_def slice_bounds_def slice_bound_def chunk2_def tile_guidance_def
        combine_guidance_def binop_def broadcast_shape_def broadcast_dim_def scalar_op_def)
  then obtain noise_preds calls' where
    run: "infer_tiles contrast_pipeline ?latents [[''a'', ''b'']] True (15 / 2) ?grid 8 8 0 0 1 2 0 0 []
        = Inr (noise_preds, calls')"
    by blast
  have single: "batch ?latents = batch_size"
    by (simp add: batch_def draw_def batch_size_def)
  have contract: "\<forall>x e. shape (unet contrast_pipeline x 0 e) = shape x"
    by (simp add: contrast_pipeline_def demo_pipeline_def)
  have u: "elems (unet contrast_pipeline x 0 e) (b, c, y, z) = real b" for x e b c y z
    by (simp add: contrast_pipeline_def demo_pipeline_def)
  have g0: "tile_scale (15 / 2) ?grid 0 0 = 2" and g1: "tile_scale (15 / 2) ?grid 0 (Suc 0) = 15 / 2"
    by (simp_all add: tile_scale_def)
  note a = guidance_per_tile [OF run _ _ t0 single contract refl]
  note b = guidance_per_tile [OF run _ _ t1 single contract refl]
  have a1: "shape (noise_preds ! 0 ! 0) = (1, 1, 1, 1)"
    using a s0 by simp
  have b1: "shape (noise_preds ! 0 ! 1) = (1, 1, 1, 1)"
    using b s1 by simp
  have a2: "elems (noise_preds ! 0 ! 0) (0, 0, 0, 0) = 2"
    using a a1 by (simp add: in_shape_def u g0)
  have b2: "elems (noise_preds ! 0 ! 1) (0, 0, 0, 0) = 15 / 2"
    using b b1 by (simp add: in_shape_def u g1)
  from run single contract a1 a2 b1 b2 show ?thesis
    by blast
qed

lemma for_each_reaches:
  assumes run: "for_each body xs s = Inr s'" and x: "x \<in> set xs" and inv: "I s"
    and keep: "\<And>y s t. I s \<Longrightarrow> body y s = Inr t \<Longrightarrow> I t"
    and hit: "\<And>s t. I s \<Longrightarrow> body x s = Inr t \<Longrightarrow> Q t"
    and stay: "\<And>y s t. I s \<Longrightarrow> Q s \<Longrightarrow> body y s = Inr t \<Longrightarrow> Q t"
  shows "Q s'"
proof -
  from x obtain before after where xs: "xs = before @ x # after"
    by (auto simp: in_set_conv_decomp)
  from run obtain s1 s2 where
    s1: "for_each body before s = Inr s1" and s2: "body x s1 = Inr s2"
    and s3: "for_each body after s2 = Inr s'"
    unfolding xs by (auto simp: for_each_append split: sum.splits)
  have i1: "I s1"
    by (rule for_each_invariant [where I = I, OF s1 inv]) (rule keep)
  have i2: "I s2" and q2: "Q s2"
    using keep [OF i1 s2] hit [OF i1 s2] by simp_all
  have "I s' \<and> Q s'"
    by (rule for_each_invariant [where I = "\<lambda>s. I s \<and> Q s", OF s3]) (use i2 q2 keep stay in blast)+
  then show ?thesis ..
qed

lemma update_region_expands:
  assumes "update_region f t r0 r1 c0 c1 v = Inr t'" and "shape t = (B, C, H, W)"
  shows "expands_to (shape v)
           (B, C, snd (slice_bounds H r0 r1) - fst (slice_bounds H r0 r1),
                  snd (slice_bounds W c0 c1) - fst (slice_bounds W c0 c1))"
  using assms by (auto simp: update_region_def split: prod.splits if_splits)

lemma bidx_bound: "i < n \<Longrightarrow> d = n \<or> d = 1 \<Longrightarrow> bidx d i < d"
  by (auto simp: bidx_def)

lemma gaussian_weights_bread_pos:
  assumes "expands_to (shape (gaussian_weights channels tw th nb)) (B, C, hs, ws)"
    and "y < hs" and "x < ws"
  shows "0 < bread (gaussian_weights channels tw th nb) (b, c, y, x)"
proof -
  from assms(1) have h: "nat (th div 8) = hs \<or> nat (th div 8) = 1"
    and w: "nat (tw div 8) = ws \<or> nat (tw div 8) = 1"
    by (simp_all add: expands_to_def gaussian_weights_def)
  have "bidx (nat (th div 8)) y < nat (th div 8)"
    using bidx_bound [OF assms(2) h] .
  moreover have "bidx (nat (tw div 8)) x < nat (tw div 8)"
    using bidx_bound [OF assms(3) w] .
  ultimately show ?thesis
    by (simp add: bread_def gaussian_weights_def weights_pos)
qed

lemma stitch_tile_contributors:
  assumes "stitch_tile noise_preds tile_weights tw th ro co row col (np, ct) = Inr (np', ct')"
    and "tile2latent_indices (int row) (int col) tw th ro co = (r0, r1, c0, c1)"
  shows "iadd_region ct r0 r1 c0 c1 tile_weights = Inr ct'"
  using assms unfolding stitch_tile_def prod.case
  by (auto split: sum.splits)

lemma iadd_gaussian:
  assumes "iadd_region ct r0 r1 c0 c1 (gaussian_weights channels tw th nb) = Inr ct'"
    and "shape ct = (B, C, H, W)"
  shows "shape ct' = (B, C, H, W)"
    and "elems ct idx \<le> elems ct' idx"
    and "covers (slice_bounds H r0 r1, slice_bounds W c0 c1) y x \<Longrightarrow> elems ct (b, c, y, x) < elems ct' (b, c, y, x)"
proof -
  from assms(1) have u: "update_region (\<lambda>old new. old + new) ct r0 r1 c0 c1
      (gaussian_weights channels tw th nb) = Inr ct'"
    by (simp add: iadd_region_def)
  show "shape ct' = (B, C, H, W)"
    using update_region_shape [OF u] assms(2) by simp
  note ex = update_region_expands [OF u assms(2)]
  have pos: "0 < bread (gaussian_weights channels tw th nb)
        (b', c', y' - fst (slice_bounds H r0 r1), x' - fst (slice_bounds W c0 c1))"
    if "covers (slice_bounds H r0 r1, slice_bounds W c0 c1) y' x'" for b' c' y' x'
    by (rule gaussian_weights_bread_pos [OF ex]) (use that in \<open>auto simp: covers_def\<close>)
  show "elems ct (b, c, y, x) < elems ct' (b, c, y, x)"
    if "covers (slice_bounds H r0 r1, slice_bounds W c0 c1) y x"
    using update_region_elems [OF u assms(2), of b c y x] pos [OF that] that by simp
  show "elems ct idx \<le> elems ct' idx"
  proof (cases idx)
    case (fields b' c' y' x')
    show ?thesis
      using update_region_elems [OF u assms(2), of b' c' y' x'] pos [of y' x' b' c']
      by (auto simp: fields)
  qed
qed


lemma stride_cover:
  assumes "1 \<le> S" and "S \<le> T" and "0 < n" and "0 \<le> y" and "y < T + (int n - 1) * S"
  shows "\<exists>k<n. int k * S \<le> y \<and> y < int k * S + T"
proof (cases "y div S \<le> int n - 1")
  case True
  define k where "k = nat (y div S)"
  have q: "0 \<le> y div S"
    using assms(1,4) by (simp add: pos_imp_zdiv_nonneg_iff)
  then have ik: "int k = y div S"
    by (simp add: k_def)
  have "k < n"
    using True q assms(3) by (simp add: k_def nat_less_iff)
  moreover have "int k * S \<le> y"
  proof -
    have "y = S * (y div S) + y mod S" by simp
    moreover have "0 \<le> y mod S" using assms(1) by simp
    ultimately have "S * (y div S) \<le> y" by linarith
    then show ?thesis unfolding ik by (simp add: mult.commute)
  qed
  moreover have "y < int k * S + T"
  proof -
    have "y = S * (y div S) + y mod S" by simp
    moreover have "y mod S < S" using assms(1) by simp
    ultimately have "y < S * (y div S) + S" by linarith
    with assms(2) show ?thesis unfolding ik by (simp add: mult.commute)
  qed
  ultimately show ?thesis by blast
next
  case False
  then have big: "int n \<le> y div S" by simp
  have "int n * S \<le> (y div S) * S"
    using big assms(1) by (simp add: mult_right_mono)
  also have "\<dots> \<le> y"
  proof -
    have "y = S * (y div S) + y mod S" by simp
    moreover have "0 \<le> y mod S" using assms(1) by simp
    ultimately have "S * (y div S) \<le> y" by linarith
    then show ?thesis by (simp add: mult.commute)
  qed
  finally have "int n * S \<le> y" .
  then have "(int n - 1) * S \<le> y"
    using assms(1) by (simp add: left_diff_distrib)
  then have "int (n - 1) * S \<le> y"
    using assms(3) by (simp add: of_nat_diff)
  moreover have "y < int (n - 1) * S + T"
    using assms(3,5) by (simp add: of_nat_diff add.commute)
  moreover have "n - 1 < n" using assms(3) by simp
  ultimately show ?thesis by blast
qed


lemma div8_stride:
  assumes "8 dvd (t::int)" and "8 dvd ov"
  shows "(k * (t - ov)) div 8 = k * ((t - ov) div 8)"
    and "(k * (t - ov) + t) div 8 = k * ((t - ov) div 8) + t div 8"
proof -
  from assms obtain a b where t: "t = 8 * a" and ov: "ov = 8 * b"
    by (auto simp: dvd_def)
  have d: "(t - ov) div 8 = a - b"
  proof -
    have eq: "t - ov = 8 * (a - b)" by (simp add: t ov right_diff_distrib)
    show ?thesis unfolding eq by simp
  qed
  have e: "(k * (t - ov)) div 8 = k * (a - b)"
  proof -
    have eq: "k * (t - ov) = 8 * (k * (a - b))" by (simp add: t ov algebra_simps)
    show ?thesis unfolding eq by simp
  qed
  have f: "(k * (t - ov) + t) div 8 = k * (a - b) + a"
  proof -
    have eq: "k * (t - ov) + t = 8 * (k * (a - b) + a)" by (simp add: t ov algebra_simps)
    show ?thesis unfolding eq by simp
  qed
  have g: "t div 8 = a" by (simp add: t)
  show "(k * (t - ov)) div 8 = k * ((t - ov) div 8)"
    unfolding d e ..
  show "(k * (t - ov) + t) div 8 = k * ((t - ov) div 8) + t div 8"
    unfolding d f g ..
qed

lemma tile_extents:
  assumes "8 dvd tile_height" and "8 dvd tile_row_overlap" and "8 dvd tile_width" and "8 dvd tile_col_overlap"
  shows "tile2latent_indices row col tile_width tile_height tile_row_overlap tile_col_overlap
       = (row * ((tile_height - tile_row_overlap) div 8),
          row * ((tile_height - tile_row_overlap) div 8) + tile_height div 8,
          col * ((tile_width - tile_col_overlap) div 8),
          col * ((tile_width - tile_col_overlap) div 8) + tile_width div 8)"
  using div8_stride [OF assms(1,2), of row] div8_stride [OF assms(3,4), of col]
  by (simp add: tile2latent_indices_def tile2pixel_indices_def pixel2latent_indices_def Let_def)

lemma canvas_extents:
  assumes "8 dvd tile_height" and "8 dvd tile_row_overlap" and "8 dvd tile_width" and "8 dvd tile_col_overlap"
  shows "latents_shape p tile_width tile_height tile_row_overlap tile_col_overlap grid_rows grid_cols
       = (batch_size, in_channels p,
          (int grid_rows - 1) * ((tile_height - tile_row_overlap) div 8) + tile_height div 8,
          (int grid_cols - 1) * ((tile_width - tile_col_overlap) div 8) + tile_width div 8)"
  using div8_stride(2) [OF assms(1,2), of "int grid_rows - 1"]
    div8_stride(2) [OF assms(3,4), of "int grid_cols - 1"]
  by (simp add: latents_shape_def Let_def add.commute)

lemma stride_positive:
  assumes "8 dvd (t::int)" and "8 dvd ov" and "0 \<le> ov" and "ov < t"
  shows "1 \<le> (t - ov) div 8" and "(t - ov) div 8 \<le> t div 8"
proof -
  from assms(1,2) obtain a b where t: "t = 8 * a" and ov: "ov = 8 * b"
    by (auto simp: dvd_def)
  have d: "(t - ov) div 8 = a - b"
  proof -
    have eq: "t - ov = 8 * (a - b)" by (simp add: t ov right_diff_distrib)
    show ?thesis unfolding eq by simp
  qed
  have g: "t div 8 = a" by (simp add: t)
  from assms(3,4) have "0 \<le> b" "b < a"
    by (simp_all add: t ov)
  then show "1 \<le> (t - ov) div 8" and "(t - ov) div 8 \<le> t div 8"
    unfolding d g by simp_all
qed

lemma tile_covers_position:
  assumes ov: "0 \<le> tile_row_overlap" "tile_row_overlap < tile_height"
      "0 \<le> tile_col_overlap" "tile_col_overlap < tile_width"
    and m8: "8 dvd tile_height" "8 dvd tile_width" "8 dvd tile_row_overlap" "8 dvd tile_col_overlap"
    and grid: "0 < grid_rows" "0 < grid_cols"
    and canvas: "latents_shape p tile_width tile_height tile_row_overlap tile_col_overlap grid_rows grid_cols
        = (B, C, h, w)"
    and y: "y < nat h" and x: "x < nat w"
  shows "\<exists>row col r0 r1 c0 c1. row < grid_rows \<and> col < grid_cols
      \<and> tile2latent_indices (int row) (int col) tile_width tile_height tile_row_overlap tile_col_overlap
          = (r0, r1, c0, c1)
      \<and> covers (slice_bounds (nat h) r0 r1, slice_bounds (nat w) c0 c1) y x"
proof -
  define Sr where "Sr = (tile_height - tile_row_overlap) div 8"
  define Sc where "Sc = (tile_width - tile_col_overlap) div 8"
  define Tr where "Tr = tile_height div 8"
  define Tc where "Tc = tile_width div 8"
  have sr: "1 \<le> Sr" "Sr \<le> Tr"
    unfolding Sr_def Tr_def using stride_positive [OF m8(1,3) ov(1,2)] by simp_all
  have sc: "1 \<le> Sc" "Sc \<le> Tc"
    unfolding Sc_def Tc_def using stride_positive [OF m8(2,4) ov(3,4)] by simp_all
  from canvas canvas_extents [OF m8(1,3,2,4), of p grid_rows grid_cols]
  have h: "h = (int grid_rows - 1) * Sr + Tr" and w: "w = (int grid_cols - 1) * Sc + Tc"
    by (simp_all add: Sr_def Sc_def Tr_def Tc_def)
  have "int y < Tr + (int grid_rows - 1) * Sr"
    using y h by linarith
  from stride_cover [OF sr grid(1) _ this] obtain row where
    row: "row < grid_rows" "int row * Sr \<le> int y" "int y < int row * Sr + Tr"
    by auto
  have "int x < Tc + (int grid_cols - 1) * Sc"
    using x w by linarith
  from stride_cover [OF sc grid(2) _ this] obtain col where
    col: "col < grid_cols" "int col * Sc \<le> int x" "int x < int col * Sc + Tc"
    by auto
  have rb: "int row * Sr + Tr \<le> h"
  proof -
    have "int row \<le> int grid_rows - 1" using row(1) by simp
    then have "int row * Sr \<le> (int grid_rows - 1) * Sr"
      using sr(1) by (intro mult_right_mono) simp_all
    then show ?thesis by (simp add: h)
  qed
  have cb: "int col * Sc + Tc \<le> w"
  proof -
    have "int col \<le> int grid_cols - 1" using col(1) by simp
    then have "int col * Sc \<le> (int grid_cols - 1) * Sc"
      using sc(1) by (intro mult_right_mono) simp_all
    then show ?thesis by (simp add: w)
  qed
  have r0: "0 \<le> int row * Sr" and c0: "0 \<le> int col * Sc"
    using sr(1) sc(1) by simp_all
  have rs: "slice_bounds (nat h) (int row * Sr) (int row * Sr + Tr) = (nat (int row * Sr), nat (int row * Sr + Tr))"
    using r0 sr rb by (intro slice_bounds_inside) simp_all
  have cs: "slice_bounds (nat w) (int col * Sc) (int col * Sc + Tc) = (nat (int col * Sc), nat (int col * Sc + Tc))"
    using c0 sc cb by (intro slice_bounds_inside) simp_all
  have cov: "covers (slice_bounds (nat h) (int row * Sr) (int row * Sr + Tr),
                     slice_bounds (nat w) (int col * Sc) (int col * Sc + Tc)) y x"
    unfolding rs cs covers_def using row(2,3) col(2,3) r0 c0 by simp linarith
  have "tile2latent_indices (int row) (int col) tile_width tile_height tile_row_overlap tile_col_overlap
      = (int row * Sr, int row * Sr + Tr, int col * Sc, int col * Sc + Tc)"
    unfolding Sr_def Sc_def Tr_def Tc_def by (rule tile_extents [OF m8(1,3,2,4)])
  with row(1) col(1) cov show ?thesis
    by blast
qed


lemma initial_latents_shape:
  assumes "initial_latents p seed tile_width tile_height tile_row_overlap tile_col_overlap grid_rows grid_cols
      = Inr noise"
    and "latents_shape p tile_width tile_height tile_row_overlap tile_col_overlap grid_rows grid_cols
      = (B, C, h, w)"
  shows "shape noise = (B, C, nat h, nat w)"
  using assms by (auto simp: initial_latents_def draw_def split: sum.splits if_splits)

text \<open>
  Claim C2, with the two conditions it leaves out. For a grid with at least one row and one
  column, overlaps that are not negative and strictly smaller than the tile size, and tile
  sizes and overlaps that are multiples of 8: after the accumulation of one timestep
  (lines 209-216) on a canvas latent of the shape of the initial one, the weight sum is
  strictly positive at every position of the canvas, and the normalized prediction is a
  number there (no division by zero).
\<close>

theorem weight_sum_positive:
  assumes ov: "0 \<le> tile_row_overlap" "tile_row_overlap < tile_height"
      "0 \<le> tile_col_overlap" "tile_col_overlap < tile_width"
    and m8: "8 dvd tile_height" "8 dvd tile_width" "8 dvd tile_row_overlap" "8 dvd tile_col_overlap"
    and grid: "0 < grid_rows" "0 < grid_cols"
    and canvas: "initial_latents p seed tile_width tile_height tile_row_overlap tile_col_overlap
        grid_rows grid_cols = Inr noise"
      "shape latents = shape noise"
    and run: "stitch noise_preds (gaussian_weights (in_channels p) tile_width tile_height batch_size)
        tile_width tile_height tile_row_overlap tile_col_overlap grid_rows grid_cols latents
        = Inr (noise_pred, contributors)"
    and idx: "in_shape (shape latents) idx"
  shows "0 < elems contributors idx \<and> elems (normalize noise_pred contributors) idx \<noteq> None"
proof -
  obtain B C h w where ls: "latents_shape p tile_width tile_height tile_row_overlap tile_col_overlap
      grid_rows grid_cols = (B, C, h, w)"
    by (cases "latents_shape p tile_width tile_height tile_row_overlap tile_col_overlap grid_rows grid_cols") auto
  have sh: "shape latents = (B, C, nat h, nat w)"
    using initial_latents_shape [OF canvas(1) ls] canvas(2) by simp
  obtain b c y x where i: "idx = (b, c, y, x)"
    by (cases idx) auto
  from idx have y: "y < nat h" and x: "x < nat w"
    by (simp_all add: sh i in_shape_def)
  from tile_covers_position [OF ov m8 grid ls y x] obtain row col r0 r1 c0 c1 where
    tile: "row < grid_rows" "col < grid_cols"
    and region: "tile2latent_indices (int row) (int col) tile_width tile_height tile_row_overlap tile_col_overlap
          = (r0, r1, c0, c1)"
    and cov: "covers (slice_bounds (nat h) r0 r1, slice_bounds (nat w) c0 c1) y x"
    by blast
  define gw where "gw = gaussian_weights (in_channels p) tile_width tile_height batch_size"
  define body where "body = (\<lambda>q. stitch_tile noise_preds gw tile_width tile_height tile_row_overlap
      tile_col_overlap (fst q) (snd q))"
  define pairs where "pairs = concat (map (\<lambda>r. map (Pair r) [0..<grid_cols]) [0..<grid_rows])"
  define I where "I = (\<lambda>s :: real tensor \<times> real tensor.
      shape (snd s) = (B, C, nat h, nat w) \<and> (\<forall>j. 0 \<le> elems (snd s) j))"
  define Q where "Q = (\<lambda>s :: real tensor \<times> real tensor. 0 < elems (snd s) (b, c, y, x))"
  have flat: "for_each body pairs (zeros (shape latents), zeros (shape latents)) = Inr (noise_pred, contributors)"
    using run unfolding stitch_def gw_def [symmetric] body_def pairs_def
    by (subst (asm) for_each_nested) simp
  have mem: "(row, col) \<in> set pairs"
    using tile by (auto simp: pairs_def image_iff intro!: bexI [of _ row])
  have start: "I (zeros (shape latents), zeros (shape latents))"
    by (simp add: I_def zeros_def sh)
  have step: "\<exists>r0 r1 c0 c1. tile2latent_indices (int (fst q)) (int (snd q)) tile_width tile_height
          tile_row_overlap tile_col_overlap = (r0, r1, c0, c1)
        \<and> iadd_region (snd s) r0 r1 c0 c1 gw = Inr (snd t)"
    if "body q s = Inr t" for q s t
  proof -
    obtain r0 r1 c0 c1 where r: "tile2latent_indices (int (fst q)) (int (snd q)) tile_width tile_height
          tile_row_overlap tile_col_overlap = (r0, r1, c0, c1)"
      by (cases "tile2latent_indices (int (fst q)) (int (snd q)) tile_width tile_height
          tile_row_overlap tile_col_overlap") auto
    from that have "stitch_tile noise_preds gw tile_width tile_height tile_row_overlap
      tile_col_overlap (fst q) (snd q) (fst s, snd s) = Inr (fst t, snd t)"
      by (simp add: body_def)
    from stitch_tile_contributors [OF this r] r show ?thesis by blast
  qed
  have keep: "I t" if "I s" "body q s = Inr t" for q s t
  proof -
    from step [OF that(2)] obtain r0 r1 c0 c1 where
      a: "iadd_region (snd s) r0 r1 c0 c1 gw = Inr (snd t)" by blast
    from that(1) have ss: "shape (snd s) = (B, C, nat h, nat w)" and nn: "\<And>j. 0 \<le> elems (snd s) j"
      unfolding I_def by blast+
    have "shape (snd t) = (B, C, nat h, nat w)"
      by (rule iadd_gaussian(1) [OF a [unfolded gw_def] ss])
    moreover have "0 \<le> elems (snd t) j" for j
      using iadd_gaussian(2) [OF a [unfolded gw_def] ss, of j] nn [of j] by linarith
    ultimately show ?thesis unfolding I_def by blast
  qed
  have stay: "Q t" if "I s" "Q s" "body q s = Inr t" for q s t
  proof -
    from step [OF that(3)] obtain r0 r1 c0 c1 where
      a: "iadd_region (snd s) r0 r1 c0 c1 gw = Inr (snd t)" by blast
    from that(1) have ss: "shape (snd s) = (B, C, nat h, nat w)"
      unfolding I_def by blast
    from iadd_gaussian(2) [OF a [unfolded gw_def] ss, of "(b, c, y, x)"] that(2)
    show ?thesis unfolding Q_def by simp
  qed
  have hit: "Q t" if "I s" "body (row, col) s = Inr t" for s t
  proof -
    from step [OF that(2)] region have a: "iadd_region (snd s) r0 r1 c0 c1 gw = Inr (snd t)"
      by simp
    from that(1) have ss: "shape (snd s) = (B, C, nat h, nat w)" and nn: "0 \<le> elems (snd s) (b, c, y, x)"
      unfolding I_def by blast+
    from iadd_gaussian(3) [OF a [unfolded gw_def] ss cov, of b c] nn
    show ?thesis unfolding Q_def by simp
  qed
  have "Q (noise_pred, contributors)"
    by (rule for_each_reaches [where I = I and Q = Q, OF flat mem start keep hit stay])
  then have "0 < elems contributors idx"
    by (simp add: Q_def i)
  then show ?thesis
    by (simp add: normalize_def)
qed

text \<open>
  Claim C2 as it is stated fails for a negative overlap, which is strictly smaller than the
  tile size and a multiple of 8: with 8-pixel tiles, column overlap -8 and a 1 x 2 grid the
  canvas is 3 latent columns wide, the tiles cover the columns 0 and 2, and the weight sum
  at column 1 is 0, so the division of line 218 is 0 / 0 there.
\<close>

theorem negative_overlap_counterexample:
  "(0::int) < 8 \<and> (-8::int) < 8 \<and> 8 dvd (8::int) \<and> 8 dvd (0::int) \<and> 8 dvd (-8::int)
   \<and> latents_shape demo_pipeline 8 8 0 (-8) 1 2 = (1, 1, 1, 3)
   \<and> in_shape (1, 1, 1, 3) (0, 0, 0, 1)
   \<and> weight_sum_at
        (stitch [[zeros (1, 1, 1, 1), zeros (1, 1, 1, 1)]] (gaussian_weights 1 8 8 1)
           8 8 0 (-8) 1 2 (zeros (1, 1, 1, 3))) (0, 0, 0, 1) = Inr 0
   \<and> normalized_at
        (stitch [[zeros (1, 1, 1, 1), zeros (1, 1, 1, 1)]] (gaussian_weights 1 8 8 1)
           8 8 0 (-8) 1 2 (zeros (1, 1, 1, 3))) (0, 0, 0, 1) = Inr None"
proof -
  have a: "latents_shape demo_pipeline 8 8 0 (-8) 1 2 = (1, 1, 1, 3)"
    by (simp add: latents_shape_def demo_pipeline_def batch_size_def)
  have b: "in_shape (1, 1, 1, 3) (0, 0, 0, 1)"
    by (simp add: in_shape_def)
  have t0: "tile2latent_indices 0 0 8 8 0 (-8) = (0, 1, 0, 1)"
    and t1: "tile2latent_indices 0 1 8 8 0 (-8) = (0, 1, 2, 3)"
    by (simp_all add: tile2latent_indices_def tile2pixel_indices_def pixel2latent_indices_def)
  have "\<exists>np ct. stitch [[zeros (1, 1, 1, 1), zeros (1, 1, 1, 1)]] (gaussian_weights 1 8 8 1)
           8 8 0 (-8) 1 2 (zeros (1, 1, 1, 3)) = Inr (np, ct) \<and> elems ct (0, 0, 0, 1) = 0"
    unfolding stitch_def stitch_tile_def upt_one_two for_each.simps of_nat_0 of_nat_1 t0 t1 prod.case
    by (simp add: py_index_def binop_def broadcast_shape_def broadcast_dim_def
        iadd_region_def update_region_def expands_to_def zeros_def gaussian_weights_def
        slice_bounds_def slice_bound_def)
  then obtain np ct where
    s: "stitch [[zeros (1, 1, 1, 1), zeros (1, 1, 1, 1)]] (gaussian_weights 1 8 8 1)
           8 8 0 (-8) 1 2 (zeros (1, 1, 1, 3)) = Inr (np, ct)" and z: "elems ct (0, 0, 0, 1) = 0"
    by blast
  show ?thesis
    unfolding s weight_sum_at_def normalized_at_def
    using a b z by (simp add: normalize_def)
qed


text \<open>The theorem for 8-pixel tiles without overlap on a 1 x 2 grid.\<close>

theorem weight_sum_positive_witness:
  "(0::int) \<le> 0 \<and> (0::int) < 8 \<and> 8 dvd (8::int) \<and> 8 dvd (0::int) \<and> (0::nat) < 1 \<and> (0::nat) < 2
   \<and> initial_latents demo_pipeline (Some 0) 8 8 0 0 1 2 = Inr (draw demo_pipeline 0 (1, 1, 1, 2))
   \<and> in_shape (shape (draw demo_pipeline 0 (1, 1, 1, 2))) (0, 0, 0, 1)
   \<and> (\<exists>noise_pred contributors.
         stitch [[zeros (1, 1, 1, 1), zeros (1, 1, 1, 1)]]
           (gaussian_weights (in_channels demo_pipeline) 8 8 batch_size)
           8 8 0 0 1 2 (draw demo_pipeline 0 (1, 1, 1, 2)) = Inr (noise_pred, contributors)
       \<and> 0 < elems contributors (0, 0, 0, 1)
       \<and> elems (normalize noise_pred contributors) (0, 0, 0, 1) \<noteq> None)"
proof -
  have ov: "(0::int) \<le> 0" "(0::int) < 8" by simp_all
  have m8: "8 dvd (8::int)" "8 dvd (0::int)" by simp_all
  have grid: "(0::nat) < 1" "(0::nat) < 2" by simp_all
  have canvas: "initial_latents demo_pipeline (Some 0) 8 8 0 0 1 2 = Inr (draw demo_pipeline 0 (1, 1, 1, 2))"
    by (simp add: initial_latents_def manual_seed_def valid_seed_def latents_shape_def
        demo_pipeline_def batch_size_def)
  have idx: "in_shape (shape (draw demo_pipeline 0 (1, 1, 1, 2))) (0, 0, 0, 1)"
    by (simp add: in_shape_def draw_def)
  have t0: "tile2latent_indices 0 0 8 8 0 0 = (0, 1, 0, 1)"
    and t1: "tile2latent_indices 0 1 8 8 0 0 = (0, 1, 1, 2)"
    by (simp_all add: tile2latent_indices_def tile2pixel_indices_def pixel2latent_indices_def)
  have "\<exists>np ct. stitch [[zeros (1, 1, 1, 1), zeros (1, 1, 1, 1)]]
           (gaussian_weights (in_channels demo_pipeline) 8 8 batch_size)
           8 8 0 0 1 2 (draw demo_pipeline 0 (1, 1, 1, 2)) = Inr (np, ct)"
    unfolding stitch_def stitch_tile_def upt_one_two for_each.simps of_nat_0 of_nat_1 t0 t1 prod.case
    by (simp add: py_index_def binop_def broadcast_shape_def broadcast_dim_def
        iadd_region_def update_region_def expands_to_def zeros_def gaussian_weights_def
        slice_bounds_def slice_bound_def draw_def demo_pipeline_def batch_size_def)
  then obtain np ct where
    run: "stitch [[zeros (1, 1, 1, 1), zeros (1, 1, 1, 1)]]
           (gaussian_weights (in_channels demo_pipeline) 8 8 batch_size)
           8 8 0 0 1 2 (draw demo_pipeline 0 (1, 1, 1, 2)) = Inr (np, ct)"
    by blast
  from weight_sum_positive [OF ov ov m8(1) m8(1) m8(2) m8(2) grid canvas refl run idx]
    ov m8 grid canvas idx run
  show ?thesis by blast
qed

section \<open>Properties of the pipeline facade\<close>

lemma init_latents_shape:
  assumes "init_latents p seed tw th ro co seed_tiles modes regions grid_rows grid_cols = Inr noise"
    and "latents_shape p tw th ro co grid_rows grid_cols = (B, C, h, w)"
  shows "shape noise = (B, C, nat h, nat w)"
proof -
  from assms(1) obtain l0 l1 where
    l0: "initial_latents p seed tw th ro co grid_rows grid_cols = Inr l0"
    and l1: "apply_seed_tiles p seed_tiles modes tw th ro co grid_rows grid_cols l0 = Inr l1"
    and l2: "apply_reroll_regions p regions l1 = Inr noise"
    by (auto simp: init_latents_def split: sum.splits)
  show ?thesis
    using initial_latents_shape [OF l0 assms(2)] apply_seed_tiles_shape [OF l1]
      apply_reroll_regions_shape [OF l2] by simp
qed

lemma latents_shape_batch:
  "latents_shape p tw th ro co grid_rows grid_cols = (B, C, h, w) \<Longrightarrow> B = batch_size"
  by (auto simp: latents_shape_def Let_def)

lemma denoise_step_latents:
  assumes "denoise_step p text_embeddings cfg guidance_scale guidance_scale_tiles tile_weights eta
             tw th ro co grid_rows grid_cols it (st, latents, calls) = Inr (st', latents', calls')"
  shows "\<exists>noise_pred arg. latents' = snd (scheduler_step p st noise_pred arg latents
            (if accepts_eta p then Some eta else None))"
  using assms unfolding denoise_step_def
  by (auto split: prod.splits sum.splits) (metis snd_conv)+

lemma denoise_loop_shape:
  assumes scheduler: "\<forall>st noise_pred arg latents e.
             shape (snd (scheduler_step p st noise_pred arg latents e)) = shape latents"
    and loop: "for_each (denoise_step p text_embeddings cfg guidance_scale guidance_scale_tiles tile_weights eta
                 tw th ro co grid_rows grid_cols) its (st0, latents0, calls0) = Inr (st1, latents1, calls1)"
  shows "shape latents1 = shape latents0"
proof -
  have "shape (fst (snd (st1, latents1, calls1))) = shape latents0"
  proof (rule for_each_invariant [where I = "\<lambda>s. shape (fst (snd s)) = shape latents0", OF loop])
    show "shape (fst (snd (st0, latents0, calls0))) = shape latents0"
      by simp
  next
    fix it s t
    assume inv: "shape (fst (snd s)) = shape latents0"
      and step: "denoise_step p text_embeddings cfg guidance_scale guidance_scale_tiles tile_weights eta
                 tw th ro co grid_rows grid_cols it s = Inr t"
    from step have "denoise_step p text_embeddings cfg guidance_scale guidance_scale_tiles tile_weights eta
                 tw th ro co grid_rows grid_cols it (fst s, fst (snd s), snd (snd s))
                 = Inr (fst t, fst (snd t), snd (snd t))"
      by simp
    from denoise_step_latents [OF this] scheduler inv
    show "shape (fst (snd t)) = shape latents0"
      by auto
  qed
  then show ?thesis by simp
qed

lemma tile_00: "tile2latent_indices 0 0 8 8 0 0 = (0, 1, 0, 1)"
  by (simp add: tile2latent_indices_def tile2pixel_indices_def pixel2latent_indices_def)

lemma slice_unit: "slice_bounds (Suc 0) 0 1 = (0, Suc 0)"
  by (simp add: slice_bounds_def slice_bound_def)

lemma demo_infer:
  assumes "shape latents = (Suc 0, Suc 0, Suc 0, Suc 0)"
  shows "\<exists>pred. infer_tiles demo_pipeline latents [[e]] True g None 8 8 0 0 (Suc 0) (Suc 0) i t calls
           = Inr ([[pred]], calls @ [Unet_call i 0 0]) \<and> shape pred = (Suc 0, Suc 0, Suc 0, Suc 0)"
  unfolding infer_tiles_def infer_row_def infer_tile_def upt_single for_each.simps prod.case
    of_nat_0 tile_00 Let_def
  using assms
  by (simp add: py_index_def model_input_def demo_pipeline_def cat_twice_def getitem_def slice_unit
      chunk2_def tile_guidance_def combine_guidance_def binop_def broadcast_shape_def broadcast_dim_def
      scalar_op_def)

lemma demo_stitch:
  assumes "shape latents = (Suc 0, Suc 0, Suc 0, Suc 0)" and "shape pred = (Suc 0, Suc 0, Suc 0, Suc 0)"
  shows "\<exists>np ct. stitch [[pred]] (gaussian_weights (Suc 0) 8 8 (Suc 0)) 8 8 0 0 (Suc 0) (Suc 0) latents
           = Inr (np, ct)"
  unfolding stitch_def stitch_tile_def upt_single for_each.simps prod.case of_nat_0 tile_00
  using assms
  by (simp add: py_index_def binop_def broadcast_shape_def broadcast_dim_def iadd_region_def
      update_region_def slice_unit expands_to_def zeros_def gaussian_weights_def)

lemma demo_step:
  assumes "shape latents = (Suc 0, Suc 0, Suc 0, Suc 0)"
  shows "denoise_step demo_pipeline [[e]] True g None (gaussian_weights (Suc 0) 8 8 (Suc 0)) eta
           8 8 0 0 (Suc 0) (Suc 0) (i, t) (st, latents, calls)
         = Inr (st, latents, calls @ [Unet_call i 0 0])"
proof -
  from demo_infer [OF assms] obtain pred where
    inf: "infer_tiles demo_pipeline latents [[e]] True g None 8 8 0 0 (Suc 0) (Suc 0) i t calls
           = Inr ([[pred]], calls @ [Unet_call i 0 0])"
    and sp: "shape pred = (Suc 0, Suc 0, Suc 0, Suc 0)"
    by blast
  from demo_stitch [OF assms sp] obtain np ct where
    st: "stitch [[pred]] (gaussian_weights (Suc 0) 8 8 (Suc 0)) 8 8 0 0 (Suc 0) (Suc 0) latents = Inr (np, ct)"
    by blast
  show ?thesis
    unfolding denoise_step_def prod.case inf sum.case st
    by (simp add: demo_pipeline_def)
qed


lemma demo_validate:
  "validate (Inr [[''a'']]) (Inl ''full'') None = Inr (Suc 0, Suc 0, [[''full'']], [])"
  by (simp add: validate_def)

lemma demo_fields:
  "is_lms demo_pipeline = False" "in_channels demo_pipeline = Suc 0"
  "set_timesteps demo_pipeline 1 = Suc 0" "timesteps demo_pipeline (Suc 0) = [0]"
  "text_encoder demo_pipeline text = text" "cat_embeddings demo_pipeline [] text = text"
  "decode_latents demo_pipeline latents cpu_vae = replicate (batch latents) ()"
  by (simp_all add: demo_pipeline_def)

lemma demo_call_guided:
  assumes "init_latents demo_pipeline (Some 0) 8 8 0 0 seed_tiles [[''full'']] [] (Suc 0) (Suc 0) = Inr noise"
    and "shape noise = (Suc 0, Suc 0, Suc 0, Suc 0)"
  shows "call demo_pipeline (Inr [[''a'']]) 1 (15 / 2) 0 (Some 0) 8 8 0 0 None seed_tiles (Inl ''full'') None False
       = Inr ([()], [Text_encoder_call ''a'', Text_encoder_call [], Unet_call 0 0 0])"
  unfolding call_def demo_validate sum.case prod.case assms(1) Let_def demo_fields
  by (simp add: enumerate_list_def batch_size_def demo_step [OF assms(2)] batch_def assms(2))

lemma demo_call_unguided:
  assumes "init_latents demo_pipeline (Some 0) 8 8 0 0 seed_tiles [[''full'']] [] (Suc 0) (Suc 0) = Inr noise"
  shows "call demo_pipeline (Inr [[''a'']]) 1 1 0 (Some 0) 8 8 0 0 None seed_tiles (Inl ''full'') None False
       = Inl (IndexError, [Text_encoder_call ''a'', Unet_call 0 0 0])"
  unfolding call_def demo_validate sum.case prod.case assms(1) Let_def demo_fields
  by (simp add: enumerate_list_def unguided_step_raises [unfolded One_nat_def])

lemma demo_init_none:
  "\<exists>noise. init_latents demo_pipeline (Some 0) 8 8 0 0 None [[''full'']] [] (Suc 0) (Suc 0) = Inr noise
     \<and> shape noise = (Suc 0, Suc 0, Suc 0, Suc 0)"
  by (simp add: init_latents_def initial_latents_def manual_seed_def valid_seed_def latents_shape_def
      apply_seed_tiles_def apply_reroll_regions_def draw_def demo_pipeline_def batch_size_def)

lemma demo_init_outside:
  "\<exists>noise. init_latents demo_pipeline (Some 0) 8 8 0 0 (Some [[None, Some 5]]) [[''full'']] [] (Suc 0) (Suc 0)
       = Inr noise
     \<and> shape noise = (Suc 0, Suc 0, Suc 0, Suc 0)"
  by (simp add: init_latents_def initial_latents_def manual_seed_def valid_seed_def latents_shape_def
      apply_seed_tiles_def seed_tile_def py_index_def apply_reroll_regions_def draw_def
      demo_pipeline_def batch_size_def)

lemma init_latents_batch:
  assumes "init_latents p seed tw th ro co seed_tiles modes regions grid_rows grid_cols = Inr noise"
  shows "batch noise = 1"
proof -
  obtain B C h w where ls: "latents_shape p tw th ro co grid_rows grid_cols = (B, C, h, w)"
    by (cases "latents_shape p tw th ro co grid_rows grid_cols") auto
  have "shape noise = (batch_size, C, nat h, nat w)"
    using init_latents_shape [OF assms ls] latents_shape_batch [OF ls] by simp
  then show ?thesis
    by (simp add: batch_def batch_size_def)
qed

lemma call_single_image:
  assumes run: "call p prompt num_inference_steps guidance_scale eta seed tile_height tile_width
             tile_row_overlap tile_col_overlap guidance_scale_tiles seed_tiles seed_tiles_mode
             seed_reroll_regions cpu_vae = Inr (images, calls)"
    and scheduler: "\<forall>st noise_pred arg latents e.
             shape (snd (scheduler_step p st noise_pred arg latents e)) = shape latents"
    and decoder: "\<forall>latents. length (decode_latents p latents cpu_vae) = batch latents"
  shows "(\<exists>latents. images = decode_latents p latents cpu_vae \<and> batch latents = 1) \<and> length images = 1"
proof -
  from run obtain grid_rows grid_cols modes regions where
    v: "validate prompt seed_tiles_mode seed_reroll_regions = Inr (grid_rows, grid_cols, modes, regions)"
    unfolding call_def by (auto split: sum.splits)
  from run v obtain noise where
    n: "init_latents p seed tile_width tile_height tile_row_overlap tile_col_overlap
          seed_tiles modes regions grid_rows grid_cols = Inr noise"
    unfolding call_def by (auto split: sum.splits)
  have bn: "batch noise = 1"
    by (rule init_latents_batch [OF n])
  define latents0 where "latents0 = (if is_lms p then scalar_op (\<lambda>v. v * sigmas p 0) noise else noise)"
  have b0: "batch latents0 = 1"
    using bn by (simp add: latents0_def batch_def scalar_op_def)
  from run have "\<exists>text_embeddings cfg its st0 calls0 st1 latents1.
      for_each (denoise_step p text_embeddings cfg guidance_scale guidance_scale_tiles
                  (gaussian_weights (in_channels p) tile_width tile_height batch_size) eta
                  tile_width tile_height tile_row_overlap tile_col_overlap grid_rows grid_cols)
        its (st0, latents0, calls0) = Inr (st1, latents1, calls)
      \<and> images = decode_latents p latents1 cpu_vae"
    unfolding call_def v n sum.case prod.case Let_def latents0_def [symmetric]
    by (auto split: sum.splits) blast+
  then obtain text_embeddings cfg its st0 calls0 st1 latents1 where
    loop: "for_each (denoise_step p text_embeddings cfg guidance_scale guidance_scale_tiles
                  (gaussian_weights (in_channels p) tile_width tile_height batch_size) eta
                  tile_width tile_height tile_row_overlap tile_col_overlap grid_rows grid_cols)
        its (st0, latents0, calls0) = Inr (st1, latents1, calls)"
    and img: "images = decode_latents p latents1 cpu_vae"
    by blast
  have "batch latents1 = 1"
    using denoise_loop_shape [OF scheduler loop] b0 by (simp add: batch_def)
  with img decoder show ?thesis
    by auto
qed

text \<open>
  Claim C10. Whatever the size of the grid, the tile sizes, the overlaps and the seeding
  directives are: an initial canvas latent that is built has the batch dimension 1; and
  when the pipeline returns, with a scheduler whose step returns a sample of the shape of
  the latent it is given and a decoder that returns one image for each batch entry of the
  latent, what it returns is the decoding of a latent of batch dimension 1, which is one
  image.
\<close>

theorem single_image:
  "(init_latents p seed tile_width tile_height tile_row_overlap tile_col_overlap
        seed_tiles modes regions grid_rows grid_cols = Inr noise
      \<longrightarrow> batch noise = 1)
   \<and> (call p prompt num_inference_steps guidance_scale eta seed tile_height tile_width
          tile_row_overlap tile_col_overlap guidance_scale_tiles seed_tiles seed_tiles_mode
          seed_reroll_regions cpu_vae = Inr (images, calls)
        \<and> (\<forall>st noise_pred arg latents e.
              shape (snd (scheduler_step p st noise_pred arg latents e)) = shape latents)
        \<and> (\<forall>latents. length (decode_latents p latents cpu_vae) = batch latents)
      \<longrightarrow> (\<exists>latents. images = decode_latents p latents cpu_vae \<and> batch latents = 1)
          \<and> length images = 1)"
  apply (rule conjI)
   apply (rule impI, erule init_latents_batch)
  apply (rule impI, elim conjE)
  apply (rule call_single_image; assumption)
  done

text \<open>
  The theorem on the pipeline of the previous section: the initial canvas latent of a 2 x 3
  grid of 16-pixel tiles with overlap 8 has the batch dimension 1, and the call with the
  prompt grid \<open>[["a"]]\<close>, one inference step and the guidance scale 7.5 returns one image.
\<close>

theorem single_image_witness:
  "(\<exists>noise. init_latents demo_pipeline (Some 0) 16 16 8 8 None
        [[''full'', ''full'', ''full''], [''full'', ''full'', ''full'']] [] 2 3 = Inr noise
      \<and> shape noise = (1, 1, 3, 4) \<and> batch noise = 1)
   \<and> call demo_pipeline (Inr [[''a'']]) 1 (15 / 2) 0 (Some 0) 8 8 0 0 None None (Inl ''full'') None False
     = Inr ([()], [Text_encoder_call ''a'', Text_encoder_call [], Unet_call 0 0 0])
   \<and> (\<forall>st noise_pred arg latents e.
         shape (snd (scheduler_step demo_pipeline st noise_pred arg latents e)) = shape latents)
   \<and> (\<forall>latents. length (decode_latents demo_pipeline latents False) = batch latents)
   \<and> length [()] = 1"
proof -
  have "\<exists>noise. init_latents demo_pipeline (Some 0) 16 16 8 8 None
        [[''full'', ''full'', ''full''], [''full'', ''full'', ''full'']] [] 2 3 = Inr noise
      \<and> shape noise = (1, 1, 3, 4)"
    by (simp add: init_latents_def initial_latents_def manual_seed_def valid_seed_def latents_shape_def
        apply_seed_tiles_def apply_reroll_regions_def draw_def demo_pipeline_def batch_size_def)
  then obtain noise where
    init: "init_latents demo_pipeline (Some 0) 16 16 8 8 None
        [[''full'', ''full'', ''full''], [''full'', ''full'', ''full'']] [] 2 3 = Inr noise"
    and sh: "shape noise = (1, 1, 3, 4)"
    by blast
  have run: "call demo_pipeline (Inr [[''a'']]) 1 (15 / 2) 0 (Some 0) 8 8 0 0 None None (Inl ''full'') None False
     = Inr ([()], [Text_encoder_call ''a'', Text_encoder_call [], Unet_call 0 0 0])"
    using demo_init_none demo_call_guided by blast
  have sch: "\<forall>st noise_pred arg latents e.
         shape (snd (scheduler_step demo_pipeline st noise_pred arg latents e)) = shape latents"
    by (simp add: demo_pipeline_def)
  have dec: "\<forall>latents. length (decode_latents demo_pipeline latents False) = batch latents"
    by (simp add: demo_pipeline_def)
  have "batch noise = 1"
    using single_image [THEN conjunct1, rule_format, OF init] .
  moreover have "length [()] = 1"
    using single_image [THEN conjunct2, rule_format, of demo_pipeline _ _ _ _ _ _ _ _ _ _ _ _ _ False "[()]"]
      run sch dec by blast
  ultimately show ?thesis
    using init sh run sch dec by blast
qed

text \<open>
  Claim C3 fails: the prediction of a tile is appended to the row of predictions inside the
  branch of the guidance (line 206), so without guidance the rows stay empty and the
  stitching raises \<open>IndexError\<close> at \<open>noise_preds[row][col]\<close> (line 215). On a 1 x 1 grid,
  with any collaborators, any embedding, latent and timestep, the step without guidance
  calls the denoising network once and then raises; and the call with the prompt grid
  \<open>[["a"]]\<close>, one inference step and the guidance scale 1.0 ends with that exception after
  one call to the text encoder and one to the denoising network, and yields no image.
\<close>

theorem unguided_step_fails:
  "denoise_step p [[embedding]] False guidance_scale guidance_scale_tiles tile_weights eta
     tile_width tile_height tile_row_overlap tile_col_overlap 1 1 (i, t) (scheduler_state, latents, calls)
   = Inl (IndexError, calls @ [Unet_call i 0 0])
   \<and> call demo_pipeline (Inr [[''a'']]) 1 1 0 (Some 0) 8 8 0 0 None None (Inl ''full'') None False
   = Inl (IndexError, [Text_encoder_call ''a'', Unet_call 0 0 0])"
proof
  show "denoise_step p [[embedding]] False guidance_scale guidance_scale_tiles tile_weights eta
     tile_width tile_height tile_row_overlap tile_col_overlap 1 1 (i, t) (scheduler_state, latents, calls)
   = Inl (IndexError, calls @ [Unet_call i 0 0])"
    by (rule unguided_step_raises)
next
  from demo_init_none obtain noise where
    "init_latents demo_pipeline (Some 0) 8 8 0 0 None [[''full'']] [] (Suc 0) (Suc 0) = Inr noise"
    by blast
  then show "call demo_pipeline (Inr [[''a'']]) 1 1 0 (Some 0) 8 8 0 0 None None (Inl ''full'') None False
   = Inl (IndexError, [Text_encoder_call ''a'', Unet_call 0 0 0])"
    by (rule demo_call_unguided)
qed

lemma for_each_fails_at:
  assumes "x \<in> set xs" and "I s"
    and "\<And>s. I s \<Longrightarrow> \<exists>e. body x s = Inl e"
    and "\<And>y s t. y \<in> set xs \<Longrightarrow> I s \<Longrightarrow> body y s = Inr t \<Longrightarrow> I t"
  shows "\<exists>e. for_each body xs s = Inl e"
  using assms
proof (induction xs arbitrary: s)
  case Nil
  then show ?case by simp
next
  case (Cons y ys)
  show ?case
  proof (cases "body y s")
    case (Inl e)
    then show ?thesis by simp
  next
    case (Inr t)
    with Cons.prems(3) [OF Cons.prems(2)] have "x \<noteq> y"
      by auto
    with Cons.prems(1) have x: "x \<in> set ys"
      by simp
    have t: "I t"
      using Cons.prems(4) [of y s t] Cons.prems(2) Inr by simp
    have "\<exists>e. for_each body ys t = Inl e"
      by (rule Cons.IH [OF x t Cons.prems(3)]) (use Cons.prems(4) in \<open>auto\<close>)
    with Inr show ?thesis
      by simp
  qed
qed

lemma call_init_fails:
  assumes "validate prompt seed_tiles_mode seed_reroll_regions = Inr (grid_rows, grid_cols, modes, regions)"
    and "init_latents p seed tile_width tile_height tile_row_overlap tile_col_overlap
           seed_tiles modes regions grid_rows grid_cols = Inl e"
  shows "call p prompt num_inference_steps guidance_scale eta seed tile_height tile_width
           tile_row_overlap tile_col_overlap guidance_scale_tiles seed_tiles seed_tiles_mode
           seed_reroll_regions cpu_vae = Inl (e, [])"
  using assms by (simp add: call_def)

lemma seed_tile_missing:
  assumes "length seeds \<le> row \<or> length (seeds ! row) \<le> col"
  shows "\<exists>e. seed_tile p seeds modes tw th ro co grid_rows grid_cols row col t = Inl e"
  using assms by (auto simp: seed_tile_def py_index_def)

lemma apply_seed_tiles_missing:
  assumes "row < grid_rows" and "col < grid_cols"
    and "length seeds \<le> row \<or> length (seeds ! row) \<le> col"
  shows "\<exists>e. apply_seed_tiles p (Some seeds) modes tw th ro co grid_rows grid_cols t = Inl e"
proof -
  have inner: "\<exists>e. for_each (\<lambda>col. seed_tile p seeds modes tw th ro co grid_rows grid_cols row col)
      [0..<grid_cols] s = Inl e" for s
  proof (rule for_each_fails_at [where x = col and I = "\<lambda>s. True"])
    show "col \<in> set [0..<grid_cols]"
      using assms(2) by simp
    show "\<exists>e. seed_tile p seeds modes tw th ro co grid_rows grid_cols row col s' = Inl e" for s'
      by (rule seed_tile_missing [OF assms(3)])
  qed simp_all
  have "\<exists>e. for_each
      (\<lambda>row. for_each (\<lambda>col. seed_tile p seeds modes tw th ro co grid_rows grid_cols row col) [0..<grid_cols])
      [0..<grid_rows] t = Inl e"
  proof (rule for_each_fails_at [where x = row and I = "\<lambda>s. True"])
    show "row \<in> set [0..<grid_rows]"
      using assms(1) by simp
    show "\<exists>e. for_each (\<lambda>col. seed_tile p seeds modes tw th ro co grid_rows grid_cols row col)
        [0..<grid_cols] s' = Inl e" for s'
      by (rule inner)
  qed simp_all
  then show ?thesis
    by (simp add: apply_seed_tiles_def)
qed

lemma slice_past:
  assumes "reaches_past (int n) a b"
  shows "snd (slice_bounds n a b) - fst (slice_bounds n a b) \<noteq> nat (b - a)"
    and "nat (b - a) \<noteq> 1"
  using assms by (auto simp: reaches_past_def slice_bounds_def slice_bound_def)

lemma reseed_region_past:
  assumes "shape t = (B, C, H, W)"
    and "reaches_past (int H) a b \<or> reaches_past (int W) c d"
  shows "\<exists>e. reseed_region p t a b c d s = Inl e"
proof (cases "manual_seed (Some s)")
  case (Inl e)
  then show ?thesis by (simp add: reseed_region_def)
next
  case (Inr g)
  from assms(2) have "\<not> expands_to (B, C, nat (b - a), nat (d - c))
      (B, C, snd (slice_bounds H a b) - fst (slice_bounds H a b),
             snd (slice_bounds W c d) - fst (slice_bounds W c d))"
    using slice_past [of H a b] slice_past [of W c d]
    by (auto simp: expands_to_def)
  then show ?thesis
    using Inr assms(1)
    by (auto simp: reseed_region_def setitem_def update_region_def draw_def split: prod.splits)
qed

lemma apply_reroll_regions_past:
  assumes "region \<in> set regions" and "shape t = (B, C, nat h, nat w)" and "0 \<le> h" and "0 \<le> w"
    and "past_canvas (B, C, h, w) region"
  shows "\<exists>e. apply_reroll_regions p regions t = Inl e"
  unfolding apply_reroll_regions_def
proof (rule for_each_fails_at [where x = region and I = "\<lambda>s. shape s = (B, C, nat h, nat w)"])
  show "region \<in> set regions" by (rule assms(1))
  show "shape t = (B, C, nat h, nat w)" by (rule assms(2))
next
  fix s :: "real tensor"
  assume sh: "shape s = (B, C, nat h, nat w)"
  obtain r0 r1 c0 c1 sd where r: "region = (r0, r1, c0, c1, sd)"
    by (cases region) auto
  from assms(3-5) have "reaches_past (int (nat h)) (r0 div 8) (r1 div 8)
      \<or> reaches_past (int (nat w)) (c0 div 8) (c1 div 8)"
    by (simp add: past_canvas_def r)
  from reseed_region_past [OF sh this]
  show "\<exists>e. reroll_region p region s = Inl e"
    by (simp add: reroll_region_def r pixel2latent_indices_def)
next
  fix y :: "int \<times> int \<times> int \<times> int \<times> int" and s t' :: "real tensor"
  assume "shape s = (B, C, nat h, nat w)" and "reroll_region p y s = Inr t'"
  then show "shape t' = (B, C, nat h, nat w)"
    using reroll_region_shape by fastforce
qed

lemma init_latents_missing:
  assumes "row < grid_rows" and "col < grid_cols"
    and "length seeds \<le> row \<or> length (seeds ! row) \<le> col"
  shows "\<exists>e. init_latents p seed tw th ro co (Some seeds) modes regions grid_rows grid_cols = Inl e"
proof (cases "initial_latents p seed tw th ro co grid_rows grid_cols")
  case (Inl e)
  then show ?thesis by (simp add: init_latents_def)
next
  case (Inr l0)
  from apply_seed_tiles_missing [OF assms, of p modes tw th ro co l0] Inr show ?thesis
    by (auto simp: init_latents_def)
qed

lemma init_latents_past:
  assumes "region \<in> set regions"
    and "past_canvas (latents_shape p tw th ro co grid_rows grid_cols) region"
  shows "\<exists>e. init_latents p seed tw th ro co seed_tiles modes regions grid_rows grid_cols = Inl e"
proof (cases "initial_latents p seed tw th ro co grid_rows grid_cols")
  case (Inl e)
  then show ?thesis by (simp add: init_latents_def)
next
  case l0: (Inr l0)
  show ?thesis
  proof (cases "apply_seed_tiles p seed_tiles modes tw th ro co grid_rows grid_cols l0")
    case (Inl e)
    with l0 show ?thesis by (simp add: init_latents_def)
  next
    case l1: (Inr l1)
    obtain B C h w where ls: "latents_shape p tw th ro co grid_rows grid_cols = (B, C, h, w)"
      by (cases "latents_shape p tw th ro co grid_rows grid_cols") auto
    from l0 ls have pos: "0 \<le> h" "0 \<le> w"
      by (auto simp: initial_latents_def split: sum.splits if_splits)
    have "shape l1 = (B, C, nat h, nat w)"
      using initial_latents_shape [OF l0 ls] apply_seed_tiles_shape [OF l1] by simp
    from apply_reroll_regions_past [OF assms(1) this pos] assms(2) ls
    obtain e where "apply_reroll_regions p regions l1 = Inl e"
      by auto
    with l0 l1 show ?thesis
      by (simp add: init_latents_def)
  qed
qed

text \<open>
  Claim C6, as far as the code goes. The seeding of lines 92-117 runs before the first call
  to the text encoder or the denoising network, so an exception raised there ends the call
  with no call made. It is raised when the seed grid has no entry for a tile of the prompt
  grid (\<open>IndexError\<close> at line 102, unless an earlier directive raises first), and when a
  reroll region starts at a latent row (column) that is not negative, spans at least two
  latent rows (columns) and ends past the canvas (\<open>RuntimeError\<close> at line 117, unless an
  earlier line raises first).
\<close>

theorem seeding_errors_precede_network:
  "(validate prompt seed_tiles_mode seed_reroll_regions = Inr (grid_rows, grid_cols, modes, regions)
      \<and> init_latents p seed tile_width tile_height tile_row_overlap tile_col_overlap
            seed_tiles modes regions grid_rows grid_cols = Inl e
    \<longrightarrow> call p prompt num_inference_steps guidance_scale eta seed tile_height tile_width
          tile_row_overlap tile_col_overlap guidance_scale_tiles seed_tiles seed_tiles_mode
          seed_reroll_regions cpu_vae = Inl (e, []))
   \<and> (validate prompt seed_tiles_mode seed_reroll_regions = Inr (grid_rows, grid_cols, modes, regions)
      \<and> seed_tiles = Some seeds \<and> row < grid_rows \<and> col < grid_cols
      \<and> (length seeds \<le> row \<or> length (seeds ! row) \<le> col)
    \<longrightarrow> (\<exists>e'. call p prompt num_inference_steps guidance_scale eta seed tile_height tile_width
          tile_row_overlap tile_col_overlap guidance_scale_tiles seed_tiles seed_tiles_mode
          seed_reroll_regions cpu_vae = Inl (e', [])))
   \<and> (validate prompt seed_tiles_mode seed_reroll_regions = Inr (grid_rows, grid_cols, modes, regions)
      \<and> region \<in> set regions
      \<and> past_canvas (latents_shape p tile_width tile_height tile_row_overlap tile_col_overlap
            grid_rows grid_cols) region
    \<longrightarrow> (\<exists>e'. call p prompt num_inference_steps guidance_scale eta seed tile_height tile_width
          tile_row_overlap tile_col_overlap guidance_scale_tiles seed_tiles seed_tiles_mode
          seed_reroll_regions cpu_vae = Inl (e', [])))"
proof (intro conjI impI)
  assume "validate prompt seed_tiles_mode seed_reroll_regions = Inr (grid_rows, grid_cols, modes, regions)
      \<and> init_latents p seed tile_width tile_height tile_row_overlap tile_col_overlap
            seed_tiles modes regions grid_rows grid_cols = Inl e"
  then show "call p prompt num_inference_steps guidance_scale eta seed tile_height tile_width
          tile_row_overlap tile_col_overlap guidance_scale_tiles seed_tiles seed_tiles_mode
          seed_reroll_regions cpu_vae = Inl (e, [])"
    by (simp add: call_init_fails)
next
  assume a: "validate prompt seed_tiles_mode seed_reroll_regions = Inr (grid_rows, grid_cols, modes, regions)
      \<and> seed_tiles = Some seeds \<and> row < grid_rows \<and> col < grid_cols
      \<and> (length seeds \<le> row \<or> length (seeds ! row) \<le> col)"
  then obtain e' where "init_latents p seed tile_width tile_height tile_row_overlap tile_col_overlap
            seed_tiles modes regions grid_rows grid_cols = Inl e'"
    using init_latents_missing [of row grid_rows col grid_cols seeds p seed tile_width tile_height
        tile_row_overlap tile_col_overlap modes regions]
    by auto
  with a show "\<exists>e'. call p prompt num_inference_steps guidance_scale eta seed tile_height tile_width
          tile_row_overlap tile_col_overlap guidance_scale_tiles seed_tiles seed_tiles_mode
          seed_reroll_regions cpu_vae = Inl (e', [])"
    by (auto simp: call_init_fails)
next
  assume a: "validate prompt seed_tiles_mode seed_reroll_regions = Inr (grid_rows, grid_cols, modes, regions)
      \<and> region \<in> set regions
      \<and> past_canvas (latents_shape p tile_width tile_height tile_row_overlap tile_col_overlap
            grid_rows grid_cols) region"
  then obtain e' where "init_latents p seed tile_width tile_height tile_row_overlap tile_col_overlap
            seed_tiles modes regions grid_rows grid_cols = Inl e'"
    using init_latents_past [of region regions p tile_width tile_height tile_row_overlap
        tile_col_overlap grid_rows grid_cols seed seed_tiles modes]
    by auto
  with a show "\<exists>e'. call p prompt num_inference_steps guidance_scale eta seed tile_height tile_width
          tile_row_overlap tile_col_overlap guidance_scale_tiles seed_tiles seed_tiles_mode
          seed_reroll_regions cpu_vae = Inl (e', [])"
    by (auto simp: call_init_fails)
qed

text \<open>
  The theorem on the pipeline of the previous section, with the prompt grid \<open>[["a"]]\<close> and
  8-pixel tiles. With the seed grid \<open>[[]]\<close>, which has no entry for the tile (0, 0), the
  call ends with \<open>IndexError\<close> and no call made. With the reroll region
  \<open>(0, 24, 0, 8, 5)\<close>, three latent rows on a canvas of one, it ends with an exception and
  no call made.
\<close>

theorem seeding_errors_precede_network_witness:
  "validate (Inr [[''a'']]) (Inl ''full'') None = Inr (1, 1, [[''full'']], [])
   \<and> init_latents demo_pipeline (Some 0) 8 8 0 0 (Some [[]]) [[''full'']] [] 1 1 = Inl IndexError
   \<and> call demo_pipeline (Inr [[''a'']]) 1 (15 / 2) 0 (Some 0) 8 8 0 0 None (Some [[]])
        (Inl ''full'') None False = Inl (IndexError, [])
   \<and> (0::nat) < 1 \<and> length [[] :: int option list] \<le> 1 \<and> length ([[] :: int option list] ! 0) \<le> 0
   \<and> (\<exists>e. call demo_pipeline (Inr [[''a'']]) 1 (15 / 2) 0 (Some 0) 8 8 0 0 None (Some [[]])
        (Inl ''full'') None False = Inl (e, []))
   \<and> validate (Inr [[''a'']]) (Inl ''full'') (Some [(0, 24, 0, 8, 5)])
        = Inr (1, 1, [[''full'']], [(0, 24, 0, 8, 5)])
   \<and> (0, 24, 0, 8, 5) \<in> set [(0, 24, 0, 8, 5 :: int)]
   \<and> past_canvas (latents_shape demo_pipeline 8 8 0 0 1 1) (0, 24, 0, 8, 5)
   \<and> (\<exists>e. call demo_pipeline (Inr [[''a'']]) 1 (15 / 2) 0 (Some 0) 8 8 0 0 None None
        (Inl ''full'') (Some [(0, 24, 0, 8, 5)]) False = Inl (e, []))"
proof -
  have v1: "validate (Inr [[''a'']]) (Inl ''full'') None = Inr (1, 1, [[''full'']], [])"
    by (simp add: validate_def)
  have i1: "init_latents demo_pipeline (Some 0) 8 8 0 0 (Some [[]]) [[''full'']] [] 1 1 = Inl IndexError"
    by (simp add: init_latents_def initial_latents_def manual_seed_def valid_seed_def latents_shape_def
        apply_seed_tiles_def seed_tile_def py_index_def demo_pipeline_def batch_size_def)
  have c1: "call demo_pipeline (Inr [[''a'']]) 1 (15 / 2) 0 (Some 0) 8 8 0 0 None (Some [[]])
        (Inl ''full'') None False = Inl (IndexError, [])"
    using seeding_errors_precede_network [THEN conjunct1, rule_format, OF conjI, OF v1 i1] .
  have h2: "(0::nat) < 1" "length [[] :: int option list] \<le> 1"
      "length ([[] :: int option list] ! 0) \<le> 0"
    by simp_all
  have c2: "\<exists>e. call demo_pipeline (Inr [[''a'']]) 1 (15 / 2) 0 (Some 0) 8 8 0 0 None (Some [[]])
        (Inl ''full'') None False = Inl (e, [])"
    using seeding_errors_precede_network [THEN conjunct2, THEN conjunct1, rule_format,
        of "Inr [[''a'']]" "Inl ''full''" None 1 1 "[[''full'']]" "[]" "Some [[]]" "[[]]" 0 0
           demo_pipeline 1 "15 / 2" 0 "Some 0" 8 8 0 0 None False]
      v1 h2 by simp
  have v3: "validate (Inr [[''a'']]) (Inl ''full'') (Some [(0, 24, 0, 8, 5)])
        = Inr (1, 1, [[''full'']], [(0, 24, 0, 8, 5)])"
    by (simp add: validate_def)
  have m3: "(0, 24, 0, 8, 5) \<in> set [(0, 24, 0, 8, 5 :: int)]"
    by simp
  have p3: "past_canvas (latents_shape demo_pipeline 8 8 0 0 1 1) (0, 24, 0, 8, 5)"
    by (simp add: past_canvas_def reaches_past_def latents_shape_def demo_pipeline_def batch_size_def)
  have c3: "\<exists>e. call demo_pipeline (Inr [[''a'']]) 1 (15 / 2) 0 (Some 0) 8 8 0 0 None None
        (Inl ''full'') (Some [(0, 24, 0, 8, 5)]) False = Inl (e, [])"
    using seeding_errors_precede_network [THEN conjunct2, THEN conjunct2, rule_format,
        of "Inr [[''a'']]" "Inl ''full''" "Some [(0, 24, 0, 8, 5)]" 1 1 "[[''full'']]"
           "[(0, 24, 0, 8, 5)]" "(0, 24, 0, 8, 5)" demo_pipeline 8 8 0 0 1 "15 / 2" 0 "Some 0" None None False]
      v3 m3 p3 by simp
  from v1 i1 c1 h2 c2 v3 m3 p3 c3 show ?thesis
    by blast
qed

text \<open>
  Claim C6 fails: nothing validates the seed grid against the prompt grid. With the prompt
  grid \<open>[["a"]]\<close> and the seed grid \<open>[[None, 5]]\<close>, whose second entry is a directive for the
  tile (0, 1) outside the 1 x 1 grid, the loop of lines 100-101 reads the entry (0, 0) only,
  and the call makes its calls to the text encoder and the denoising network and returns an
  image.
\<close>

theorem seed_outside_grid_counterexample:
  "call demo_pipeline (Inr [[''a'']]) 1 (15 / 2) 0 (Some 0) 8 8 0 0 None (Some [[None, Some 5]])
     (Inl ''full'') None False
     = Inr ([()], [Text_encoder_call ''a'', Text_encoder_call [], Unet_call 0 0 0])"
  using demo_init_outside demo_call_guided by blast


end
